theory Spec2Isabelle
  imports Complex_Main "HOL-Library.Word"
begin

unbundle bit_operations_syntax

section \<open>Floating-point values\<close>

text \<open>
  A C++ \<open>float\<close> is modelled as a real number or one of the three special values of
  IEEE arithmetic that the program relies on: the two infinities (the initial bounds of an
  unfit box, the initial best distance of a search) and NaN (the result of \<open>0 / 0\<close> and of
  \<open>0 * \<infinity>\<close>). Arithmetic on finite values is exact: rounding, overflow of finite values
  and the sign of zero are not modelled (a zero divisor is taken as \<open>+0\<close>). Every
  comparison with NaN is false, as in the source language. The slab test of one box
  (\<open>AABB::intersect\<close>) is the exception: there every difference and quotient is rounded to
  \<open>float\<close> (\<open>float_round\<close> below) and a zero divisor has a sign.
\<close>

datatype fl = NaN | NInf | Fin real | PInf

fun fneg :: "fl \<Rightarrow> fl" where
  "fneg NaN = NaN"
| "fneg NInf = PInf"
| "fneg (Fin a) = Fin (- a)"
| "fneg PInf = NInf"

fun fadd :: "fl \<Rightarrow> fl \<Rightarrow> fl" where
  "fadd (Fin a) (Fin b) = Fin (a + b)"
| "fadd NaN _ = NaN"
| "fadd _ NaN = NaN"
| "fadd PInf NInf = NaN"
| "fadd NInf PInf = NaN"
| "fadd PInf _ = PInf"
| "fadd _ PInf = PInf"
| "fadd NInf _ = NInf"
| "fadd _ NInf = NInf"

definition fsub :: "fl \<Rightarrow> fl \<Rightarrow> fl" where
  "fsub a b = fadd a (fneg b)"

text \<open>The sign of a value: \<open>1\<close>, \<open>-1\<close>, or \<open>0\<close> for zero and NaN.\<close>

fun fsign :: "fl \<Rightarrow> int" where
  "fsign NaN = 0"
| "fsign NInf = - 1"
| "fsign PInf = 1"
| "fsign (Fin a) = (if 0 < a then 1 else if a < 0 then - 1 else 0)"

definition inf_of_sign :: "int \<Rightarrow> fl" where
  "inf_of_sign k = (if 0 < k then PInf else if k < 0 then NInf else NaN)"

fun fmul :: "fl \<Rightarrow> fl \<Rightarrow> fl" where
  "fmul (Fin a) (Fin b) = Fin (a * b)"
| "fmul NaN _ = NaN"
| "fmul _ NaN = NaN"
| "fmul a b = inf_of_sign (fsign a * fsign b)"

fun fdiv :: "fl \<Rightarrow> fl \<Rightarrow> fl" where
  "fdiv (Fin a) (Fin b) = (if b = 0 then inf_of_sign (fsign (Fin a)) else Fin (a / b))"
| "fdiv NaN _ = NaN"
| "fdiv _ NaN = NaN"
| "fdiv (Fin a) _ = Fin 0"
| "fdiv a (Fin b) = inf_of_sign (fsign a * (if b < 0 then - 1 else 1))"
| "fdiv _ _ = NaN"

fun fless :: "fl \<Rightarrow> fl \<Rightarrow> bool" where
  "fless (Fin a) (Fin b) = (a < b)"
| "fless NaN _ = False"
| "fless _ NaN = False"
| "fless _ NInf = False"
| "fless NInf _ = True"
| "fless PInf _ = False"
| "fless _ PInf = True"

definition fle :: "fl \<Rightarrow> fl \<Rightarrow> bool" where
  "fle a b = (fless a b \<or> (a = b \<and> a \<noteq> NaN))"

text \<open>\<open>std::min(a, b)\<close> is \<open>(b < a) ? b : a\<close> and \<open>std::max(a, b)\<close> is \<open>(a < b) ? b : a\<close>.\<close>

definition fmin :: "fl \<Rightarrow> fl \<Rightarrow> fl" where
  "fmin a b = (if fless b a then b else a)"

definition fmax :: "fl \<Rightarrow> fl \<Rightarrow> fl" where
  "fmax a b = (if fless a b then b else a)"

definition fl_of_int :: "int \<Rightarrow> fl" where
  "fl_of_int k = Fin (of_int k)"

definition fl_of_nat :: "nat \<Rightarrow> fl" where
  "fl_of_nat n = Fin (of_nat n)"

text \<open>
  \<open>powf(base, n)\<close> for an integer exponent, and \<open>log2f\<close>, with the special cases of the
  C library.
\<close>

fun powf :: "fl \<Rightarrow> int \<Rightarrow> fl" where
  "powf (Fin b) n = (if b = 0 \<and> n < 0 then PInf else Fin (b powi n))"
| "powf NaN n = (if n = 0 then Fin 1 else NaN)"
| "powf PInf n = (if n = 0 then Fin 1 else if 0 < n then PInf else Fin 0)"
| "powf NInf n = (if n = 0 then Fin 1 else if n < 0 then Fin 0
                  else if even n then PInf else NInf)"

fun log2f :: "fl \<Rightarrow> fl" where
  "log2f (Fin a) = (if a < 0 then NaN else if a = 0 then NInf else Fin (log 2 a))"
| "log2f PInf = PInf"
| "log2f _ = NaN"

text \<open>
  The conversion of a \<open>float\<close> to \<open>int\<close> truncates towards zero; it is undefined for NaN,
  the infinities and values outside the range of a 32-bit \<open>int\<close>.
\<close>

fun int_of_fl :: "fl \<Rightarrow> int option" where
  "int_of_fl (Fin r) =
     (let k = (if 0 \<le> r then \<lfloor>r\<rfloor> else \<lceil>r\<rceil>)
      in if - (2 ^ 31) \<le> k \<and> k < 2 ^ 31 then Some k else None)"
| "int_of_fl _ = None"

subsection \<open>Rounding to float\<close>

text \<open>
  The result of an arithmetic operation on \<open>float\<close> is the exact result rounded to the
  nearest binary32 value, ties to the even significand, and an infinity beyond the largest
  finite value. \<open>round_even\<close> rounds a real number to the nearest integer, ties to even;
  \<open>bit_length n\<close> is the number of binary digits of \<open>n\<close>. In \<open>float_round x\<close>, \<open>y\<close> is the
  magnitude of \<open>x\<close> in units of \<open>2^-149\<close> (the smallest positive \<open>float\<close>), \<open>q\<close> the spacing of
  the \<open>float\<close> values around it in these units (1 for the subnormal numbers and the first
  binade, \<open>2^(k - 24)\<close> for a magnitude of \<open>k > 24\<close> digits, so that 24 significant digits
  remain), and \<open>m\<close> the rounded magnitude; \<open>2^277\<close> units are \<open>2^128\<close>. \<open>is_float x\<close>: the
  number \<open>x\<close> is a value of the type.
\<close>

definition round_even :: "real \<Rightarrow> int" where
  "round_even x =
     (let f = \<lfloor>x\<rfloor>; r = x - of_int f
      in if r < 1 / 2 then f else if 1 / 2 < r then f + 1 else if even f then f else f + 1)"

fun bit_length :: "nat \<Rightarrow> nat" where
  "bit_length n = (if n = 0 then 0 else 1 + bit_length (n div 2))"

declare bit_length.simps [simp del]

definition float_round :: "real \<Rightarrow> fl" where
  "float_round x =
     (let y = \<bar>x\<bar> * 2 ^ 149;
          q = 2 ^ (bit_length (nat \<lfloor>y\<rfloor>) - 24);
          m = of_int (round_even (y / q)) * q
      in if 2 ^ 277 \<le> m then (if x < 0 then NInf else PInf)
         else Fin (sgn x * m / 2 ^ 149))"

definition is_float :: "real \<Rightarrow> bool" where
  "is_float x = (float_round x = Fin x)"

text \<open>
  A rounded operation: the exact result, rounded when it is finite. In a division the
  first argument of \<open>fdiv_r\<close> says whether a zero divisor is \<open>-0.0\<close>: the quotient by
  \<open>-0.0\<close> is the negation of the quotient by \<open>+0.0\<close>.
\<close>

definition fround :: "fl \<Rightarrow> fl" where
  "fround a = (case a of Fin x \<Rightarrow> float_round x | _ \<Rightarrow> a)"

definition fsub_r :: "fl \<Rightarrow> fl \<Rightarrow> fl" where
  "fsub_r a b = fround (fsub a b)"

definition fdiv_r :: "bool \<Rightarrow> fl \<Rightarrow> fl \<Rightarrow> fl" where
  "fdiv_r negZero a d =
     (if d = Fin 0 then (if negZero then fneg (fdiv a d) else fdiv a d)
      else fround (fdiv a d))"

section \<open>Vectors (types.h) and images (image.h)\<close>

datatype Vec2 = Vec2 (v2x: fl) (v2y: fl)

datatype Vec3 = Vec3 (vx: fl) (vy: fl) (vz: fl)

definition vadd :: "Vec3 \<Rightarrow> Vec3 \<Rightarrow> Vec3" where
  "vadd a b = Vec3 (fadd (vx a) (vx b)) (fadd (vy a) (vy b)) (fadd (vz a) (vz b))"

definition vsub :: "Vec3 \<Rightarrow> Vec3 \<Rightarrow> Vec3" where
  "vsub a b = Vec3 (fsub (vx a) (vx b)) (fsub (vy a) (vy b)) (fsub (vz a) (vz b))"

definition vmul :: "Vec3 \<Rightarrow> Vec3 \<Rightarrow> Vec3" where
  "vmul a b = Vec3 (fmul (vx a) (vx b)) (fmul (vy a) (vy b)) (fmul (vz a) (vz b))"

definition vscale :: "Vec3 \<Rightarrow> fl \<Rightarrow> Vec3" where
  "vscale a k = Vec3 (fmul (vx a) k) (fmul (vy a) k) (fmul (vz a) k)"

definition vdivs :: "Vec3 \<Rightarrow> fl \<Rightarrow> Vec3" where
  "vdivs a k = Vec3 (fdiv (vx a) k) (fdiv (vy a) k) (fdiv (vz a) k)"

definition vsplat :: "fl \<Rightarrow> Vec3" where
  "vsplat k = Vec3 k k k"

text \<open>
  The faults of the model: a failed \<open>assert\<close>, a read or write outside a vector, an
  undefined conversion of a \<open>float\<close> to \<open>int\<close>, an integer remainder by zero, the
  access to the value of an empty \<open>std::optional\<close>.
\<close>

datatype fault = AssertionFailed | OutOfBounds | UndefinedConversion | RemainderByZero
  | EmptyOptional

record Image =
  pixels :: "fl list"
  width :: nat
  height :: nat
  channels :: nat

definition Image_new :: "nat \<Rightarrow> nat \<Rightarrow> nat \<Rightarrow> Image" where
  "Image_new w h c = \<lparr>pixels = replicate (w * h * c) (Fin 0), width = w, height = h, channels = c\<rparr>"

definition Image_empty :: "Image \<Rightarrow> bool" where
  "Image_empty img = (pixels img = [])"

definition valid :: "Image \<Rightarrow> nat \<Rightarrow> nat \<Rightarrow> bool" where
  "valid img px py = (px < width img \<and> py < height img)"

text \<open>
  The accessor \<open>rgb(x, y)\<close> asserts \<open>valid(x, y)\<close> and refers to the three floats that start
  at \<open>(x + y * width) * channels\<close>.
\<close>

definition rgb_offset :: "Image \<Rightarrow> nat \<Rightarrow> nat \<Rightarrow> fault + nat" where
  "rgb_offset img px py =
     (if \<not> valid img px py then Inl AssertionFailed
      else let k = (px + py * width img) * channels img
           in if k + 2 < length (pixels img) then Inr k else Inl OutOfBounds)"

definition rgb :: "Image \<Rightarrow> nat \<Rightarrow> nat \<Rightarrow> fault + Vec3" where
  "rgb img px py =
     (case rgb_offset img px py of
        Inl e \<Rightarrow> Inl e
      | Inr k \<Rightarrow> Inr (Vec3 (pixels img ! k) (pixels img ! (k + 1)) (pixels img ! (k + 2))))"

text \<open>\<open>img.rgb(x, y) += c\<close>.\<close>

definition rgb_add :: "Image \<Rightarrow> nat \<Rightarrow> nat \<Rightarrow> Vec3 \<Rightarrow> fault + Image" where
  "rgb_add img px py c =
     (case rgb_offset img px py of
        Inl e \<Rightarrow> Inl e
      | Inr k \<Rightarrow> Inr (img\<lparr>pixels := (pixels img)
            [k := fadd (pixels img ! k) (vx c),
             k + 1 := fadd (pixels img ! (k + 1)) (vy c),
             k + 2 := fadd (pixels img ! (k + 2)) (vz c)]\<rparr>))"

section \<open>Boxes and the hierarchy's data (aabb.h, aabb4.h, bvh.h)\<close>

datatype Vec4 = Vec4 (v4a: fl) (v4b: fl) (v4c: fl) (v4d: fl)

text \<open>Component \<open>i\<close> of a four-vector, \<open>v[i]\<close>, for \<open>i\<close> in \<open>0..3\<close>.\<close>

definition v4_at :: "Vec4 \<Rightarrow> nat \<Rightarrow> fl" where
  "v4_at v i = (if i = 0 then v4a v else if i = 1 then v4b v else if i = 2 then v4c v else v4d v)"

definition v3_at :: "Vec3 \<Rightarrow> nat \<Rightarrow> fl" where
  "v3_at v i = (if i = 0 then vx v else if i = 1 then vy v else vz v)"

record AABB =
  m_min :: Vec3
  m_max :: Vec3

text \<open>A new box has \<open>_min = +\<infinity>\<close> and \<open>_max = -\<infinity>\<close> in every component.\<close>

definition AABB_new :: AABB where
  "AABB_new = \<lparr>m_min = vsplat PInf, m_max = vsplat NInf\<rparr>"

record AABB4 =
  m_minX :: Vec4
  m_minY :: Vec4
  m_minZ :: Vec4
  m_maxX :: Vec4
  m_maxY :: Vec4
  m_maxZ :: Vec4

definition AABB4_new :: AABB4 where
  "AABB4_new = \<lparr>m_minX = Vec4 PInf PInf PInf PInf, m_minY = Vec4 PInf PInf PInf PInf,
                 m_minZ = Vec4 PInf PInf PInf PInf, m_maxX = Vec4 NInf NInf NInf NInf,
                 m_maxY = Vec4 NInf NInf NInf NInf, m_maxZ = Vec4 NInf NInf NInf NInf\<rparr>"

text \<open>
  A node of the hierarchy. \<open>numTriangles = 0\<close> marks an internal node, whose children are
  the nodes \<open>idx\<close>, \<open>idx + 1\<close>, \<open>idx + 2\<close>, \<open>idx + 3\<close>; otherwise \<open>idx\<close> is the index of the
  node's first triangle. The two counters are \<open>std::uint32_t\<close>: they hold natural numbers
  below \<open>2^32\<close>, and \<open>uint32_of\<close> is the conversion of a \<open>std::size_t\<close> or of a sum to
  that type.
\<close>

definition uint32_of :: "nat \<Rightarrow> nat" where
  "uint32_of n = n mod 2 ^ 32"

record Node =
  childBounds :: AABB4
  idx :: nat
  numTriangles :: nat

definition isLeaf :: "Node \<Rightarrow> bool" where
  "isLeaf n = (numTriangles n \<noteq> 0)"

record BVHTriangle =
  positions :: "Vec3 list"
  t_idx :: nat

record BVH =
  triangles :: "BVHTriangle list"
  nodes :: "Node list"
  rootBounds :: AABB

subsection \<open>One box: fit and the slab test (aabb.cpp)\<close>

record Ray =
  ray_o :: Vec3
  ray_d :: Vec3

definition AABB_fit :: "AABB \<Rightarrow> Vec3 \<Rightarrow> AABB" where
  "AABB_fit b v =
     \<lparr>m_min = Vec3 (if fless (vx v) (vx (m_min b)) then vx v else vx (m_min b))
                   (if fless (vy v) (vy (m_min b)) then vy v else vy (m_min b))
                   (if fless (vz v) (vz (m_min b)) then vz v else vz (m_min b)),
      m_max = Vec3 (if fless (vx (m_max b)) (vx v) then vx v else vx (m_max b))
                   (if fless (vy (m_max b)) (vy v) then vy v else vy (m_max b))
                   (if fless (vz (m_max b)) (vz v) then vz v else vz (m_max b))\<rparr>"

text \<open>\<open>if (tx1 > tx2)\<close> swap them.\<close>

definition ordered :: "fl \<Rightarrow> fl \<Rightarrow> fl \<times> fl" where
  "ordered a b = (if fless b a then (b, a) else (a, b))"

text \<open>
  The two slab parameters of \<open>AABB::intersect\<close>: \<open>t1\<close>, the largest of the three entry
  values, and \<open>t2\<close>, the smallest of the three exit values, each computed with the
  comparisons of the source. Every difference and every quotient is rounded to \<open>float\<close>.
  The first argument gives, for the three components of the direction, whether a zero
  component is \<open>-0.0\<close>.
\<close>

definition slabs :: "bool \<times> bool \<times> bool \<Rightarrow> AABB \<Rightarrow> Ray \<Rightarrow> fl \<times> fl" where
  "slabs negZero b ray =
     (let (zx, zy, zz) = negZero;
          (tx1, tx2) =
             ordered (fdiv_r zx (fsub_r (vx (m_min b)) (vx (ray_o ray))) (vx (ray_d ray)))
                     (fdiv_r zx (fsub_r (vx (m_max b)) (vx (ray_o ray))) (vx (ray_d ray)));
          (ty1, ty2) =
             ordered (fdiv_r zy (fsub_r (vy (m_min b)) (vy (ray_o ray))) (vy (ray_d ray)))
                     (fdiv_r zy (fsub_r (vy (m_max b)) (vy (ray_o ray))) (vy (ray_d ray)));
          (tz1, tz2) =
             ordered (fdiv_r zz (fsub_r (vz (m_min b)) (vz (ray_o ray))) (vz (ray_d ray)))
                     (fdiv_r zz (fsub_r (vz (m_max b)) (vz (ray_o ray))) (vz (ray_d ray)))
      in (fmax (fmax tx1 ty1) tz1, fmin (fmin tx2 ty2) tz2))"

definition AABB_intersect :: "bool \<times> bool \<times> bool \<Rightarrow> AABB \<Rightarrow> Ray \<Rightarrow> fl option" where
  "AABB_intersect negZero b ray =
     (let (t1, t2) = slabs negZero b ray
      in if fless t2 t1 then None
         else if fless t1 (Fin 0) \<and> fless t2 (Fin 0) then None
         else Some t1)"

text \<open>A point with finite coordinates, and the point of a ray at the parameter \<open>t\<close>.\<close>

definition fin3 :: "real \<times> real \<times> real \<Rightarrow> Vec3" where
  "fin3 p = (case p of (a, b, c) \<Rightarrow> Vec3 (Fin a) (Fin b) (Fin c))"

definition rayAt :: "real \<times> real \<times> real \<Rightarrow> real \<times> real \<times> real \<Rightarrow> real \<Rightarrow> real \<times> real \<times> real" where
  "rayAt orig dir t =
     (case orig of (ox, oy, oz) \<Rightarrow> case dir of (dx, dy, dz) \<Rightarrow>
        (ox + t * dx, oy + t * dy, oz + t * dz))"

definition nonzero3 :: "real \<times> real \<times> real \<Rightarrow> bool" where
  "nonzero3 dir = (case dir of (dx, dy, dz) \<Rightarrow> dx \<noteq> 0 \<and> dy \<noteq> 0 \<and> dz \<noteq> 0)"

text \<open>A box with finite bounds.\<close>

definition box :: "real \<Rightarrow> real \<Rightarrow> real \<Rightarrow> real \<Rightarrow> real \<Rightarrow> real \<Rightarrow> AABB" where
  "box x0 x1 y0 y1 z0 z1 =
     \<lparr>m_min = Vec3 (Fin x0) (Fin y0) (Fin z0), m_max = Vec3 (Fin x1) (Fin y1) (Fin z1)\<rparr>"

text \<open>
  \<open>holds bx p\<close>: the box has finite bounds and the point \<open>p\<close> lies between them.
  \<open>fitted bx\<close>: the box is new or has finite bounds.
\<close>

definition holds :: "AABB \<Rightarrow> real \<times> real \<times> real \<Rightarrow> bool" where
  "holds bx p = (\<exists>a A b B c C. bx = box a A b B c C
       \<and> a \<le> fst p \<and> fst p \<le> A \<and> b \<le> fst (snd p) \<and> fst (snd p) \<le> B
       \<and> c \<le> snd (snd p) \<and> snd (snd p) \<le> C)"

definition fitted :: "AABB \<Rightarrow> bool" where
  "fitted bx = (bx = AABB_new \<or> (\<exists>a A b B c C. bx = box a A b B c C))"

text \<open>
  A point whose coordinates are \<open>float\<close> values, and a box that is new or has such bounds.
\<close>

definition float3 :: "real \<times> real \<times> real \<Rightarrow> bool" where
  "float3 p = (is_float (fst p) \<and> is_float (fst (snd p)) \<and> is_float (snd (snd p)))"

definition floatBox :: "AABB \<Rightarrow> bool" where
  "floatBox bx = (bx = AABB_new \<or> (\<exists>a A b B c C. bx = box a A b B c C
       \<and> is_float a \<and> is_float A \<and> is_float b \<and> is_float B \<and> is_float c \<and> is_float C))"

text \<open>
  The origin of a ray lies in a box: on every axis it is between the bounds, and strictly
  between them where the component of the direction is zero.
\<close>

definition betweenBounds :: "real \<Rightarrow> real \<Rightarrow> real \<Rightarrow> real \<Rightarrow> bool" where
  "betweenBounds lo hi orig dir = (lo \<le> orig \<and> orig \<le> hi \<and> (dir = 0 \<longrightarrow> lo < orig \<and> orig < hi))"

definition startsInside :: "AABB \<Rightarrow> real \<times> real \<times> real \<Rightarrow> real \<times> real \<times> real \<Rightarrow> bool" where
  "startsInside bx orig dir = (\<exists>a A b B c C. bx = box a A b B c C
       \<and> betweenBounds a A (fst orig) (fst dir)
       \<and> betweenBounds b B (fst (snd orig)) (fst (snd dir))
       \<and> betweenBounds c C (snd (snd orig)) (snd (snd dir)))"

text \<open>
  A value that is not positive (\<open>-\<infinity>\<close> or a finite number \<open>\<le> 0\<close>), and one that is not
  negative.
\<close>

definition nonpos :: "fl \<Rightarrow> bool" where
  "nonpos a = (a = NInf \<or> (\<exists>v. a = Fin v \<and> v \<le> 0))"

definition nonneg :: "fl \<Rightarrow> bool" where
  "nonneg a = (a = PInf \<or> (\<exists>v. a = Fin v \<and> 0 \<le> v))"

text \<open>
  Two points, the origin and \<open>(2, 3, 3)\<close>, and the ray from \<open>(1, 1, 1)\<close>, inside their box,
  with the direction \<open>(1, 2, 2)\<close>; it reaches the second point at \<open>t = 1\<close>. No component of
  the direction is zero, so the signs of zero play no part.
\<close>

definition two_points :: "(real \<times> real \<times> real) list" where
  "two_points = [(0, 0, 0), (2, 3, 3)]"

definition inner_ray :: Ray where
  "inner_ray = \<lparr>ray_o = fin3 (1, 1, 1), ray_d = fin3 (1, 2, 2)\<rparr>"

definition positive_zeros :: "bool \<times> bool \<times> bool" where
  "positive_zeros = (False, False, False)"

text \<open>
  One point and a ray from outside its box that reaches it at \<open>t = 3\<close>:
  \<open>-2 + 3 * (3 + 3 * 2^-21) = 7 + 9 * 2^-21\<close>. All coordinates are \<open>float\<close> values.
\<close>

definition one_point :: "(real \<times> real \<times> real) list" where
  "one_point = [(14680073 / 2097152, 3, 3)]"

definition outer_ray :: Ray where
  "outer_ray = \<lparr>ray_o = fin3 (- 2, 0, 0), ray_d = fin3 (6291459 / 2097152, 1, 1)\<rparr>"

text \<open>
  Two rays that start at the first of the two points, a corner of their box, with a zero
  component in the direction: along \<open>y\<close>, and along the diagonal of \<open>x\<close> and \<open>z\<close> with \<open>-0.0\<close>
  as the \<open>y\<close> component.
\<close>

definition y_ray :: Ray where
  "y_ray = \<lparr>ray_o = fin3 (0, 0, 0), ray_d = fin3 (0, 1, 0)\<rparr>"

definition xz_ray :: Ray where
  "xz_ray = \<lparr>ray_o = fin3 (0, 0, 0), ray_d = fin3 (1, 0, 1)\<rparr>"

subsection \<open>The four-box test (AABB4::intersect)\<close>

definition v4map2 :: "(fl \<Rightarrow> fl \<Rightarrow> fl) \<Rightarrow> Vec4 \<Rightarrow> Vec4 \<Rightarrow> Vec4" where
  "v4map2 f a b = Vec4 (f (v4a a) (v4a b)) (f (v4b a) (v4b b)) (f (v4c a) (v4c b))
                       (f (v4d a) (v4d b))"

definition v4_sub_div :: "Vec4 \<Rightarrow> fl \<Rightarrow> fl \<Rightarrow> Vec4" where
  "v4_sub_div v orig dir =
     Vec4 (fdiv (fsub (v4a v) orig) dir) (fdiv (fsub (v4b v) orig) dir)
          (fdiv (fsub (v4c v) orig) dir) (fdiv (fsub (v4d v) orig) dir)"

record AABB4_HitInfo =
  isHit :: "nat \<Rightarrow> bool"
  distances :: Vec4

definition AABB4_intersect :: "AABB4 \<Rightarrow> Ray \<Rightarrow> AABB4_HitInfo" where
  "AABB4_intersect b ray =
     (let tminX = v4_sub_div (m_minX b) (vx (ray_o ray)) (vx (ray_d ray));
          tmaxX = v4_sub_div (m_maxX b) (vx (ray_o ray)) (vx (ray_d ray));
          tminY = v4_sub_div (m_minY b) (vy (ray_o ray)) (vy (ray_d ray));
          tmaxY = v4_sub_div (m_maxY b) (vy (ray_o ray)) (vy (ray_d ray));
          tminZ = v4_sub_div (m_minZ b) (vz (ray_o ray)) (vz (ray_d ray));
          tmaxZ = v4_sub_div (m_maxZ b) (vz (ray_o ray)) (vz (ray_d ray));
          tx1 = v4map2 fmin tminX tmaxX; tx2 = v4map2 fmax tminX tmaxX;
          ty1 = v4map2 fmin tminY tmaxY; ty2 = v4map2 fmax tminY tmaxY;
          tz1 = v4map2 fmin tminZ tmaxZ; tz2 = v4map2 fmax tminZ tmaxZ;
          t1 = v4map2 fmax tx1 (v4map2 fmax ty1 tz1);
          t2 = v4map2 fmin tx2 (v4map2 fmin ty2 tz2)
      in \<lparr>isHit = (\<lambda>i. fle (v4_at t1 i) (v4_at t2 i)
                         \<and> \<not> (fless (v4_at t1 i) (Fin 0) \<and> fless (v4_at t2 i) (Fin 0))),
          distances = t1\<rparr>)"

text \<open>
  The hit flags, a \<open>glm::bvec4\<close>, are a function from the lane to its flag.
  \<open>AABB4(a, b, c, d)\<close> packs four boxes, one per lane.
\<close>

definition AABB4_of :: "AABB \<Rightarrow> AABB \<Rightarrow> AABB \<Rightarrow> AABB \<Rightarrow> AABB4" where
  "AABB4_of a b c e =
     \<lparr>m_minX = Vec4 (vx (m_min a)) (vx (m_min b)) (vx (m_min c)) (vx (m_min e)),
      m_minY = Vec4 (vy (m_min a)) (vy (m_min b)) (vy (m_min c)) (vy (m_min e)),
      m_minZ = Vec4 (vz (m_min a)) (vz (m_min b)) (vz (m_min c)) (vz (m_min e)),
      m_maxX = Vec4 (vx (m_max a)) (vx (m_max b)) (vx (m_max c)) (vx (m_max e)),
      m_maxY = Vec4 (vy (m_max a)) (vy (m_max b)) (vy (m_max c)) (vy (m_max e)),
      m_maxZ = Vec4 (vz (m_max a)) (vz (m_max b)) (vz (m_max c)) (vz (m_max e))\<rparr>"

subsection \<open>The traversal stack and the order of the children (BVH::intersect)\<close>

record StackInfo =
  si_idx :: nat
  si_distance :: fl

record TraversalStack =
  m_data :: "StackInfo list"
  m_size :: nat

definition stack_push :: "TraversalStack \<Rightarrow> StackInfo \<Rightarrow> TraversalStack" where
  "stack_push s info =
     (if m_size s < length (m_data s)
      then s\<lparr>m_data := (m_data s)[m_size s := info], m_size := m_size s + 1\<rparr>
      else s\<lparr>m_data := m_data s @ [info], m_size := m_size s + 1\<rparr>)"

definition stack_top :: "TraversalStack \<Rightarrow> StackInfo" where
  "stack_top s = m_data s ! (m_size s - 1)"

definition stack_empty :: "TraversalStack \<Rightarrow> bool" where
  "stack_empty s = (m_size s = 0)"

definition stack_pop :: "TraversalStack \<Rightarrow> TraversalStack" where
  "stack_pop s = s\<lparr>m_size := m_size s - 1\<rparr>"

text \<open>
  The inner loop of the internal-node branch: the hit lane with the smallest distance
  below the initial \<open>bestDist = +\<infinity>\<close>; the strict comparison keeps the first of equal
  lanes.
\<close>

definition closestStep ::
  "(nat \<Rightarrow> bool) \<Rightarrow> Vec4 \<Rightarrow> nat option \<times> fl \<Rightarrow> nat \<Rightarrow> nat option \<times> fl" where
  "closestStep hit dists =
     (\<lambda>(bestIdx, bestDist) i.
        if hit i \<and> fless (v4_at dists i) bestDist then (Some i, v4_at dists i)
        else (bestIdx, bestDist))"

definition findClosest :: "(nat \<Rightarrow> bool) \<Rightarrow> Vec4 \<Rightarrow> nat option \<times> fl" where
  "findClosest hit dists = foldl (closestStep hit dists) (None, PInf) [0, 1, 2, 3]"

text \<open>
  The outer loop, \<open>k\<close> iterations left: push the closest remaining lane and clear its hit
  flag, or stop when no lane is left.
\<close>

fun pushChildren :: "nat \<Rightarrow> Node \<Rightarrow> (nat \<Rightarrow> bool) \<Rightarrow> Vec4 \<Rightarrow> TraversalStack \<Rightarrow> TraversalStack" where
  "pushChildren 0 node hit dists s = s"
| "pushChildren (Suc k) node hit dists s =
     (case findClosest hit dists of
        (None, bestDist) \<Rightarrow> s
      | (Some bestIdx, bestDist) \<Rightarrow>
          pushChildren k node (hit(bestIdx := False)) dists
            (stack_push s \<lparr>si_idx = idx node + bestIdx, si_distance = bestDist\<rparr>))"

definition pushHitChildren :: "Node \<Rightarrow> Ray \<Rightarrow> TraversalStack \<Rightarrow> TraversalStack" where
  "pushHitChildren node ray s =
     (let hitInfo = AABB4_intersect (childBounds node) ray
      in pushChildren 4 node (isHit hitInfo) (distances hitInfo) s)"

text \<open>The entries of a stack, bottom first; the last one is the next to be popped.\<close>

definition contents :: "TraversalStack \<Rightarrow> StackInfo list" where
  "contents s = take (m_size s) (m_data s)"

text \<open>The lanes that the outer loop pushes, in the order of the pushes.\<close>

fun pushedLanes :: "nat \<Rightarrow> (nat \<Rightarrow> bool) \<Rightarrow> Vec4 \<Rightarrow> (nat \<times> fl) list" where
  "pushedLanes 0 hit dists = []"
| "pushedLanes (Suc k) hit dists =
     (case findClosest hit dists of
        (None, bestDist) \<Rightarrow> []
      | (Some bestIdx, bestDist) \<Rightarrow>
          (bestIdx, bestDist) # pushedLanes k (hit(bestIdx := False)) dists)"

text \<open>
  Near-to-far order of a list of lanes with their distances: each entry is strictly closer
  than the next one, or as close and of a lower lane.
\<close>

fun nearToFar :: "(nat \<times> fl) list \<Rightarrow> bool" where
  "nearToFar [] = True"
| "nearToFar [a] = True"
| "nearToFar (a # b # r) =
     ((fless (snd a) (snd b) \<or> (snd a = snd b \<and> fst a < fst b)) \<and> nearToFar (b # r))"

text \<open>A lane that the search can select: a hit, with a distance below \<open>+\<infinity>\<close>.\<close>

definition selectable :: "(nat \<Rightarrow> bool) \<Rightarrow> Vec4 \<Rightarrow> nat \<Rightarrow> bool" where
  "selectable hit dists i = (i < 4 \<and> hit i \<and> fless (v4_at dists i) PInf)"

text \<open>
  The invariant of the inner loop after the lanes \<open>S\<close>: the best lane so far is the
  selectable lane of \<open>S\<close> with the smallest distance, the lowest one among equals.
\<close>

definition bestInv :: "(nat \<Rightarrow> bool) \<Rightarrow> Vec4 \<Rightarrow> nat set \<Rightarrow> nat option \<times> fl \<Rightarrow> bool" where
  "bestInv hit dists S r =
     (case fst r of
        None \<Rightarrow> snd r = PInf \<and> (\<forall>j\<in>S. \<not> (hit j \<and> fless (v4_at dists j) PInf))
      | Some b \<Rightarrow> b \<in> S \<and> hit b \<and> snd r = v4_at dists b \<and> fless (snd r) PInf
          \<and> (\<forall>j\<in>S. hit j \<and> fless (v4_at dists j) PInf \<and> j \<noteq> b \<longrightarrow>
                 fless (snd r) (v4_at dists j) \<or> (snd r = v4_at dists j \<and> b < j)))"

text \<open>
  An internal node whose first child is node 1, with two boxes on the positive \<open>x\<close> axis
  (lane 0 from \<open>x = 1\<close> to 2, lane 1 from 3 to 4) and two boxes off the axis, and the ray
  from the origin along \<open>x\<close>.
\<close>

definition two_ahead :: Node where
  "two_ahead =
     \<lparr>childBounds = AABB4_of (box 1 2 (- 1) 1 (- 1) 1) (box 3 4 (- 1) 1 (- 1) 1)
                              (box 1 2 5 6 5 6) (box 3 4 5 6 5 6),
      idx = 1, numTriangles = 0\<rparr>"

definition x_ray :: Ray where
  "x_ray = \<lparr>ray_o = Vec3 (Fin 0) (Fin 0) (Fin 0), ray_d = Vec3 (Fin 1) (Fin 0) (Fin 0)\<rparr>"

definition stack_new :: TraversalStack where
  "stack_new = \<lparr>m_data = [], m_size = 0\<rparr>"

subsection \<open>Construction of the hierarchy (bvh.cpp)\<close>

record MeshTriangle =
  tri_positions :: "Vec3 list"
  tri_normals :: "Vec3 list"
  tri_textureCoords :: "Vec2 list"

definition NumSplits :: nat where
  "NumSplits = 5"

definition MaxNumTrianglesInLeaf :: nat where
  "MaxNumTrianglesInLeaf = 4"

definition AABB_getSize :: "AABB \<Rightarrow> nat \<Rightarrow> fl" where
  "AABB_getSize b axis = fsub (v3_at (m_max b) axis) (v3_at (m_min b) axis)"

definition AABB_getMin :: "AABB \<Rightarrow> nat \<Rightarrow> fl" where
  "AABB_getMin b axis = v3_at (m_min b) axis"

definition halfArea :: "AABB \<Rightarrow> fl" where
  "halfArea b =
     (let sx = AABB_getSize b 0; sy = AABB_getSize b 1; sz = AABB_getSize b 2
      in fadd (fmul sx (fadd sy sz)) (fmul sy sz))"

definition AABB4_getMin :: "AABB4 \<Rightarrow> nat \<Rightarrow> nat \<Rightarrow> fl" where
  "AABB4_getMin b lane axis =
     (if axis = 0 then v4_at (m_minX b) lane else if axis = 1 then v4_at (m_minY b) lane
      else if axis = 2 then v4_at (m_minZ b) lane else Fin 0)"

definition AABB4_getMax :: "AABB4 \<Rightarrow> nat \<Rightarrow> nat \<Rightarrow> fl" where
  "AABB4_getMax b lane axis =
     (if axis = 0 then v4_at (m_maxX b) lane else if axis = 1 then v4_at (m_maxY b) lane
      else if axis = 2 then v4_at (m_maxZ b) lane else Fin 0)"

definition AABB4_getSize :: "AABB4 \<Rightarrow> nat \<Rightarrow> nat \<Rightarrow> fl" where
  "AABB4_getSize b lane axis = fsub (AABB4_getMax b lane axis) (AABB4_getMin b lane axis)"

definition Triangle_center :: "BVHTriangle \<Rightarrow> Vec3" where
  "Triangle_center t = vdivs (vadd (vadd (positions t ! 0) (positions t ! 1)) (positions t ! 2)) (Fin 3)"

record SplitInfo =
  axis :: nat
  splitPosition :: fl
  leftBBox :: AABB
  rightBBox :: AABB
  numLeft :: nat
  numRight :: nat
  leftCost :: fl
  rightCost :: fl

text \<open>
  \<open>evaluateSplit\<close> on the span of \<open>num\<close> triangles that starts at \<open>first\<close>. The state of its
  loop is the two boxes and the number of triangles on the left.
\<close>

definition evaluateSplitStep ::
  "BVHTriangle list \<Rightarrow> Vec3 list \<Rightarrow> nat \<Rightarrow> nat \<Rightarrow> fl \<Rightarrow> AABB \<times> AABB \<times> nat \<Rightarrow> nat
   \<Rightarrow> AABB \<times> AABB \<times> nat" where
  "evaluateSplitStep ts cs first ax pos =
     (\<lambda>(lb, rb, nl) i.
        if fless (v3_at (cs ! (first + i)) ax) pos
        then (foldl AABB_fit lb (positions (ts ! (first + i))), rb, nl + 1)
        else (lb, foldl AABB_fit rb (positions (ts ! (first + i))), nl))"

definition evaluateSplit ::
  "BVHTriangle list \<Rightarrow> Vec3 list \<Rightarrow> nat \<Rightarrow> nat \<Rightarrow> nat \<Rightarrow> fl \<Rightarrow> SplitInfo" where
  "evaluateSplit ts cs first num ax pos =
     (case foldl (evaluateSplitStep ts cs first ax pos) (AABB_new, AABB_new, 0) [0..<num] of
        (lb, rb, nl) \<Rightarrow>
          \<lparr>axis = ax, splitPosition = pos, leftBBox = lb, rightBBox = rb,
           numLeft = nl, numRight = num - nl,
           leftCost = fmul (fl_of_nat nl) (halfArea lb),
           rightCost = fmul (fl_of_nat (num - nl)) (halfArea rb)\<rparr>)"

text \<open>
  The search of \<open>trySplitAndPartition\<close>: three axes, \<open>NumSplits\<close> planes each; a candidate
  replaces the best one when its cost is strictly below the best cost so far.
\<close>

definition candidates :: "(nat \<times> nat) list" where
  "candidates = concat (map (\<lambda>ax. map (\<lambda>k. (ax, k)) [0..<NumSplits]) [0, 1, 2])"

definition searchStep ::
  "(nat \<Rightarrow> fl) \<Rightarrow> (nat \<Rightarrow> fl) \<Rightarrow> BVHTriangle list \<Rightarrow> Vec3 list \<Rightarrow> nat \<Rightarrow> nat
   \<Rightarrow> fl \<times> SplitInfo option \<Rightarrow> nat \<times> nat \<Rightarrow> fl \<times> SplitInfo option" where
  "searchStep getBoundsSize getBoundsMin ts cs first num =
     (\<lambda>(bestCost, bestSplit) (ax, k).
        let splitSeparation = fdiv (getBoundsSize ax) (fl_of_nat (NumSplits + 1));
            pos = fadd (getBoundsMin ax) (fmul (fl_of_nat (k + 1)) splitSeparation);
            info = evaluateSplit ts cs first num ax pos;
            cost = fadd (leftCost info) (rightCost info)
        in if fless cost bestCost then (cost, Some info) else (bestCost, bestSplit))"

text \<open>The partition pass: swap the triangle (and its centre) to the front of the span.\<close>

definition swap :: "'a list \<Rightarrow> nat \<Rightarrow> nat \<Rightarrow> 'a list" where
  "swap xs i j = xs[i := xs ! j, j := xs ! i]"

definition partitionStep ::
  "nat \<Rightarrow> nat \<Rightarrow> fl \<Rightarrow> BVHTriangle list \<times> Vec3 list \<times> nat \<Rightarrow> nat
   \<Rightarrow> BVHTriangle list \<times> Vec3 list \<times> nat" where
  "partitionStep first ax pos =
     (\<lambda>(ts, cs, nl) i.
        if fless (v3_at (cs ! (first + i)) ax) pos
        then (swap ts (first + i) (first + nl), swap cs (first + i) (first + nl), nl + 1)
        else (ts, cs, nl))"

definition trySplitAndPartition ::
  "(nat \<Rightarrow> fl) \<Rightarrow> (nat \<Rightarrow> fl) \<Rightarrow> nat \<Rightarrow> nat \<Rightarrow> BVHTriangle list \<Rightarrow> Vec3 list \<Rightarrow> fl
   \<Rightarrow> SplitInfo option \<times> BVHTriangle list \<times> Vec3 list" where
  "trySplitAndPartition getBoundsSize getBoundsMin first num ts cs bestCost =
     (case snd (foldl (searchStep getBoundsSize getBoundsMin ts cs first num)
                      (bestCost, None) candidates) of
        None \<Rightarrow> (None, ts, cs)
      | Some best \<Rightarrow>
          (case foldl (partitionStep first (axis best) (splitPosition best)) (ts, cs, 0)
                      [0..<num] of
             (ts', cs', nl) \<Rightarrow> (Some best, ts', cs')))"

text \<open>
  \<open>BVH::split\<close>. The state is the hierarchy and the array of triangle centres. The first
  argument bounds the depth of the recursion: the function returns \<open>None\<close> when it is used
  up. The node index, the index of the first child (\<open>nodes.size()\<close>), the triangle offsets
  and the triangle counts are converted to \<open>std::uint32_t\<close> where the source stores them in
  variables, parameters or fields of that type.
\<close>

definition leafNode :: "nat \<Rightarrow> nat \<Rightarrow> Node" where
  "leafNode i n = \<lparr>childBounds = AABB4_new, idx = i, numTriangles = n\<rparr>"

fun split ::
  "nat \<Rightarrow> nat option \<Rightarrow> nat \<Rightarrow> fl \<Rightarrow> BVH \<times> Vec3 list \<Rightarrow> (BVH \<times> Vec3 list) option" where
  "split 0 parentNodeIdx childIdx nodeCost st = None"
| "split (Suc fuel) parentNodeIdx childIdx nodeCost (b, cs) =
     (let nodeIdx = (case parentNodeIdx of
                       Some p \<Rightarrow> uint32_of (idx (nodes b ! p) + childIdx)
                     | None \<Rightarrow> 0);
          node = nodes b ! nodeIdx
      in if numTriangles node \<le> MaxNumTrianglesInLeaf then Some (b, cs)
         else
          (case trySplitAndPartition
                  (case parentNodeIdx of
                     Some p \<Rightarrow> AABB4_getSize (childBounds (nodes b ! p)) childIdx
                   | None \<Rightarrow> AABB_getSize (rootBounds b))
                  (case parentNodeIdx of
                     Some p \<Rightarrow> AABB4_getMin (childBounds (nodes b ! p)) childIdx
                   | None \<Rightarrow> AABB_getMin (rootBounds b))
                  (idx node) (numTriangles node) (triangles b) cs nodeCost of
             (None, ts1, cs1) \<Rightarrow> Some (b\<lparr>triangles := ts1\<rparr>, cs1)
           | (Some initial, ts1, cs1) \<Rightarrow>
              (case trySplitAndPartition
                      (AABB_getSize (leftBBox initial)) (AABB_getMin (leftBBox initial))
                      (idx node) (uint32_of (numLeft initial)) ts1 cs1 nodeCost of
                 (None, ts2, cs2) \<Rightarrow> Some (b\<lparr>triangles := ts2\<rparr>, cs2)
               | (Some left, ts2, cs2) \<Rightarrow>
                  (case trySplitAndPartition
                          (AABB_getSize (rightBBox initial)) (AABB_getMin (rightBBox initial))
                          (uint32_of (idx node + numLeft initial))
                          (uint32_of (numRight initial)) ts2 cs2 nodeCost of
                     (None, ts3, cs3) \<Rightarrow> Some (b\<lparr>triangles := ts3\<rparr>, cs3)
                   | (Some right, ts3, cs3) \<Rightarrow>
                      (let totalCost = fadd (fadd (fadd (leftCost left) (rightCost left))
                                                  (leftCost right)) (rightCost right)
                       in if fless nodeCost totalCost then Some (b\<lparr>triangles := ts3\<rparr>, cs3)
                          else
                           (let firstChildIdx = uint32_of (length (nodes b));
                                i0 = idx node;
                                n0 = uint32_of (numLeft left);
                                i1 = uint32_of (i0 + n0);
                                n1 = uint32_of (numRight left);
                                i2 = uint32_of (i1 + n1);
                                n2 = uint32_of (numLeft right);
                                i3 = uint32_of (i2 + n2);
                                n3 = uint32_of (numRight right);
                                nodes1 =
                                  (nodes b)[nodeIdx :=
                                     \<lparr>childBounds = AABB4_of (leftBBox left) (rightBBox left)
                                                      (leftBBox right) (rightBBox right),
                                      idx = firstChildIdx, numTriangles = 0\<rparr>]
                                  @ [leafNode i0 n0, leafNode i1 n1, leafNode i2 n2,
                                     leafNode i3 n3];
                                st0 = (b\<lparr>triangles := ts3, nodes := nodes1\<rparr>, cs3)
                            in case split fuel (Some nodeIdx) 0 (leftCost left) st0 of
                                 None \<Rightarrow> None
                               | Some st1 \<Rightarrow>
                                  (case split fuel (Some nodeIdx) 1 (rightCost left) st1 of
                                     None \<Rightarrow> None
                                   | Some st2 \<Rightarrow>
                                      (case split fuel (Some nodeIdx) 2 (leftCost right) st2 of
                                         None \<Rightarrow> None
                                       | Some st3 \<Rightarrow>
                                           split fuel (Some nodeIdx) 3 (rightCost right)
                                             st3))))))))"

text \<open>
  The constructor \<open>BVH::BVH(mesh, startIdx, count)\<close> on the triangles of a mesh: the root
  leaf with all the triangles (its counter is \<open>count\<close> converted to \<open>std::uint32_t\<close>), their
  centres, the root bounds, then \<open>split\<close> on the root. The recursion of \<open>split\<close> is given the
  depth \<open>count + 1\<close>.
\<close>

definition BVH_init :: "MeshTriangle list \<Rightarrow> nat \<Rightarrow> nat \<Rightarrow> BVH \<times> Vec3 list" where
  "BVH_init mts start cnt =
     (let ts = map (\<lambda>i. \<lparr>positions = tri_positions (mts ! i), t_idx = i\<rparr>) [start..<start + cnt]
      in (\<lparr>triangles = ts, nodes = [leafNode 0 (uint32_of cnt)],
           rootBounds = foldl (\<lambda>bx t. foldl AABB_fit bx (positions t)) AABB_new ts\<rparr>,
          map Triangle_center ts))"

definition BVH_new :: "MeshTriangle list \<Rightarrow> nat \<Rightarrow> nat \<Rightarrow> fault + BVH option" where
  "BVH_new mts start cnt =
     (if \<not> start + cnt \<le> length mts then Inl OutOfBounds
      else (case BVH_init mts start cnt of
              (b, cs) \<Rightarrow>
                Inr (map_option fst
                       (split (Suc cnt) None 0
                          (fmul (fl_of_nat (numTriangles (nodes b ! 0))) (halfArea (rootBounds b)))
                          (b, cs)))))"

text \<open>
  The invariant of the node array: a node that is not a leaf has its four children at
  \<open>idx, \<dots>, idx + 3\<close>, after itself and inside the array.
\<close>

definition nodeOK :: "Node list \<Rightarrow> nat \<Rightarrow> bool" where
  "nodeOK ns j = (isLeaf (ns ! j) \<or> (j < idx (ns ! j) \<and> idx (ns ! j) + 3 < length ns))"

text \<open>
  A split that the search can return for a span of \<open>num\<close> triangles: both sides are not
  empty. \<open>frame ns K ns'\<close>: the array \<open>ns'\<close> extends \<open>ns\<close>, agrees with it outside the
  indices \<open>K\<close>, and its nodes at \<open>K\<close> and beyond \<open>ns\<close> satisfy the invariant. \<open>nodeIndexOf\<close>
  is the index that \<open>split\<close> computes for its node.
\<close>

definition good :: "nat \<Rightarrow> SplitInfo \<Rightarrow> bool" where
  "good num info = (0 < numLeft info \<and> 0 < numRight info \<and> numLeft info + numRight info = num)"

definition frame :: "Node list \<Rightarrow> nat set \<Rightarrow> Node list \<Rightarrow> bool" where
  "frame ns K ns' =
     (length ns \<le> length ns' \<and> (\<forall>j<length ns. j \<notin> K \<longrightarrow> ns' ! j = ns ! j)
      \<and> (\<forall>j<length ns'. (j \<in> K \<or> length ns \<le> j) \<longrightarrow> nodeOK ns' j))"

definition nodeIndexOf :: "BVH \<Rightarrow> nat option \<Rightarrow> nat \<Rightarrow> nat" where
  "nodeIndexOf b parentNodeIdx childIdx =
     (case parentNodeIdx of Some p \<Rightarrow> uint32_of (idx (nodes b ! p) + childIdx) | None \<Rightarrow> 0)"

text \<open>Five copies of one triangle.\<close>

definition flat_triangle :: MeshTriangle where
  "flat_triangle =
     \<lparr>tri_positions = [Vec3 (Fin 0) (Fin 0) (Fin 0), Vec3 (Fin 6) (Fin 0) (Fin 0),
                       Vec3 (Fin 0) (Fin 6) (Fin 0)],
      tri_normals = [Vec3 (Fin 0) (Fin 0) (Fin 1), Vec3 (Fin 0) (Fin 0) (Fin 1),
                     Vec3 (Fin 0) (Fin 0) (Fin 1)],
      tri_textureCoords = [Vec2 (Fin 0) (Fin 0), Vec2 (Fin 1) (Fin 0), Vec2 (Fin 0) (Fin 1)]\<rparr>"

definition five_copies :: "MeshTriangle list" where
  "five_copies = replicate 5 flat_triangle"

text \<open>
  Eight triangles in four pairs along the \<open>x\<close> axis, with the triangle array and the
  centres that the constructor computes for them. All coordinates, centres, split planes
  and costs of this example are small multiples of \<open>1/2\<close>, which \<open>float\<close> represents exactly.
\<close>

definition cluster_triangle :: "real \<Rightarrow> MeshTriangle" where
  "cluster_triangle a =
     \<lparr>tri_positions = [Vec3 (Fin a) (Fin 0) (Fin 0), Vec3 (Fin (a + 3)) (Fin 3) (Fin 0),
                       Vec3 (Fin (a + 3)) (Fin 0) (Fin 3)],
      tri_normals = [Vec3 (Fin 0) (Fin 0) (Fin 1), Vec3 (Fin 0) (Fin 0) (Fin 1),
                     Vec3 (Fin 0) (Fin 0) (Fin 1)],
      tri_textureCoords = [Vec2 (Fin 0) (Fin 0), Vec2 (Fin 1) (Fin 0), Vec2 (Fin 0) (Fin 1)]\<rparr>"

definition eight_clusters :: "MeshTriangle list" where
  "eight_clusters = map cluster_triangle [0, 3, 12, 15, 24, 27, 36, 39]"

definition eight_triangles :: "BVHTriangle list" where
  "eight_triangles =
     map (\<lambda>(i, a). \<lparr>positions = tri_positions (cluster_triangle a), t_idx = i\<rparr>)
       [(0, 0), (1, 3), (2, 12), (3, 15), (4, 24), (5, 27), (6, 36), (7, 39)]"

definition eight_centers :: "Vec3 list" where
  "eight_centers = map (\<lambda>a. Vec3 (Fin (a + 2)) (Fin 1) (Fin 1)) [0, 3, 12, 15, 24, 27, 36, 39]"

section \<open>Scene data (mesh.h, material.h, scene.h, path.h)\<close>

datatype ConnectionType = Origin | Implicit | Explicit

datatype BounceType = BounceNone | Diffuse | Reflective | Refractive

record Vertex =
  connectionType :: ConnectionType
  bounceType :: BounceType
  position :: Vec3
  normal :: Vec3
  geometricNormal :: Vec3
  textureCoord :: Vec2
  materialIdx :: "nat option"
  lightIdx :: "nat option"

record Primitive =
  startIdx :: nat
  count :: nat
  prim_materialIdx :: "nat option"
  bvh :: BVH
  totalArea :: fl

record Mesh =
  mesh_triangles :: "MeshTriangle list"
  primitives :: "Primitive list"

record MaterialData =
  baseColorFactor :: Vec4
  baseColorTextureIdx :: "nat option"
  metallicFactor :: fl
  roughnessFactor :: fl
  emissiveFactor :: Vec3
  emissiveStrength :: fl
  emissiveTextureIdx :: "nat option"
  transmissionFactor :: fl
  ior :: fl

definition DefaultMaterialData :: MaterialData where
  "DefaultMaterialData =
     \<lparr>baseColorFactor = Vec4 (Fin 1) (Fin 1) (Fin 1) (Fin 1), baseColorTextureIdx = None,
      metallicFactor = Fin 1, roughnessFactor = Fin 1,
      emissiveFactor = Vec3 (Fin 0) (Fin 0) (Fin 0), emissiveStrength = Fin 1,
      emissiveTextureIdx = None, transmissionFactor = Fin 0, ior = Fin (3 / 2)\<rparr>"

definition getType :: "MaterialData \<Rightarrow> BounceType" where
  "getType m =
     (if fless (Fin (1 / 2)) (transmissionFactor m) \<and> fless (metallicFactor m) (Fin (1 / 2))
      then Refractive
      else if fless (Fin (1 / 2)) (metallicFactor m) \<and> fless (roughnessFactor m) (Fin (1 / 2))
      then Reflective
      else Diffuse)"

datatype Light = PointLight (light_position: Vec3) (wattage: Vec3)
  | MeshLight (meshIdx: nat) (primitiveIdx: nat)

record Texture =
  imageIdx :: nat

record Scene =
  meshes :: "Mesh list"
  textures :: "Texture list"
  images :: "Image list"
  lights :: "Light list"
  materials :: "MaterialData list"

text \<open>\<open>Scene::getMaterial\<close>: the default material for no index, an assertion otherwise.\<close>

definition getMaterial :: "Scene \<Rightarrow> nat option \<Rightarrow> fault + MaterialData" where
  "getMaterial scene mi =
     (case mi of
        None \<Rightarrow> Inr DefaultMaterialData
      | Some i \<Rightarrow> if i < length (materials scene) then Inr (materials scene ! i)
                  else Inl AssertionFailed)"

subsection \<open>Texture lookup (Scene::sampleTexture)\<close>

text \<open>
  \<open>std::size_t u = int(textureCoord.x * image.width()) % image.width();\<close>
  The product is a \<open>float\<close>, the cast truncates it to an \<open>int\<close>, and the remainder is taken
  in \<open>std::size_t\<close>: the \<open>int\<close> is converted to an unsigned 64-bit value first (a negative
  \<open>k\<close> becomes \<open>2^64 + k\<close>). The test \<open>u < 0\<close> that follows is on an unsigned value.
\<close>

definition size_t_of_int :: "int \<Rightarrow> nat" where
  "size_t_of_int k = nat (k mod 2 ^ 64)"

definition wrapTexel :: "fl \<Rightarrow> nat \<Rightarrow> fault + nat" where
  "wrapTexel c w =
     (case int_of_fl (fmul c (fl_of_nat w)) of
        None \<Rightarrow> Inl UndefinedConversion
      | Some k \<Rightarrow>
          if w = 0 then Inl RemainderByZero
          else let u = size_t_of_int k mod w;
                   u' = (if u < 0 then (u + w) mod 2 ^ 64 else u)
               in Inr u')"

definition sampleTexture :: "Scene \<Rightarrow> nat \<Rightarrow> Vec2 \<Rightarrow> fault + Vec3" where
  "sampleTexture scene textureIdx tc =
     (if \<not> textureIdx < length (textures scene) then Inl AssertionFailed
      else let texture = textures scene ! textureIdx in
        if \<not> imageIdx texture < length (images scene) then Inl OutOfBounds
        else let image = images scene ! imageIdx texture in
          if Image_empty image then Inr (vsplat (Fin 1))
          else case wrapTexel (v2x tc) (width image) of
                 Inl e \<Rightarrow> Inl e
               | Inr u \<Rightarrow>
                   (case wrapTexel (v2y tc) (height image) of
                      Inl e \<Rightarrow> Inl e
                    | Inr v \<Rightarrow> rgb image u v))"

text \<open>
  The wrap as the specification words it: the texel index, reduced modulo the size of the
  image.
\<close>

definition wrapTexel_spec :: "fl \<Rightarrow> nat \<Rightarrow> fault + nat" where
  "wrapTexel_spec c w =
     (case int_of_fl (fmul c (fl_of_nat w)) of
        None \<Rightarrow> Inl UndefinedConversion
      | Some k \<Rightarrow> if w = 0 then Inl RemainderByZero else Inr (nat (k mod int w)))"

text \<open>A scene with one texture, three pixels wide and one high: red, green, blue.\<close>

definition rgb_strip :: Image where
  "rgb_strip = \<lparr>pixels = [Fin 1, Fin 0, Fin 0,  Fin 0, Fin 1, Fin 0,  Fin 0, Fin 0, Fin 1],
                 width = 3, height = 1, channels = 3\<rparr>"

definition strip_scene :: Scene where
  "strip_scene = \<lparr>meshes = [], textures = [\<lparr>imageIdx = 0\<rparr>], images = [rgb_strip],
                   lights = [], materials = []\<rparr>"

section \<open>Two-sided clipped geometric distribution (distribution\_geometric\_clipped.h)\<close>

record TwoSidedClippedGeometricDistribution =
  m_base :: fl
  m_invLogBase :: fl
  m_normalization :: fl
  m_invNormalization :: fl
  m_offset :: fl
  m_left :: int
  m_center :: int

text \<open>
  The constructor sets \<open>_base\<close> and \<open>_invLogBase\<close> only; the other members keep whatever the
  storage held, which is the argument \<open>junk\<close> here.
\<close>

definition TwoSided_new ::
  "fl \<Rightarrow> TwoSidedClippedGeometricDistribution \<Rightarrow> TwoSidedClippedGeometricDistribution" where
  "TwoSided_new b junk = junk\<lparr>m_base := b, m_invLogBase := fdiv (Fin 1) (log2f b)\<rparr>"

definition setParameters ::
  "TwoSidedClippedGeometricDistribution \<Rightarrow> int \<Rightarrow> int \<Rightarrow> int
   \<Rightarrow> TwoSidedClippedGeometricDistribution" where
  "setParameters d left center right =
     (let off = powf (m_base d) (center - left + 1);
          norm = fsub (fsub (Fin 2) off) (powf (m_base d) (right - center + 1))
      in d\<lparr>m_offset := off, m_normalization := norm,
            m_invNormalization := fdiv (Fin 1) norm,
            m_left := left, m_center := center\<rparr>)"

definition pdf :: "TwoSidedClippedGeometricDistribution \<Rightarrow> int \<Rightarrow> fl" where
  "pdf d i =
     (let result = fmul (fmul (fsub (Fin 1) (m_base d)) (powf (m_base d) \<bar>i - m_center d\<bar>))
                        (m_invNormalization d)
      in if i = 0 then fmul result (Fin 2) else result)"

text \<open>
  The probability function as the specification words it: the same weight
  \<open>base ^ |k - center|\<close>, with the doubling at \<open>k = center\<close>.
\<close>

definition pdf_spec :: "TwoSidedClippedGeometricDistribution \<Rightarrow> int \<Rightarrow> fl" where
  "pdf_spec d k =
     (let result = fmul (fmul (fsub (Fin 1) (m_base d)) (powf (m_base d) \<bar>k - m_center d\<bar>))
                        (m_invNormalization d)
      in if k = m_center d then fmul result (Fin 2) else result)"

section \<open>PCG32 generator (random.h, random.cpp)\<close>

text \<open>
  The generator keeps one 64-bit word, \<open>mcgState\<close>. The default member initialiser is
  \<open>0xcafef00dd15ea5e5\<close>, the seeding constructor stores \<open>seed | 1u\<close>, and
  \<open>operator()\<close> multiplies the state by \<open>Multiplier\<close> modulo \<open>2^64\<close> and returns the
  xor-shifted old state, shifted right by \<open>22 + count\<close> and cut to 32 bits.
\<close>

record Generator =
  mcgState :: "64 word"

definition Multiplier :: "64 word" where
  "Multiplier = 6364136223846793005"

definition Generator_default :: Generator where
  "Generator_default = \<lparr>mcgState = 0xcafef00dd15ea5e5\<rparr>"

definition Generator_seeded :: "64 word \<Rightarrow> Generator" where
  "Generator_seeded seed = \<lparr>mcgState = seed OR 1\<rparr>"

definition Generator_call :: "Generator \<Rightarrow> 32 word \<times> Generator" where
  "Generator_call g =
     (let x = mcgState g;
          count = unat (drop_bit 61 x);
          g' = g\<lparr>mcgState := x * Multiplier\<rparr>;
          x' = x XOR drop_bit 22 x
      in (ucast (drop_bit (22 + count) x'), g'))"

text \<open>The generator after \<open>n\<close> calls of \<open>operator()\<close>.\<close>

fun draws :: "nat \<Rightarrow> Generator \<Rightarrow> Generator" where
  "draws 0 g = g"
| "draws (Suc n) g = draws n (snd (Generator_call g))"

section \<open>Paths (path.h, path.cpp)\<close>

text \<open>\<open>PCG32::rand()\<close> is \<open>std::generate_canonical<float, 32>\<close>: one draw, divided by \<open>2^32\<close>.\<close>

definition pcg_rand :: "Generator \<Rightarrow> fl \<times> Generator" where
  "pcg_rand g = (let (r, g') = Generator_call g in (Fin (real (unat r) / 2 ^ 32), g'))"

fun fsqrt :: "fl \<Rightarrow> fl" where
  "fsqrt (Fin a) = (if a < 0 then NaN else Fin (sqrt a))"
| "fsqrt PInf = PInf"
| "fsqrt _ = NaN"

definition vdot :: "Vec3 \<Rightarrow> Vec3 \<Rightarrow> fl" where
  "vdot a b = fadd (fadd (fmul (vx a) (vx b)) (fmul (vy a) (vy b))) (fmul (vz a) (vz b))"

definition vcross :: "Vec3 \<Rightarrow> Vec3 \<Rightarrow> Vec3" where
  "vcross a b = Vec3 (fsub (fmul (vy a) (vz b)) (fmul (vy b) (vz a)))
                     (fsub (fmul (vz a) (vx b)) (fmul (vz b) (vx a)))
                     (fsub (fmul (vx a) (vy b)) (fmul (vx b) (vy a)))"

definition vlength :: "Vec3 \<Rightarrow> fl" where
  "vlength v = fsqrt (vdot v v)"

definition vnormalize :: "Vec3 \<Rightarrow> Vec3" where
  "vnormalize v = vscale v (fdiv (Fin 1) (fsqrt (vdot v v)))"

definition vneg :: "Vec3 \<Rightarrow> Vec3" where
  "vneg v = Vec3 (fneg (vx v)) (fneg (vy v)) (fneg (vz v))"

definition v2scale :: "Vec2 \<Rightarrow> fl \<Rightarrow> Vec2" where
  "v2scale a k = Vec2 (fmul (v2x a) k) (fmul (v2y a) k)"

definition v2add :: "Vec2 \<Rightarrow> Vec2 \<Rightarrow> Vec2" where
  "v2add a b = Vec2 (fadd (v2x a) (v2x b)) (fadd (v2y a) (v2y b))"

record HitInfo =
  hit_distance :: fl
  hit_position :: Vec3
  hit_normal :: Vec3
  hit_geometricNormal :: Vec3
  hit_textureCoord :: Vec2
  hit_materialIdx :: "nat option"

text \<open>
  A path is an array of \<open>MaxLength\<close> vertices and the number of vertices in use. The
  members that an initialiser leaves out are zero or empty.
\<close>

record Path =
  m_path :: "Vertex list"
  m_pathLength :: nat

definition MaxLength :: nat where
  "MaxLength = 10"

definition TerminationProbability :: fl where
  "TerminationProbability = Fin (35826 / 100000)"

definition Vertex_zero :: Vertex where
  "Vertex_zero =
     \<lparr>connectionType = Origin, bounceType = BounceNone, position = vsplat (Fin 0),
      normal = vsplat (Fin 0), geometricNormal = vsplat (Fin 0),
      textureCoord = Vec2 (Fin 0) (Fin 0), materialIdx = None, lightIdx = None\<rparr>"

definition Path_new :: Path where
  "Path_new = \<lparr>m_path = replicate MaxLength Vertex_zero, m_pathLength = 0\<rparr>"

text \<open>\<open>_path[_pathLength] = v; ++_pathLength;\<close> on an array of fixed size.\<close>

definition Path_push :: "Path \<Rightarrow> Vertex \<Rightarrow> fault + Path" where
  "Path_push p v =
     (if m_pathLength p < length (m_path p)
      then Inr (p\<lparr>m_path := (m_path p)[m_pathLength p := v], m_pathLength := m_pathLength p + 1\<rparr>)
      else Inl OutOfBounds)"

definition Path_last :: "Path \<Rightarrow> Vertex" where
  "Path_last p = m_path p ! (m_pathLength p - 1)"

text \<open>
  \<open>Path::addBounce\<close>. The ray caster \<open>Scene::intersect\<close> and the sampler
  \<open>Material::sampleDirection\<close> are the parameters \<open>intersect\<close> and \<open>sampleDirection\<close>; the
  sampler draws from the generator and hands it back. The result is the next ray, if the
  path goes on, the path and the generator.
\<close>

definition addBounce ::
  "(Ray \<Rightarrow> HitInfo option)
   \<Rightarrow> (MaterialData \<Rightarrow> Vec3 \<Rightarrow> Vertex \<Rightarrow> Generator \<Rightarrow> (Ray \<times> BounceType) \<times> Generator)
   \<Rightarrow> Scene \<Rightarrow> Path \<Rightarrow> Ray \<Rightarrow> fl option \<Rightarrow> Generator
   \<Rightarrow> fault + (Ray option \<times> Path \<times> Generator)" where
  "addBounce intersect sampleDirection scene p inRay terminationProbability g =
     (case intersect inRay of
        None \<Rightarrow> Inr (None, p, g)
      | Some hit0 \<Rightarrow>
         (case getMaterial scene (hit_materialIdx hit0) of
            Inl e \<Rightarrow> Inl e
          | Inr material \<Rightarrow>
             (let hit = (if getType material \<noteq> Refractive
                            \<and> fless (Fin 0) (vdot (ray_d inRay) (hit_geometricNormal hit0))
                         then hit0\<lparr>hit_normal := vscale (hit_normal hit0) (Fin (- 1)),
                                   hit_geometricNormal :=
                                     vscale (hit_geometricNormal hit0) (Fin (- 1))\<rparr>
                         else hit0)
              in (case Path_push p
                         \<lparr>connectionType = Implicit, bounceType = BounceNone,
                          position = hit_position hit, normal = hit_normal hit,
                          geometricNormal = hit_geometricNormal hit,
                          textureCoord = hit_textureCoord hit,
                          materialIdx = hit_materialIdx hit, lightIdx = None\<rparr> of
                    Inl e \<Rightarrow> Inl e
                  | Inr p1 \<Rightarrow>
                     (let (stop, g1) =
                            (case terminationProbability of
                               None \<Rightarrow> (False, g)
                             | Some q \<Rightarrow> (let (u, g') = pcg_rand g in (fless u q, g')))
                      in if stop then Inr (None, p1, g1)
                         else (let ((newRay, bounce), g2) =
                                     sampleDirection material (vneg (ray_d inRay))
                                       (Path_last p1) g1;
                                   k = m_pathLength p1 - 1
                               in Inr (Some newRay,
                                       p1\<lparr>m_path := (m_path p1)
                                            [k := (m_path p1 ! k)\<lparr>bounceType := bounce\<rparr>]\<rparr>,
                                       g2)))))))"

text \<open>The loop \<open>while (p._pathLength < MaxLength)\<close> of \<open>Path::createRandomEyePath\<close>.\<close>

function eyePathLoop ::
  "(Ray \<Rightarrow> HitInfo option)
   \<Rightarrow> (MaterialData \<Rightarrow> Vec3 \<Rightarrow> Vertex \<Rightarrow> Generator \<Rightarrow> (Ray \<times> BounceType) \<times> Generator)
   \<Rightarrow> Scene \<Rightarrow> Path \<Rightarrow> Ray \<Rightarrow> Generator \<Rightarrow> fault + (Path \<times> Generator)" where
  "eyePathLoop intersect sampleDirection scene p ray g =
     (if m_pathLength p < MaxLength
      then (case addBounce intersect sampleDirection scene p ray (Some TerminationProbability) g of
              Inl e \<Rightarrow> Inl e
            | Inr (None, p', g') \<Rightarrow> Inr (p', g')
            | Inr (Some nextRay, p', g') \<Rightarrow>
                eyePathLoop intersect sampleDirection scene p' nextRay g')
      else Inr (p, g))"
  by pat_completeness auto
termination
  by (relation "measure (\<lambda>(intersect, sampleDirection, scene, p, ray, g).
                           MaxLength - m_pathLength p)")
     (auto simp: addBounce_def Path_push_def Let_def
           split: option.splits sum.splits if_splits prod.splits)

definition createRandomEyePath ::
  "(Ray \<Rightarrow> HitInfo option)
   \<Rightarrow> (MaterialData \<Rightarrow> Vec3 \<Rightarrow> Vertex \<Rightarrow> Generator \<Rightarrow> (Ray \<times> BounceType) \<times> Generator)
   \<Rightarrow> Scene \<Rightarrow> Ray \<Rightarrow> Generator \<Rightarrow> fault + (Path \<times> Generator)" where
  "createRandomEyePath intersect sampleDirection scene ray g =
     eyePathLoop intersect sampleDirection scene
       (Path_new\<lparr>m_path := (m_path Path_new)[0 := Vertex_zero\<lparr>connectionType := Origin,
                                 bounceType := BounceNone, position := ray_o ray\<rparr>],
                 m_pathLength := 1\<rparr>)
       ray g"







text \<open>
  The light vertex. \<open>chooseRandomTriangle\<close>, a draw from a
  \<open>std::discrete_distribution\<close> of the mesh, is the parameter \<open>chooseTriangle\<close>.
\<close>

definition chooseRandomVertexOnTriangle :: "MeshTriangle \<Rightarrow> Generator \<Rightarrow> Vertex \<times> Generator" where
  "chooseRandomVertexOnTriangle triangle g =
     (let (u1, g1) = pcg_rand g;
          sqrtU1 = fsqrt u1;
          (u2, g2) = pcg_rand g1;
          alpha = fsub (Fin 1) sqrtU1;
          beta = fmul (fsub (Fin 1) u2) sqrtU1;
          gamma = fmul u2 sqrtU1;
          ps = tri_positions triangle; ns = tri_normals triangle;
          ts = tri_textureCoords triangle
      in (\<lparr>connectionType = Explicit, bounceType = BounceNone,
           position = vadd (vadd (vscale (ps ! 0) alpha) (vscale (ps ! 1) beta))
                           (vscale (ps ! 2) gamma),
           normal = vnormalize (vadd (vadd (vscale (ns ! 0) alpha) (vscale (ns ! 1) beta))
                                     (vscale (ns ! 2) gamma)),
           geometricNormal = vnormalize (vcross (vsub (ps ! 1) (ps ! 0)) (vsub (ps ! 2) (ps ! 0))),
           textureCoord = v2add (v2add (v2scale (ts ! 0) alpha) (v2scale (ts ! 1) beta))
                                (v2scale (ts ! 2) gamma),
           materialIdx = None, lightIdx = None\<rparr>, g2))"

definition chooseRandomVertexOnLight ::
  "(Scene \<Rightarrow> nat \<Rightarrow> nat \<Rightarrow> Generator \<Rightarrow> nat \<times> Generator)
   \<Rightarrow> Scene \<Rightarrow> nat \<Rightarrow> Generator \<Rightarrow> fault + (Vertex \<times> Generator)" where
  "chooseRandomVertexOnLight chooseTriangle scene li g =
     (if \<not> li < length (lights scene) then Inl OutOfBounds
      else (case lights scene ! li of
              PointLight lp w \<Rightarrow>
                Inr (Vertex_zero\<lparr>connectionType := Explicit, position := lp, lightIdx := Some li\<rparr>, g)
            | MeshLight mi pri \<Rightarrow>
                if \<not> mi < length (meshes scene) then Inl OutOfBounds
                else if \<not> pri < length (primitives (meshes scene ! mi)) then Inl OutOfBounds
                else (let primitive = primitives (meshes scene ! mi) ! pri;
                          (triangleIdx, g1) = chooseTriangle scene mi pri g
                      in if \<not> triangleIdx < length (mesh_triangles (meshes scene ! mi))
                         then Inl OutOfBounds
                         else (let (vertex, g2) = chooseRandomVertexOnTriangle
                                      (mesh_triangles (meshes scene ! mi) ! triangleIdx) g1
                               in Inr (vertex\<lparr>materialIdx := prim_materialIdx primitive,
                                               lightIdx := Some li\<rparr>, g2)))))"

definition createRandomLightPath ::
  "(Scene \<Rightarrow> nat \<Rightarrow> nat \<Rightarrow> Generator \<Rightarrow> nat \<times> Generator)
   \<Rightarrow> Scene \<Rightarrow> Generator \<Rightarrow> fault + (Path \<times> Generator)" where
  "createRandomLightPath chooseTriangle scene g =
     (if lights scene = [] then Inr (Path_new, g)
      else (let (r, g1) = Generator_call g in
            case chooseRandomVertexOnLight chooseTriangle scene
                   (unat r mod length (lights scene)) g1 of
              Inl e \<Rightarrow> Inl e
            | Inr (v, g2) \<Rightarrow>
                (case Path_push Path_new v of
                   Inl e \<Rightarrow> Inl e
                 | Inr p \<Rightarrow> Inr (p, g2))))"

text \<open>A scene without lights, meshes or materials.\<close>

definition empty_scene :: Scene where
  "empty_scene = \<lparr>meshes = [], textures = [], images = [], lights = [], materials = []\<rparr>"

section \<open>Materials and the evaluation of a path (material.cpp, path.cpp, math.h)\<close>

text \<open>The constants of math.h. \<open>PI\<close> is the decimal literal of the source, not the number \<open>\<pi>\<close>.\<close>

definition pi_f :: real where
  "pi_f = 314159265358979 / 100000000000000"

definition PI :: fl where
  "PI = Fin pi_f"

definition Epsilon :: fl where
  "Epsilon = Fin (5 / 100000)"

record EvaluationResult =
  radiance :: Vec3
  russianRouletteRadiance :: Vec3

text \<open>Sequencing of computations that can fault.\<close>

definition bindF :: "fault + 'a \<Rightarrow> ('a \<Rightarrow> fault + 'b) \<Rightarrow> fault + 'b" where
  "bindF m f = (case m of Inl e \<Rightarrow> Inl e | Inr v \<Rightarrow> f v)"

definition v4xyz :: "Vec4 \<Rightarrow> Vec3" where
  "v4xyz v = Vec3 (v4a v) (v4b v) (v4c v)"



definition bsdf :: "Scene \<Rightarrow> MaterialData \<Rightarrow> Vertex \<Rightarrow> fault + Vec3" where
  "bsdf scene m vertex =
     (let result = vdivs (v4xyz (baseColorFactor m)) PI
      in case baseColorTextureIdx m of
           None \<Rightarrow> Inr result
         | Some ti \<Rightarrow> bindF (sampleTexture scene ti (textureCoord vertex))
                        (\<lambda>c. Inr (vmul result c)))"






text \<open>
  \<open>evaluateExplicit(scene, x1, x2, y1, y2)\<close>: both materials are evaluated at \<open>x2\<close>, and the
  distance and the cosines are those of the segment from \<open>x2\<close> to \<open>y2\<close>.
\<close>

definition evaluateExplicit :: "Scene \<Rightarrow> Vertex \<Rightarrow> Vertex \<Rightarrow> Vertex \<Rightarrow> Vertex \<Rightarrow> fault + Vec3" where
  "evaluateExplicit scene x1 x2 y1 y2 =
     (let invDist = fdiv (Fin 1) (vlength (vsub (position y2) (position x2)));
          x2toy2 = vnormalize (vsub (position y2) (position x2))
      in bindF (getMaterial scene (materialIdx x2)) (\<lambda>material1.
         bindF (getMaterial scene (materialIdx y2)) (\<lambda>material2.
         bindF (bsdf scene material1 x2) (\<lambda>f1.
         bindF (bsdf scene material2 x2) (\<lambda>f2.
           let r0 = vmul (vsplat (Fin 1)) f1;
               r1 = vmul r0 f2;
               r2 = vscale r1 (fmul invDist invDist);
               r3 = vscale r2 (fmax (Fin 0) (vdot (normal x2) x2toy2));
               r4 = vscale r3 (fmax (Fin 0) (vdot (normal y2) (vneg x2toy2)))
           in Inr r4)))))"

text \<open>
  The state of the loop of \<open>evaluate\<close>: the two throughputs and the result. \<open>addEmission\<close>
  is \<open>result.radiance += throughput * emission\<close> with its twin for the Russian-roulette
  radiance.
\<close>

record EvalState =
  throughput :: Vec3
  russianRouletteThroughput :: Vec3
  result :: EvaluationResult










text \<open>
  A scene with the three-pixel texture and two materials, a plain white one and a white
  one with the texture, and a path of four vertices on the \<open>z\<close> axis: the camera, a plain
  vertex at the origin, an explicit plain vertex at height 1 and a textured vertex at
  height 2, whose texture coordinate selects the second pixel.
\<close>

definition plain_material :: MaterialData where
  "plain_material = DefaultMaterialData"

definition textured_material :: MaterialData where
  "textured_material = DefaultMaterialData\<lparr>baseColorTextureIdx := Some 0\<rparr>"

definition textured_scene :: Scene where
  "textured_scene = \<lparr>meshes = [], textures = [\<lparr>imageIdx = 0\<rparr>], images = [rgb_strip],
                      lights = [], materials = [plain_material, textured_material]\<rparr>"

definition path_vertex ::
  "ConnectionType \<Rightarrow> real \<Rightarrow> real \<Rightarrow> real \<Rightarrow> nat \<Rightarrow> Vertex" where
  "path_vertex ct h nz tc m =
     \<lparr>connectionType = ct, bounceType = Diffuse, position = Vec3 (Fin 0) (Fin 0) (Fin h),
      normal = Vec3 (Fin 0) (Fin 0) (Fin nz), geometricNormal = Vec3 (Fin 0) (Fin 0) (Fin nz),
      textureCoord = Vec2 (Fin tc) (Fin 0), materialIdx = Some m, lightIdx = None\<rparr>"

definition explicit_path :: "Vertex list" where
  "explicit_path =
     [Vertex_zero\<lparr>position := Vec3 (Fin 0) (Fin 0) (Fin (- 1))\<rparr>,
      path_vertex Implicit 0 1 0 0,
      path_vertex Explicit 1 (- 1) 0 0,
      path_vertex Implicit 2 (- 1) (1 / 2) 1]"






section \<open>The Metropolis sampler (mlt.h, mlt.cpp)\<close>

record State =
  st_path :: Path
  pixel :: Vec2
  evaluation :: EvaluationResult

datatype MutationType = NewPath | Lens | MultiChain | Bidirectional

record MutationInfo =
  proposal :: State
  acceptance :: fl
  mutationType :: MutationType

record MLTProcess =
  accumulationBuffer :: Image
  accumulatedLuminance :: fl
  numNewPathMutations :: int
  averageSamplesPerPixel :: fl
  currentState :: "State option"

record EnabledMutations =
  newPathMutation :: bool
  lensPerturbation :: bool
  multiChainPerturbation :: bool
  bidirectionalMutation :: bool

record MLT =
  m_config :: EnabledMutations
  m_width :: nat
  m_height :: nat
  m_processes :: "MLTProcess list"
  m_averageSamplesPerPixel :: int

definition MLTProcess_new :: "nat \<Rightarrow> nat \<Rightarrow> MLTProcess" where
  "MLTProcess_new w h =
     \<lparr>accumulationBuffer = Image_new w h 3, accumulatedLuminance = Fin 0,
      numNewPathMutations = 0, averageSamplesPerPixel = Fin 0, currentState = None\<rparr>"

definition MLT_new :: "EnabledMutations \<Rightarrow> nat \<Rightarrow> nat \<Rightarrow> int \<Rightarrow> MLT" where
  "MLT_new cfg w h numProcesses =
     \<lparr>m_config = cfg, m_width = w, m_height = h,
      m_processes = replicate (nat (if numProcesses < 1 then 1 else numProcesses))
                              (MLTProcess_new w h),
      m_averageSamplesPerPixel = 0\<rparr>"

text \<open>
  \<open>MLT::computeScaleFactor\<close>: the two sums over the processes, then
  \<open>(totalAccumulatedLuminance / totalNumNewPathMutations) / _averageSamplesPerPixel\<close>, both
  divisions in \<open>float\<close> after the conversion of the \<open>int\<close> divisors.
\<close>

definition computeScaleFactor :: "MLT \<Rightarrow> fl" where
  "computeScaleFactor mlt =
     (let (totalAccumulatedLuminance, totalNumNewPathMutations) =
            foldl (\<lambda>(l, n) process.
                     (fadd l (accumulatedLuminance process), n + numNewPathMutations process))
                  (Fin 0, 0) (m_processes mlt)
      in fdiv (fdiv totalAccumulatedLuminance (fl_of_int totalNumNewPathMutations))
              (fl_of_int (m_averageSamplesPerPixel mlt)))"

text \<open>
  A renderer with lens perturbations only, one process, after one pass of one sample per
  pixel on a 2 by 2 image: no new-path mutation was attempted.
\<close>

definition lens_only :: EnabledMutations where
  "lens_only = \<lparr>newPathMutation = False, lensPerturbation = True,
                 multiChainPerturbation = False, bidirectionalMutation = False\<rparr>"

definition lens_only_mlt :: MLT where
  "lens_only_mlt = (MLT_new lens_only 2 2 1)\<lparr>m_averageSamplesPerPixel := 1\<rparr>"

subsection \<open>MLTProcess::accumulate: the mutation loop\<close>

text \<open>
  \<open>clampPixel\<close> converts each coordinate to \<open>int\<close> and clamps it with
  \<open>std::clamp<int>(v, 0, size - 1)\<close>, where \<open>size - 1\<close> is computed in \<open>std::size_t\<close> and
  converted to \<open>int\<close>. \<open>std::clamp\<close> requires \<open>!(hi < lo)\<close>.
\<close>

definition int_of_size_t :: "nat \<Rightarrow> int" where
  "int_of_size_t n = (let k = int (n mod 2 ^ 32) in if k < 2 ^ 31 then k else k - 2 ^ 32)"

definition size_t_pred :: "nat \<Rightarrow> nat" where
  "size_t_pred n = (n + 2 ^ 64 - 1) mod 2 ^ 64"

definition clamp_int :: "int \<Rightarrow> int \<Rightarrow> int \<Rightarrow> fault + int" where
  "clamp_int v lo hi =
     (if hi < lo then Inl AssertionFailed
      else Inr (if v < lo then lo else if hi < v then hi else v))"

definition clampPixel :: "Vec2 \<Rightarrow> Image \<Rightarrow> fault + int \<times> int" where
  "clampPixel px img =
     (case int_of_fl (v2x px) of
        None \<Rightarrow> Inl UndefinedConversion
      | Some ix \<Rightarrow>
          (case clamp_int ix 0 (int_of_size_t (size_t_pred (width img))) of
             Inl e \<Rightarrow> Inl e
           | Inr cx \<Rightarrow>
               (case int_of_fl (v2y px) of
                  None \<Rightarrow> Inl UndefinedConversion
                | Some iy \<Rightarrow>
                    (case clamp_int iy 0 (int_of_size_t (size_t_pred (height img))) of
                       Inl e \<Rightarrow> Inl e
                     | Inr cy \<Rightarrow> Inr (cx, cy)))))"

definition luminance :: "Vec3 \<Rightarrow> fl" where
  "luminance color =
     fadd (fadd (fmul (Fin (299 / 1000)) (vx color)) (fmul (Fin (587 / 1000)) (vy color)))
          (fmul (Fin (114 / 1000)) (vz color))"

text \<open>
  One iteration of the loop of \<open>MLTProcess::accumulate\<close> (mlt.cpp, lines 310 to 335).
  The argument \<open>mutated\<close> is what \<open>computeRandomMutation\<close> returned: the proposal, if any,
  and the process as the call left it, of which the two members it can write
  (\<open>_accumulatedLuminance\<close>, \<open>_numNewPathMutations\<close>) are taken over. The argument \<open>u\<close> is the
  draw \<open>PCG32::rand()\<close> of the acceptance test. Reading the state of a process that has
  none is the fault \<open>EmptyOptional\<close>.
\<close>

definition accumulateStep ::
  "MutationInfo option \<times> MLTProcess \<Rightarrow> fl \<Rightarrow> MLTProcess \<Rightarrow> fault + MLTProcess" where
  "accumulateStep mutated u process =
     (case currentState process of
        None \<Rightarrow> Inl EmptyOptional
      | Some st \<Rightarrow>
         (let currentColor = vdivs (radiance (evaluation st))
                                   (luminance (radiance (evaluation st)));
              buffer = accumulationBuffer process;
              process1 = process\<lparr>accumulatedLuminance := accumulatedLuminance (snd mutated),
                                 numNewPathMutations := numNewPathMutations (snd mutated)\<rparr>;
              selfTransition =
                (\<lambda>px py. case rgb_add buffer (size_t_of_int px) (size_t_of_int py) currentColor of
                     Inl e \<Rightarrow> Inl e
                   | Inr b \<Rightarrow> Inr (process1\<lparr>accumulationBuffer := b\<rparr>))
          in (case clampPixel (pixel st) buffer of
               Inl e \<Rightarrow> Inl e
             | Inr (px, py) \<Rightarrow>
                 (case fst mutated of
                    None \<Rightarrow> selfTransition px py
                  | Some info \<Rightarrow>
                     (let newColor = radiance (evaluation (proposal info));
                          newLum = luminance newColor
                      in if fless newLum Epsilon then selfTransition px py
                         else
                           (case clampPixel (pixel (proposal info)) buffer of
                              Inl e \<Rightarrow> Inl e
                            | Inr (newX, newY) \<Rightarrow>
                                (case rgb_add buffer (size_t_of_int px) (size_t_of_int py)
                                        (vscale currentColor (fsub (Fin 1) (acceptance info))) of
                                   Inl e \<Rightarrow> Inl e
                                 | Inr b1 \<Rightarrow>
                                     (case rgb_add b1 (size_t_of_int newX) (size_t_of_int newY)
                                             (vscale (vdivs newColor newLum) (acceptance info)) of
                                        Inl e \<Rightarrow> Inl e
                                      | Inr b2 \<Rightarrow>
                                          Inr (process1\<lparr>accumulationBuffer := b2,
                                                 currentState :=
                                                   (if fless u (acceptance info)
                                                    then Some (proposal info)
                                                    else Some st)\<rparr>)))))))))"

text \<open>
  The loop \<open>for (i = 0; i < numMutations; ++i)\<close>. \<open>isStopping i\<close> is the value of the
  renderer's flag read at iteration \<open>i\<close>; \<open>mutate i\<close> and \<open>rand i\<close> are the mutation and the
  draw of iteration \<open>i\<close>.
\<close>

fun mutationLoop ::
  "(nat \<Rightarrow> bool) \<Rightarrow> (nat \<Rightarrow> MLTProcess \<Rightarrow> MutationInfo option \<times> MLTProcess) \<Rightarrow> (nat \<Rightarrow> fl)
   \<Rightarrow> nat \<Rightarrow> nat \<Rightarrow> MLTProcess \<Rightarrow> fault + MLTProcess" where
  "mutationLoop isStopping mutate rand i 0 process = Inr process"
| "mutationLoop isStopping mutate rand i (Suc n) process =
     (if isStopping i then Inr process
      else case accumulateStep (mutate i process) (rand i) process of
             Inl e \<Rightarrow> Inl e
           | Inr process' \<Rightarrow> mutationLoop isStopping mutate rand (Suc i) n process')"

definition accumulateMutations ::
  "(nat \<Rightarrow> bool) \<Rightarrow> (nat \<Rightarrow> MLTProcess \<Rightarrow> MutationInfo option \<times> MLTProcess) \<Rightarrow> (nat \<Rightarrow> fl)
   \<Rightarrow> nat \<Rightarrow> MLTProcess \<Rightarrow> fault + MLTProcess" where
  "accumulateMutations isStopping mutate rand numMutations process =
     (case mutationLoop isStopping mutate rand 0 numMutations process of
        Inl e \<Rightarrow> Inl e
      | Inr process' \<Rightarrow>
          let numPixels = (width (accumulationBuffer process')
                           * height (accumulationBuffer process')) mod 2 ^ 64
          in Inr (process'\<lparr>averageSamplesPerPixel :=
                    fadd (averageSamplesPerPixel process')
                         (fdiv (fl_of_nat numMutations) (fl_of_nat numPixels))\<rparr>))"

text \<open>
  A buffer as \<open>MLTProcess\<close> constructs it: three channels, \<open>width * height * 3\<close> floats, and
  a width and a height that are positive and fit an \<open>int\<close>.
\<close>

definition bufferOK :: "Image \<Rightarrow> bool" where
  "bufferOK b = (0 < width b \<and> width b \<le> 2 ^ 31 \<and> 0 < height b \<and> height b \<le> 2 ^ 31
                 \<and> channels b = 3 \<and> length (pixels b) = width b * height b * 3)"

text \<open>The outcomes of the loop that are not a write outside the buffer.\<close>

definition stepOK :: "fault + MLTProcess \<Rightarrow> bool" where
  "stepOK r = (case r of
      Inl e \<Rightarrow> e = UndefinedConversion \<or> e = EmptyOptional
    | Inr p \<Rightarrow> bufferOK (accumulationBuffer p))"

text \<open>
  A process on a 2 by 2 image whose current pixel is the corner \<open>(2, 2)\<close>, outside the
  image, and a lens perturbation that proposes the pixel \<open>(2, 1)\<close>, whose \<open>x\<close> equals the
  width.
\<close>

definition border_state :: "fl \<Rightarrow> fl \<Rightarrow> State" where
  "border_state a b =
     \<lparr>st_path = \<lparr>m_path = [], m_pathLength = 0\<rparr>, pixel = Vec2 a b,
      evaluation = \<lparr>radiance = Vec3 (Fin 1) (Fin 1) (Fin 1),
                    russianRouletteRadiance = Vec3 (Fin 1) (Fin 1) (Fin 1)\<rparr>\<rparr>"

definition border_process :: MLTProcess where
  "border_process = (MLTProcess_new 2 2)\<lparr>currentState := Some (border_state (Fin 2) (Fin 2))\<rparr>"

definition border_mutate :: "nat \<Rightarrow> MLTProcess \<Rightarrow> MutationInfo option \<times> MLTProcess" where
  "border_mutate i process =
     (Some \<lparr>proposal = border_state (Fin 2) (Fin 1), acceptance = Fin (1 / 2),
            mutationType = Lens\<rparr>, process)"

section \<open>Properties\<close>

subsection \<open>PCG32: the state stays odd\<close>

lemma Multiplier_odd: "odd Multiplier"
  by (simp add: Multiplier_def)

lemma Generator_call_odd:
  "odd (mcgState g) \<Longrightarrow> odd (mcgState (snd (Generator_call g)))"
  by (simp add: Generator_call_def Let_def Multiplier_odd)

lemma draws_odd: "odd (mcgState g) \<Longrightarrow> odd (mcgState (draws n g))"
  by (induction n arbitrary: g) (simp_all add: Generator_call_odd)

text \<open>
  C9. The state of the generator is odd at every moment: the seeding constructor makes it
  odd for every seed, the default state is odd, the multiplier is odd, and after any number
  of draws from either starting point the state is still odd.
\<close>

theorem pcg32_state_always_odd:
  "odd (mcgState (draws n (Generator_seeded seed)))
   \<and> odd (mcgState (draws n Generator_default))
   \<and> odd Multiplier
   \<and> mcgState (snd (Generator_call g)) = mcgState g * 6364136223846793005"
proof -
  have s: "odd (mcgState (Generator_seeded seed))"
    by (simp add: Generator_seeded_def even_or_iff)
  have d: "odd (mcgState Generator_default)"
    by (simp add: Generator_default_def)
  have m: "mcgState (snd (Generator_call g)) = mcgState g * 6364136223846793005"
    by (simp add: Generator_call_def Let_def Multiplier_def)
  from draws_odd [OF s] draws_odd [OF d] Multiplier_odd m show ?thesis by blast
qed

subsection \<open>Two-sided clipped geometric distribution: where the doubling is applied\<close>

text \<open>
  C6. The claim places the doubling of the probability at \<open>k = center\<close>. The source tests
  \<open>i == 0\<close>: with base 1/2, left 0, center 1 and right 2 the value at the centre is not
  doubled (1/3 where the claim gives 2/3) and the value at 0 is (1/3 where the claim gives
  1/6); the three values of \<open>pdf\<close> add up to 5/6.
\<close>

theorem twoSided_pdf_doubles_at_zero:
  "pdf (setParameters (TwoSided_new (Fin (1 / 2)) junk) 0 1 2) 1 = Fin (1 / 3)
   \<and> pdf_spec (setParameters (TwoSided_new (Fin (1 / 2)) junk) 0 1 2) 1 = Fin (2 / 3)
   \<and> pdf (setParameters (TwoSided_new (Fin (1 / 2)) junk) 0 1 2) 0 = Fin (1 / 3)
   \<and> pdf_spec (setParameters (TwoSided_new (Fin (1 / 2)) junk) 0 1 2) 0 = Fin (1 / 6)
   \<and> pdf (setParameters (TwoSided_new (Fin (1 / 2)) junk) 0 1 2) 2 = Fin (1 / 6)"
  by (simp add: pdf_def pdf_spec_def setParameters_def TwoSided_new_def Let_def fsub_def
      power2_eq_square)

subsection \<open>Texture lookup: the wrap of a negative coordinate\<close>

lemma wrapTexel_in_range: "wrapTexel c w = Inr u \<Longrightarrow> u < w"
  by (auto simp: wrapTexel_def Let_def split: option.splits if_splits)

text \<open>
  C8. The index that \<open>sampleTexture\<close> reads is inside the image, but for a negative
  coordinate it is not the texel index reduced modulo the width: the remainder is taken
  after the conversion to an unsigned 64-bit value, and the correction \<open>if (u < 0)\<close> never
  runs. On an image three pixels wide the coordinate \<open>-1\<close> gives texel \<open>-3\<close>, which wraps to
  column 0, and the source reads column 1.
\<close>

theorem sampleTexture_negative_wrap:
  "wrapTexel (Fin (- 1)) 3 = Inr 1
   \<and> wrapTexel_spec (Fin (- 1)) 3 = Inr 0
   \<and> sampleTexture strip_scene 0 (Vec2 (Fin (- 1)) (Fin 0)) = Inr (Vec3 (Fin 0) (Fin 1) (Fin 0))
   \<and> rgb rgb_strip 0 0 = Inr (Vec3 (Fin 1) (Fin 0) (Fin 0))"
  by (simp add: sampleTexture_def strip_scene_def rgb_strip_def Image_empty_def wrapTexel_def
      wrapTexel_spec_def fl_of_nat_def size_t_of_int_def Let_def rgb_def rgb_offset_def valid_def)

subsection \<open>The scale factor without new-path mutations\<close>

lemma scale_sums_zero:
  "\<forall>p \<in> set ps. numNewPathMutations p = 0 \<and> accumulatedLuminance p = Fin 0 \<Longrightarrow>
   foldl (\<lambda>(l, n) process.
            (fadd l (accumulatedLuminance process), n + numNewPathMutations process))
         (Fin 0, 0) ps = (Fin 0, 0)"
  by (induction ps) simp_all

text \<open>
  C1, as the source has it. There is no guard: when no process has attempted a new-path
  mutation (every counter is zero and every accumulated luminance is still zero),
  \<open>computeScaleFactor\<close> divides zero by zero and returns NaN, whatever the number of
  samples per pixel.
\<close>

theorem computeScaleFactor_unguarded:
  "\<forall>p \<in> set (m_processes mlt). numNewPathMutations p = 0 \<and> accumulatedLuminance p = Fin 0 \<Longrightarrow>
   computeScaleFactor mlt = NaN"
  by (simp add: computeScaleFactor_def scale_sums_zero fl_of_int_def inf_of_sign_def)

theorem computeScaleFactor_unguarded_witness:
  "map numNewPathMutations (m_processes lens_only_mlt) = [0]
   \<and> map accumulatedLuminance (m_processes lens_only_mlt) = [Fin 0]
   \<and> computeScaleFactor lens_only_mlt = NaN"
proof -
  have h: "\<forall>p \<in> set (m_processes lens_only_mlt).
             numNewPathMutations p = 0 \<and> accumulatedLuminance p = Fin 0"
    by (simp add: lens_only_mlt_def MLT_new_def MLTProcess_new_def)
  have "computeScaleFactor lens_only_mlt = NaN"
    by (rule computeScaleFactor_unguarded [OF h])
  then show ?thesis
    by (simp add: lens_only_mlt_def MLT_new_def MLTProcess_new_def)
qed

text \<open>
  The claim as stated fails on that renderer: the factor is neither 0 nor any earlier
  value (the renderer keeps none), it is NaN.
\<close>

theorem computeScaleFactor_counterexample:
  "newPathMutation (m_config lens_only_mlt) = False
   \<and> map numNewPathMutations (m_processes lens_only_mlt) = [0]
   \<and> computeScaleFactor lens_only_mlt \<noteq> Fin 0
   \<and> computeScaleFactor lens_only_mlt = NaN"
  by (simp add: computeScaleFactor_def lens_only_mlt_def lens_only_def MLT_new_def
      MLTProcess_new_def fl_of_int_def inf_of_sign_def)

subsection \<open>The writes of the mutation loop stay inside the buffer\<close>

lemma size_t_pred_eq: "0 < n \<Longrightarrow> n \<le> 2 ^ 31 \<Longrightarrow> size_t_pred n = n - 1"
proof -
  assume a: "0 < n" "n \<le> 2 ^ 31"
  have "(2::nat) ^ 31 < 2 ^ 64" by simp
  with a have lt: "n - 1 < 2 ^ 64" by linarith
  from a have "n + 2 ^ 64 - 1 = (n - 1) + 2 ^ 64" by linarith
  then have "size_t_pred n = ((n - 1) + 2 ^ 64) mod 2 ^ 64"
    by (simp only: size_t_pred_def)
  also have "\<dots> = (n - 1) mod 2 ^ 64" by (simp only: mod_add_self2)
  also have "\<dots> = n - 1" using lt by (rule mod_less)
  finally show ?thesis .
qed

lemma int_of_size_t_small: "n < 2 ^ 31 \<Longrightarrow> int_of_size_t n = int n"
proof -
  assume a: "n < 2 ^ 31"
  have "(2::nat) ^ 31 < 2 ^ 32" by simp
  with a have "n < 2 ^ 32" by linarith
  then have m: "n mod 2 ^ 32 = n" by (rule mod_less)
  from a have "int n < 2 ^ 31" by (simp flip: of_nat_less_iff)
  then show ?thesis by (simp add: int_of_size_t_def m)
qed

lemma int_of_size_t_pred:
  "0 < n \<Longrightarrow> n \<le> 2 ^ 31 \<Longrightarrow> int_of_size_t (size_t_pred n) = int n - 1"
proof -
  assume a: "0 < n" "n \<le> 2 ^ 31"
  then have "n - 1 < 2 ^ 31" by linarith
  then have "int_of_size_t (n - 1) = int (n - 1)" by (rule int_of_size_t_small)
  with a show ?thesis by (simp add: size_t_pred_eq of_nat_diff)
qed

lemma size_t_of_int_small: "0 \<le> k \<Longrightarrow> k < 2 ^ 31 \<Longrightarrow> size_t_of_int k = nat k"
proof -
  assume a: "0 \<le> k" "k < 2 ^ 31"
  have "(2::int) ^ 31 < 2 ^ 64" by simp
  with a have "k < 2 ^ 64" by linarith
  with a have "k mod 2 ^ 64 = k" by (simp only: mod_pos_pos_trivial)
  then show ?thesis by (simp only: size_t_of_int_def)
qed

lemma clamp_int_range:
  "lo \<le> hi \<Longrightarrow> clamp_int v lo hi = Inr c \<Longrightarrow> lo \<le> c \<and> c \<le> hi"
  by (auto simp: clamp_int_def split: if_splits)

lemma clamp_int_no_fault: "lo \<le> hi \<Longrightarrow> clamp_int v lo hi \<noteq> Inl e"
  by (simp add: clamp_int_def)


lemma clampPixel_range:
  assumes "bufferOK b" and "clampPixel px b = Inr (cx, cy)"
  shows "0 \<le> cx \<and> cx < int (width b) \<and> 0 \<le> cy \<and> cy < int (height b)"
proof -
  from assms(1) have w: "int_of_size_t (size_t_pred (width b)) = int (width b) - 1"
    and h: "int_of_size_t (size_t_pred (height b)) = int (height b) - 1"
    by (simp_all only: bufferOK_def int_of_size_t_pred)
  from assms(1) have pos: "0 \<le> int (width b) - 1" "0 \<le> int (height b) - 1"
    by (simp_all add: bufferOK_def)
  from assms(2) obtain ix iy where
    c: "clamp_int ix 0 (int (width b) - 1) = Inr cx" "clamp_int iy 0 (int (height b) - 1) = Inr cy"
    unfolding clampPixel_def w h by (auto split: option.splits sum.splits)
  from clamp_int_range [OF pos(1) c(1)] clamp_int_range [OF pos(2) c(2)]
  show ?thesis by simp
qed

lemma clampPixel_fault:
  assumes "bufferOK b" and "clampPixel px b = Inl e"
  shows "e = UndefinedConversion"
proof -
  from assms(1) have w: "int_of_size_t (size_t_pred (width b)) = int (width b) - 1"
    and h: "int_of_size_t (size_t_pred (height b)) = int (height b) - 1"
    by (simp_all only: bufferOK_def int_of_size_t_pred)
  from assms(1) have pos: "0 \<le> int (width b) - 1" "0 \<le> int (height b) - 1"
    by (simp_all add: bufferOK_def)
  from assms(2) clamp_int_no_fault [OF pos(1)] clamp_int_no_fault [OF pos(2)] show ?thesis
    unfolding clampPixel_def w h by (auto split: option.splits sum.splits)
qed

lemma pixel_offset_bound:
  fixes a b w h :: nat
  assumes "a < w" "b < h"
  shows "(a + b * w) * 3 + 2 < w * h * 3"
proof -
  from assms(2) have "Suc b \<le> h" by simp
  then have "Suc b * w \<le> h * w" by (rule mult_le_mono1)
  then have "b * w + w \<le> w * h" by (simp add: mult.commute)
  with assms(1) have "Suc (a + b * w) \<le> w * h" by linarith
  then have "Suc (a + b * w) * 3 \<le> w * h * 3" by (rule mult_le_mono1)
  then show ?thesis by simp
qed

lemma rgb_add_ok:
  assumes "bufferOK b" "0 \<le> cx" "cx < int (width b)" "0 \<le> cy" "cy < int (height b)"
  shows "\<exists>b'. rgb_add b (size_t_of_int cx) (size_t_of_int cy) c = Inr b' \<and> bufferOK b'
              \<and> width b' = width b \<and> height b' = height b"
proof -
  from assms(1) have wb: "int (width b) \<le> 2 ^ 31" "int (height b) \<le> 2 ^ 31"
    by (simp_all add: bufferOK_def flip: of_nat_le_iff)
  from assms(2,3) wb have x: "size_t_of_int cx = nat cx"
    by (intro size_t_of_int_small) linarith+
  from assms(4,5) wb have y: "size_t_of_int cy = nat cy"
    by (intro size_t_of_int_small) linarith+
  have lx: "nat cx < width b" and ly: "nat cy < height b" using assms by simp_all
  from pixel_offset_bound [OF lx ly] assms(1)
  have "(nat cx + nat cy * width b) * channels b + 2 < length (pixels b)"
    by (simp add: bufferOK_def)
  with lx ly assms(1) show ?thesis
    unfolding x y by (simp add: rgb_add_def rgb_offset_def valid_def Let_def bufferOK_def)
qed



lemma write_after_clamp:
  assumes "bufferOK b" "bufferOK b1" "width b1 = width b" "height b1 = height b"
    and "clampPixel px b = Inr (cx, cy)"
  shows "\<exists>b'. rgb_add b1 (size_t_of_int cx) (size_t_of_int cy) c = Inr b' \<and> bufferOK b'
              \<and> width b' = width b \<and> height b' = height b"
proof -
  from clampPixel_range [OF assms(1,5)] assms(3,4)
  have "0 \<le> cx" "cx < int (width b1)" "0 \<le> cy" "cy < int (height b1)" by simp_all
  from rgb_add_ok [OF assms(2) this] assms(3,4) show ?thesis by simp
qed

lemma accumulateStep_ok:
  assumes ok: "bufferOK (accumulationBuffer process)"
  shows "stepOK (accumulateStep mutated u process)"
proof (cases "currentState process")
  case None
  then show ?thesis by (simp add: accumulateStep_def stepOK_def)
next
  case (Some st)
  show ?thesis
  proof (cases "clampPixel (pixel st) (accumulationBuffer process)")
    case (Inl e)
    with clampPixel_fault [OF ok Inl] Some show ?thesis
      by (simp add: accumulateStep_def stepOK_def Let_def)
  next
    case (Inr xy)
    obtain px py where xy: "xy = (px, py)" by (cases xy)
    note cl = Inr [unfolded xy]
    have self: "\<And>c q. stepOK (case rgb_add (accumulationBuffer process) (size_t_of_int px)
                     (size_t_of_int py) c of Inl e \<Rightarrow> Inl e
                   | Inr b \<Rightarrow> Inr (q\<lparr>accumulationBuffer := b\<rparr>))"
    proof -
      fix c q
      from write_after_clamp [OF ok ok refl refl cl, of c]
      show "stepOK (case rgb_add (accumulationBuffer process) (size_t_of_int px)
                     (size_t_of_int py) c of Inl e \<Rightarrow> Inl e
                   | Inr b \<Rightarrow> Inr (q\<lparr>accumulationBuffer := b\<rparr>))"
        by (auto simp: stepOK_def)
    qed
    show ?thesis
    proof (cases "fst mutated")
      case None
      with Some cl self show ?thesis
        by (simp add: accumulateStep_def Let_def)
    next
      case (Some info)
      note info = Some
      show ?thesis
      proof (cases "fless (luminance (radiance (evaluation (proposal info)))) Epsilon")
        case True
        with \<open>currentState process = Some st\<close> info cl self show ?thesis
          by (simp add: accumulateStep_def Let_def)
      next
        case False
        show ?thesis
        proof (cases "clampPixel (pixel (proposal info)) (accumulationBuffer process)")
          case (Inl e)
          with clampPixel_fault [OF ok Inl] \<open>currentState process = Some st\<close> info cl False
          show ?thesis
            by (simp add: accumulateStep_def stepOK_def Let_def)
        next
          case (Inr nxy)
          obtain newX newY where nxy: "nxy = (newX, newY)" by (cases nxy)
          note ncl = Inr [unfolded nxy]
          let ?c1 = "vscale (vdivs (radiance (evaluation st)) (luminance (radiance (evaluation st))))
                       (fsub (Fin 1) (acceptance info))"
          from write_after_clamp [OF ok ok refl refl cl, of ?c1]
          obtain b1 where b1: "rgb_add (accumulationBuffer process) (size_t_of_int px)
                (size_t_of_int py) ?c1 = Inr b1" "bufferOK b1"
                "width b1 = width (accumulationBuffer process)"
                "height b1 = height (accumulationBuffer process)" by blast
          let ?c2 = "vscale (vdivs (radiance (evaluation (proposal info)))
                       (luminance (radiance (evaluation (proposal info))))) (acceptance info)"
          from write_after_clamp [OF ok b1(2,3,4) ncl, of ?c2]
          obtain b2 where b2: "rgb_add b1 (size_t_of_int newX) (size_t_of_int newY) ?c2 = Inr b2"
              "bufferOK b2" by blast
          from \<open>currentState process = Some st\<close> info cl False ncl b1(1) b2 show ?thesis
            by (simp add: accumulateStep_def stepOK_def Let_def)
        qed
      qed
    qed
  qed
qed

lemma mutationLoop_ok:
  "bufferOK (accumulationBuffer process) \<Longrightarrow> stepOK (mutationLoop S M U i n process)"
proof (induction n arbitrary: i process)
  case 0
  then show ?case by (simp add: stepOK_def)
next
  case (Suc n)
  show ?case
  proof (cases "S i")
    case True
    with Suc.prems show ?thesis by (simp add: stepOK_def)
  next
    case False
    note running = False
    show ?thesis
    proof (cases "accumulateStep (M i process) (U i) process")
      case (Inl e)
      with accumulateStep_ok [OF Suc.prems, of "M i process" "U i"] running
      show ?thesis by (simp add: stepOK_def)
    next
      case (Inr process')
      with accumulateStep_ok [OF Suc.prems, of "M i process" "U i"]
      have "bufferOK (accumulationBuffer process')" by (simp add: stepOK_def)
      from Suc.IH [OF this, of "Suc i"] Inr running show ?thesis by simp
    qed
  qed
qed

text \<open>
  C10. On a buffer as the process constructs it, the mutation loop of
  \<open>MLTProcess::accumulate\<close> never writes outside the buffer and never fails the assertion
  of the pixel accessor, whatever the mutations propose, whatever the draws, and for every
  number of mutations: each write goes through \<open>clampPixel\<close> first.
\<close>

theorem accumulate_writes_in_bounds:
  assumes "bufferOK (accumulationBuffer process)"
  shows "accumulateMutations isStopping mutate rand numMutations process \<noteq> Inl OutOfBounds
       \<and> accumulateMutations isStopping mutate rand numMutations process \<noteq> Inl AssertionFailed"
  using mutationLoop_ok [OF assms, of isStopping mutate rand 0 numMutations]
  by (auto simp: accumulateMutations_def stepOK_def Let_def split: sum.splits)

theorem accumulate_writes_in_bounds_witness:
  "bufferOK (accumulationBuffer border_process)
   \<and> accumulateMutations (\<lambda>i. False) border_mutate (\<lambda>i. Fin 0) 1 border_process
       \<noteq> Inl OutOfBounds
   \<and> accumulateMutations (\<lambda>i. False) border_mutate (\<lambda>i. Fin 0) 1 border_process
       \<noteq> Inl AssertionFailed"
proof -
  have h: "bufferOK (accumulationBuffer border_process)"
    by (simp add: border_process_def MLTProcess_new_def Image_new_def bufferOK_def)
  from h accumulate_writes_in_bounds [OF h] show ?thesis by simp
qed

subsection \<open>Lengths of generated paths\<close>

lemma addBounce_result:
  assumes "addBounce intersect sampleDirection scene p inRay q g = Inr (r, p', g')"
  shows "length (m_path p') = length (m_path p)
       \<and> m_pathLength p' \<le> m_pathLength p + 1
       \<and> m_pathLength p \<le> m_pathLength p'
       \<and> (r \<noteq> None \<longrightarrow> m_pathLength p' = m_pathLength p + 1)"
  using assms
  by (auto simp: addBounce_def Path_push_def Let_def
           split: option.splits sum.splits if_splits prod.splits)

lemma addBounce_fault:
  assumes "m_pathLength p < length (m_path p)"
    and "addBounce intersect sampleDirection scene p inRay q g = Inl e"
  shows "e = AssertionFailed"
  using assms
  by (auto simp: addBounce_def Path_push_def getMaterial_def Let_def
           split: option.splits sum.splits if_splits prod.splits)

lemma eyePathLoop_length:
  assumes "length (m_path p) = MaxLength" "1 \<le> m_pathLength p" "m_pathLength p \<le> MaxLength"
  shows "case eyePathLoop intersect sampleDirection scene p ray g of
           Inl e \<Rightarrow> e = AssertionFailed
         | Inr (p', g') \<Rightarrow> 1 \<le> m_pathLength p' \<and> m_pathLength p' \<le> MaxLength"
  using assms
proof (induction intersect sampleDirection scene p ray g rule: eyePathLoop.induct)
  case (1 intersect sampleDirection scene p ray g)
  show ?case
  proof (cases "m_pathLength p < MaxLength")
    case False
    with "1.prems" show ?thesis by (simp add: eyePathLoop.simps [of _ _ _ p])
  next
    case True
    note lt = True
    show ?thesis
    proof (cases "addBounce intersect sampleDirection scene p ray (Some TerminationProbability) g")
      case (Inl e)
      from lt "1.prems"(1) have "m_pathLength p < length (m_path p)" by simp
      from addBounce_fault [OF this Inl] Inl lt show ?thesis
        by (simp add: eyePathLoop.simps [of _ _ _ p])
    next
      case (Inr res)
      obtain r p' g' where res: "res = (r, p', g')" by (cases res)
      note ab = Inr [unfolded res]
      note facts = addBounce_result [OF ab]
      show ?thesis
      proof (cases r)
        case None
        with ab lt facts "1.prems" show ?thesis
          by (simp add: eyePathLoop.simps [of _ _ _ p])
      next
        case (Some nextRay)
        with facts have len: "m_pathLength p' = m_pathLength p + 1" by simp
        have "case eyePathLoop intersect sampleDirection scene p' nextRay g' of
                Inl e \<Rightarrow> e = AssertionFailed
              | Inr (p', g') \<Rightarrow> 1 \<le> m_pathLength p' \<and> m_pathLength p' \<le> MaxLength"
          using "1.IH" [OF lt ab [unfolded Some] refl refl] facts "1.prems" len lt
          by simp
        with ab Some lt show ?thesis
          by (simp add: eyePathLoop.simps [of _ _ _ p])
      qed
    qed
  qed
qed


lemma createRandomLightPath_length:
  "case createRandomLightPath chooseTriangle scene g of
     Inl e \<Rightarrow> e = OutOfBounds \<and> lights scene \<noteq> []
   | Inr (p, g') \<Rightarrow> m_pathLength p = (if lights scene = [] then 0 else 1)"
  by (auto simp: createRandomLightPath_def chooseRandomVertexOnLight_def Path_push_def
        Path_new_def MaxLength_def Let_def
      split: sum.splits prod.splits if_splits Light.splits)

text \<open>
  C5, as the source has it. Whatever the ray caster and the direction sampler return, an eye
  path has at least 1 and at most \<open>MaxLength = 10\<close> vertices, and the construction never
  writes past the array (its only fault is the assertion of \<open>getMaterial\<close> on a material
  index that the scene does not have). A light path has exactly one vertex in a scene with
  a light and no vertex in a scene without lights.
\<close>

theorem generated_path_lengths:
  "(case createRandomEyePath intersect sampleDirection scene ray g of
      Inl e \<Rightarrow> e = AssertionFailed
    | Inr (p, g') \<Rightarrow> 1 \<le> m_pathLength p \<and> m_pathLength p \<le> MaxLength)
   \<and> (case createRandomLightPath chooseTriangle scene g of
         Inl e \<Rightarrow> e = OutOfBounds \<and> lights scene \<noteq> []
       | Inr (p, g') \<Rightarrow> m_pathLength p = (if lights scene = [] then 0 else 1))
   \<and> MaxLength = 10"
proof -
  have "case createRandomEyePath intersect sampleDirection scene ray g of
      Inl e \<Rightarrow> e = AssertionFailed
    | Inr (p, g') \<Rightarrow> 1 \<le> m_pathLength p \<and> m_pathLength p \<le> MaxLength"
    unfolding createRandomEyePath_def
    by (rule eyePathLoop_length) (simp_all add: Path_new_def MaxLength_def)
  with createRandomLightPath_length [where chooseTriangle = chooseTriangle and scene = scene and g = g] show ?thesis
    by (simp add: MaxLength_def)
qed

text \<open>In the scene without lights the light path has length 0, below the claimed bound.\<close>

theorem light_path_counterexample:
  "lights empty_scene = []
   \<and> map_sum id (\<lambda>r. m_pathLength (fst r))
        (createRandomLightPath (\<lambda>scene mi pri g. (0, g)) empty_scene Generator_default) = Inr 0"
  by (simp add: createRandomLightPath_def empty_scene_def Path_new_def)

subsection \<open>The order in which the children of a node are pushed\<close>

lemma two_ahead_distances:
  "distances (AABB4_intersect (childBounds two_ahead) x_ray) = Vec4 (Fin 1) (Fin 3) PInf PInf"
  by (simp add: AABB4_intersect_def two_ahead_def x_ray_def AABB4_of_def box_def v4_sub_div_def
      v4map2_def fsub_def fmin_def fmax_def inf_of_sign_def Let_def)

lemma two_ahead_isHit:
  "isHit (AABB4_intersect (childBounds two_ahead) x_ray) i = (i = 0 \<or> i = 1)"
  by (simp add: AABB4_intersect_def two_ahead_def x_ray_def AABB4_of_def box_def v4_sub_div_def
      v4map2_def fsub_def fmin_def fmax_def fle_def v4_at_def inf_of_sign_def Let_def)

lemma fless_irrefl [simp]: "\<not> fless a a"
  by (cases a) simp_all

lemma fless_trans: "fless a b \<Longrightarrow> fless b c \<Longrightarrow> fless a c"
  by (cases a; cases b; cases c) simp_all

lemma fless_total: "fless a PInf \<Longrightarrow> fless b PInf \<Longrightarrow> fless a b \<or> a = b \<or> fless b a"
  by (cases a; cases b) auto


lemma closestStep_inv:
  assumes inv: "bestInv hit dists S r" and lt: "\<forall>j\<in>S. j < i"
  shows "bestInv hit dists (insert i S) (closestStep hit dists r i)"
proof (cases r)
  case (Pair bi bd)
  show ?thesis
  proof (cases bi)
    case None
    with inv Pair show ?thesis
      by (auto simp: bestInv_def closestStep_def)
  next
    case (Some b)
    from inv have all: "b \<in> S \<and> hit b \<and> bd = v4_at dists b \<and> fless bd PInf
      \<and> (\<forall>j\<in>S. hit j \<and> fless (v4_at dists j) PInf \<and> j \<noteq> b \<longrightarrow>
                 fless bd (v4_at dists j) \<or> (bd = v4_at dists j \<and> b < j))"
      unfolding bestInv_def Pair Some by auto
    then have b: "b \<in> S" "hit b" "bd = v4_at dists b" "fless bd PInf"
      and rest: "\<forall>j\<in>S. hit j \<and> fless (v4_at dists j) PInf \<and> j \<noteq> b \<longrightarrow>
                 fless bd (v4_at dists j) \<or> (bd = v4_at dists j \<and> b < j)"
      by blast+
    from b(1) lt have bi: "b < i" by blast
    show ?thesis
    proof (cases "hit i \<and> fless (v4_at dists i) bd")
      case True
      then have new: "closestStep hit dists r i = (Some i, v4_at dists i)"
        by (simp add: closestStep_def Pair)
      from True b(4) have fin: "fless (v4_at dists i) PInf" by (blast intro: fless_trans)
      have "\<forall>j\<in>insert i S. hit j \<and> fless (v4_at dists j) PInf \<and> j \<noteq> i \<longrightarrow>
              fless (v4_at dists i) (v4_at dists j)"
      proof (intro ballI impI)
        fix j assume j: "j \<in> insert i S" "hit j \<and> fless (v4_at dists j) PInf \<and> j \<noteq> i"
        then have js: "j \<in> S" by simp
        show "fless (v4_at dists i) (v4_at dists j)"
        proof (cases "j = b")
          case True
          with \<open>hit i \<and> fless (v4_at dists i) bd\<close> b(3) show ?thesis by simp
        next
          case False
          with rest js j(2) have "fless bd (v4_at dists j) \<or> bd = v4_at dists j" by blast
          with \<open>hit i \<and> fless (v4_at dists i) bd\<close> show ?thesis
            by (auto intro: fless_trans)
        qed
      qed
      with True fin show ?thesis
        by (simp add: new bestInv_def)
    next
      case False
      then have old: "closestStep hit dists r i = (Some b, bd)"
        by (auto simp: closestStep_def Pair Some)
      have "\<forall>j\<in>insert i S. hit j \<and> fless (v4_at dists j) PInf \<and> j \<noteq> b \<longrightarrow>
              fless bd (v4_at dists j) \<or> (bd = v4_at dists j \<and> b < j)"
      proof (intro ballI impI)
        fix j assume j: "j \<in> insert i S" "hit j \<and> fless (v4_at dists j) PInf \<and> j \<noteq> b"
        show "fless bd (v4_at dists j) \<or> (bd = v4_at dists j \<and> b < j)"
        proof (cases "j = i")
          case True
          with j(2) False have "\<not> fless (v4_at dists i) bd" by simp
          moreover from j(2) True have "fless (v4_at dists i) PInf" by simp
          ultimately have "fless bd (v4_at dists i) \<or> bd = v4_at dists i"
            using fless_total [OF b(4), of "v4_at dists i"] by blast
          with True bi show ?thesis by blast
        next
          case False
          with j rest show ?thesis by blast
        qed
      qed
      with b show ?thesis
        by (simp add: old bestInv_def)
    qed
  qed
qed

lemma closest_foldl_inv:
  "bestInv hit dists S r \<Longrightarrow> \<forall>j\<in>S. \<forall>x\<in>set xs. j < x \<Longrightarrow> sorted_wrt (<) xs \<Longrightarrow>
   bestInv hit dists (S \<union> set xs) (foldl (closestStep hit dists) r xs)"
proof (induction xs arbitrary: S r)
  case Nil
  then show ?case by simp
next
  case (Cons x xs)
  from Cons.prems(2) have "\<forall>j\<in>S. j < x" by simp
  from closestStep_inv [OF Cons.prems(1) this]
  have st: "bestInv hit dists (insert x S) (closestStep hit dists r x)" .
  have "\<forall>j\<in>insert x S. \<forall>y\<in>set xs. j < y" using Cons.prems(2,3) by auto
  from Cons.IH [OF st this] Cons.prems(3) show ?case by simp
qed

lemma lanes: "{} \<union> set [0, 1, 2, 3] = {i::nat. i < 4}"
  by auto

lemma findClosest_inv: "bestInv hit dists {i. i < 4} (findClosest hit dists)"
proof -
  have "bestInv hit dists {} (None, PInf)" by (simp add: bestInv_def)
  from closest_foldl_inv [OF this, of "[0, 1, 2, 3]"]
  have "bestInv hit dists ({} \<union> set [0, 1, 2, 3]) (foldl (closestStep hit dists) (None, PInf) [0, 1, 2, 3])"
    by simp
  then show ?thesis
    unfolding lanes by (simp only: findClosest_def)
qed

lemma findClosest_Some:
  assumes "findClosest hit dists = (Some b, bd)"
  shows "selectable hit dists b \<and> bd = v4_at dists b
       \<and> (\<forall>j. selectable hit dists j \<and> j \<noteq> b \<longrightarrow>
              fless bd (v4_at dists j) \<or> (bd = v4_at dists j \<and> b < j))"
  using findClosest_inv [of hit dists] assms
  by (auto simp: bestInv_def selectable_def)

lemma findClosest_None:
  assumes "findClosest hit dists = (None, bd)"
  shows "\<not> selectable hit dists j"
  using findClosest_inv [of hit dists] assms
  by (auto simp: bestInv_def selectable_def)


lemma selectable_cleared:
  "selectable (hit(b := False)) dists l = (selectable hit dists l \<and> l \<noteq> b)"
  by (auto simp: selectable_def)

lemma pushedLanes_sound:
  "(l, x) \<in> set (pushedLanes k hit dists) \<Longrightarrow> selectable hit dists l \<and> x = v4_at dists l"
proof (induction k arbitrary: hit)
  case 0
  then show ?case by simp
next
  case (Suc k)
  show ?case
  proof (cases "findClosest hit dists")
    case (Pair bi bd)
    show ?thesis
    proof (cases bi)
      case None
      with Pair Suc.prems show ?thesis by simp
    next
      case (Some b)
      from findClosest_Some [OF Pair [unfolded Some]]
      have b: "selectable hit dists b" "bd = v4_at dists b" by blast+
      from Suc.prems Pair Some
      have "(l, x) = (b, bd) \<or> (l, x) \<in> set (pushedLanes k (hit(b := False)) dists)"
        by simp
      then show ?thesis
      proof
        assume "(l, x) = (b, bd)"
        with b show ?thesis by simp
      next
        assume "(l, x) \<in> set (pushedLanes k (hit(b := False)) dists)"
        then have "selectable (hit(b := False)) dists l \<and> x = v4_at dists l" by (rule Suc.IH)
        then show ?thesis unfolding selectable_cleared by blast
      qed
    qed
  qed
qed

lemma pushedLanes_nearToFar: "nearToFar (pushedLanes k hit dists)"
proof (induction k arbitrary: hit)
  case 0
  show ?case by simp
next
  case (Suc k)
  show ?case
  proof (cases "findClosest hit dists")
    case (Pair bi bd)
    show ?thesis
    proof (cases bi)
      case None
      with Pair show ?thesis by simp
    next
      case (Some b)
      note fc = findClosest_Some [OF Pair [unfolded Some]]
      show ?thesis
      proof (cases "pushedLanes k (hit(b := False)) dists")
        case Nil
        with Pair Some show ?thesis by simp
      next
        case (Cons e r)
        obtain l x where e: "e = (l, x)" by (cases e)
        from Cons e have "(l, x) \<in> set (pushedLanes k (hit(b := False)) dists)" by simp
        from pushedLanes_sound [OF this]
        have l: "selectable hit dists l" "l \<noteq> b" "x = v4_at dists l"
          by (simp_all add: selectable_cleared)
        with fc have "fless bd x \<or> (bd = x \<and> b < l)" by blast
        moreover have "nearToFar (pushedLanes k (hit(b := False)) dists)" by (rule Suc.IH)
        then have "nearToFar (e # r)" unfolding Cons .
        ultimately show ?thesis using Pair Some Cons e by simp
      qed
    qed
  qed
qed

lemma pushedLanes_distinct: "distinct (map fst (pushedLanes k hit dists))"
proof (induction k arbitrary: hit)
  case 0
  show ?case by simp
next
  case (Suc k)
  show ?case
  proof (cases "findClosest hit dists")
    case (Pair bi bd)
    show ?thesis
    proof (cases bi)
      case None
      with Pair show ?thesis by simp
    next
      case (Some b)
      have "b \<notin> fst ` set (pushedLanes k (hit(b := False)) dists)"
      proof
        assume "b \<in> fst ` set (pushedLanes k (hit(b := False)) dists)"
        then obtain x where "(b, x) \<in> set (pushedLanes k (hit(b := False)) dists)" by auto
        from pushedLanes_sound [OF this] show False by (simp add: selectable_cleared)
      qed
      moreover have "distinct (map fst (pushedLanes k (hit(b := False)) dists))"
        by (rule Suc.IH)
      ultimately show ?thesis using Pair Some by simp
    qed
  qed
qed

lemma pushedLanes_complete:
  "card {l. selectable hit dists l} \<le> k \<Longrightarrow> selectable hit dists l \<Longrightarrow>
   (l, v4_at dists l) \<in> set (pushedLanes k hit dists)"
proof (induction k arbitrary: hit)
  case 0
  have fin: "finite {l. selectable hit dists l}"
    by (rule finite_subset [of _ "{..<4}"]) (auto simp: selectable_def)
  with "0.prems" show ?case by auto
next
  case (Suc k)
  have fin: "finite {l. selectable hit dists l}"
    by (rule finite_subset [of _ "{..<4}"]) (auto simp: selectable_def)
  show ?case
  proof (cases "findClosest hit dists")
    case (Pair bi bd)
    show ?thesis
    proof (cases bi)
      case None
      from findClosest_None [OF Pair [unfolded None]] Suc.prems(2) show ?thesis by blast
    next
      case (Some b)
      from findClosest_Some [OF Pair [unfolded Some]]
      have b: "selectable hit dists b" "bd = v4_at dists b" by blast+
      show ?thesis
      proof (cases "l = b")
        case True
        with Pair Some b show ?thesis by simp
      next
        case False
        have "{l. selectable (hit(b := False)) dists l} = {l. selectable hit dists l} - {b}"
          by (auto simp: selectable_cleared)
        with fin b(1) Suc.prems(1)
        have "card {l. selectable (hit(b := False)) dists l} \<le> k" by simp
        moreover from False Suc.prems(2) have "selectable (hit(b := False)) dists l"
          by (simp add: selectable_cleared)
        ultimately have "(l, v4_at dists l) \<in> set (pushedLanes k (hit(b := False)) dists)"
          by (rule Suc.IH)
        with Pair Some show ?thesis by simp
      qed
    qed
  qed
qed

lemma contents_push:
  "m_size s \<le> length (m_data s) \<Longrightarrow> contents (stack_push s info) = contents s @ [info]"
  by (auto simp: contents_def stack_push_def take_Suc_conv_app_nth upd_conv_take_nth_drop)

lemma push_size_ok:
  "m_size s \<le> length (m_data s) \<Longrightarrow> m_size (stack_push s info) \<le> length (m_data (stack_push s info))"
  by (auto simp: stack_push_def)

lemma pushChildren_contents:
  "m_size s \<le> length (m_data s) \<Longrightarrow>
   contents (pushChildren k node hit dists s) =
     contents s @ map (\<lambda>e. \<lparr>si_idx = idx node + fst e, si_distance = snd e\<rparr>)
                      (pushedLanes k hit dists)"
proof (induction k arbitrary: hit s)
  case 0
  show ?case by simp
next
  case (Suc k)
  show ?case
  proof (cases "findClosest hit dists")
    case (Pair bi bd)
    show ?thesis
    proof (cases bi)
      case None
      with Pair show ?thesis by simp
    next
      case (Some b)
      let ?info = "\<lparr>si_idx = idx node + b, si_distance = bd\<rparr>"
      have "contents (pushChildren k node (hit(b := False)) dists (stack_push s ?info)) =
              contents (stack_push s ?info)
              @ map (\<lambda>e. \<lparr>si_idx = idx node + fst e, si_distance = snd e\<rparr>)
                    (pushedLanes k (hit(b := False)) dists)"
        by (rule Suc.IH) (rule push_size_ok [OF Suc.prems])
      with Pair Some contents_push [OF Suc.prems, of ?info] show ?thesis by simp
    qed
  qed
qed

text \<open>
  The order of the pushes. For every internal node, ray and stack, the branch pushes
  exactly the lanes that the four-box test reports as hit (with a distance below the
  initial \<open>+\<infinity>\<close> of the search), each once, in near-to-far order of their distances, the
  lower lane first among equal distances.
\<close>

theorem children_pushed_near_to_far:
  assumes "m_size s \<le> length (m_data s)"
  shows "contents (pushHitChildren node ray s) =
           contents s @ map (\<lambda>e. \<lparr>si_idx = idx node + fst e, si_distance = snd e\<rparr>)
             (pushedLanes 4 (isHit (AABB4_intersect (childBounds node) ray))
                            (distances (AABB4_intersect (childBounds node) ray)))
       \<and> nearToFar (pushedLanes 4 (isHit (AABB4_intersect (childBounds node) ray))
                                  (distances (AABB4_intersect (childBounds node) ray)))
       \<and> distinct (map fst (pushedLanes 4 (isHit (AABB4_intersect (childBounds node) ray))
                                  (distances (AABB4_intersect (childBounds node) ray))))
       \<and> set (pushedLanes 4 (isHit (AABB4_intersect (childBounds node) ray))
                            (distances (AABB4_intersect (childBounds node) ray)))
         = {(l, v4_at (distances (AABB4_intersect (childBounds node) ray)) l) | l.
              selectable (isHit (AABB4_intersect (childBounds node) ray))
                         (distances (AABB4_intersect (childBounds node) ray)) l}"
proof -
  let ?h = "isHit (AABB4_intersect (childBounds node) ray)"
  let ?d = "distances (AABB4_intersect (childBounds node) ray)"
  have fin: "finite {l. selectable ?h ?d l}"
    by (rule finite_subset [of _ "{..<4}"]) (auto simp: selectable_def)
  have "{l. selectable ?h ?d l} \<subseteq> {..<4}" by (auto simp: selectable_def)
  then have "card {l. selectable ?h ?d l} \<le> card {..<(4::nat)}"
    by (rule card_mono [rotated]) simp
  then have c: "card {l. selectable ?h ?d l} \<le> 4" by simp
  have "set (pushedLanes 4 ?h ?d) = {(l, v4_at ?d l) | l. selectable ?h ?d l}"
  proof (rule set_eqI)
    fix e :: "nat \<times> fl"
    obtain l x where e: "e = (l, x)" by (cases e)
    show "e \<in> set (pushedLanes 4 ?h ?d) \<longleftrightarrow> e \<in> {(l, v4_at ?d l) | l. selectable ?h ?d l}"
      using pushedLanes_sound [of l x 4 ?h ?d] pushedLanes_complete [OF c, of l]
      unfolding e by auto
  qed
  with pushChildren_contents [OF assms, of 4 node ?h ?d] pushedLanes_nearToFar [of 4 ?h ?d]
    pushedLanes_distinct [of 4 ?h ?d]
  show ?thesis by (simp add: pushHitChildren_def Let_def)
qed

theorem children_pushed_near_to_far_witness:
  "m_size stack_new \<le> length (m_data stack_new)
   \<and> nearToFar (pushedLanes 4 (isHit (AABB4_intersect (childBounds two_ahead) x_ray))
                              (distances (AABB4_intersect (childBounds two_ahead) x_ray)))"
proof -
  have h: "m_size stack_new \<le> length (m_data stack_new)" by (simp add: stack_new_def)
  from children_pushed_near_to_far [OF h, of two_ahead x_ray] h show ?thesis by blast
qed

text \<open>
  C3. The hit children are to be pushed so that the closer ones are popped, and so
  processed, before the farther ones. The selection loop (\<open>Find the next closest hit\<close>)
  pushes the nearest child first, and the stack is last-in first-out, so the farthest hit
  child is the next to be popped: for the node with one box at distance 1 (node 1) and one
  at distance 3 (node 2), the top of the stack after the branch is node 2, and node 1 comes
  only after it.
\<close>

theorem children_popped_far_to_near: "stack_top (pushHitChildren two_ahead x_ray stack_new) = \<lparr>si_idx = 2, si_distance = Fin 3\<rparr>
  \<and> stack_top (stack_pop (pushHitChildren two_ahead x_ray stack_new)) = \<lparr>si_idx = 1, si_distance = Fin 1\<rparr>
  \<and> stack_empty (stack_pop (stack_pop (pushHitChildren two_ahead x_ray stack_new)))"
proof -
  have i: "idx two_ahead = 1" by (simp add: two_ahead_def)
  show ?thesis
    by (simp add: pushHitChildren_def two_ahead_distances two_ahead_isHit Let_def findClosest_def closestStep_def
        v4_at_def numeral_nat stack_push_def stack_new_def i stack_top_def stack_pop_def
        stack_empty_def)
qed

subsection \<open>Fitting points and intersecting a ray through one of them\<close>

lemma fmax_Fin: "fmax (Fin a) (Fin b) = Fin (max a b)"
  by (simp add: fmax_def max_def)

lemma fmin_Fin: "fmin (Fin a) (Fin b) = Fin (min a b)"
  by (simp add: fmin_def min_def)

lemma ordered_Fin: "ordered (Fin a) (Fin b) = (Fin (min a b), Fin (max a b))"
  by (simp add: ordered_def min_def max_def)

lemma fit_new: "AABB_fit AABB_new (fin3 (x, y, z)) = box x x y y z z"
  by (simp add: AABB_fit_def AABB_new_def fin3_def box_def vsplat_def)

lemma fit_box:
  "AABB_fit (box a A b B c C) (fin3 (x, y, z)) =
     box (min a x) (max A x) (min b y) (max B y) (min c z) (max C z)"
  by (simp add: AABB_fit_def fin3_def box_def min_def max_def)

lemma fitted_fit: "fitted bx \<Longrightarrow> fitted (AABB_fit bx (fin3 q))"
proof (cases q)
  case (fields x y z)
  assume "fitted bx"
  then show ?thesis unfolding fitted_def [of bx]
  proof
    assume "bx = AABB_new"
    then have "AABB_fit bx (fin3 q) = box x x y y z z" by (simp add: fields fit_new)
    then show ?thesis unfolding fitted_def by blast
  next
    assume "\<exists>a A b B c C. bx = box a A b B c C"
    then obtain a A b B c C where "bx = box a A b B c C" by blast
    then have "AABB_fit bx (fin3 q) =
        box (min a x) (max A x) (min b y) (max B y) (min c z) (max C z)"
      by (simp add: fields fit_box)
    then show ?thesis unfolding fitted_def by blast
  qed
qed

lemma holds_self: "fitted bx \<Longrightarrow> holds (AABB_fit bx (fin3 q)) q"
proof (cases q)
  case (fields x y z)
  assume "fitted bx"
  then show ?thesis unfolding fitted_def
  proof
    assume "bx = AABB_new"
    then have "AABB_fit bx (fin3 q) = box x x y y z z" by (simp add: fields fit_new)
    then show ?thesis unfolding holds_def fields by fastforce
  next
    assume "\<exists>a A b B c C. bx = box a A b B c C"
    then obtain a A b B c C where "bx = box a A b B c C" by blast
    then have "AABB_fit bx (fin3 q) =
        box (min a x) (max A x) (min b y) (max B y) (min c z) (max C z)"
      by (simp add: fields fit_box)
    then show ?thesis unfolding holds_def fields by fastforce
  qed
qed

lemma holds_fit: "holds bx p \<Longrightarrow> holds (AABB_fit bx (fin3 q)) p"
proof (cases q)
  case (fields x y z)
  assume "holds bx p"
  then obtain a A b B c C where bx: "bx = box a A b B c C"
    and p: "a \<le> fst p" "fst p \<le> A" "b \<le> fst (snd p)" "fst (snd p) \<le> B"
       "c \<le> snd (snd p)" "snd (snd p) \<le> C"
    unfolding holds_def by blast
  have "AABB_fit bx (fin3 q) =
        box (min a x) (max A x) (min b y) (max B y) (min c z) (max C z)"
    by (simp add: bx fields fit_box)
  moreover from p have "min a x \<le> fst p" "fst p \<le> max A x" "min b y \<le> fst (snd p)"
    "fst (snd p) \<le> max B y" "min c z \<le> snd (snd p)" "snd (snd p) \<le> max C z" by simp_all
  ultimately show ?thesis unfolding holds_def by blast
qed

lemma holds_fold: "holds bx p \<Longrightarrow> holds (foldl AABB_fit bx (map fin3 ps)) p"
  by (induction ps arbitrary: bx) (simp_all add: holds_fit)

lemma fitted_point_held:
  "fitted bx \<Longrightarrow> p \<in> set ps \<Longrightarrow> holds (foldl AABB_fit bx (map fin3 ps)) p"
proof (induction ps arbitrary: bx)
  case Nil
  then show ?case by simp
next
  case (Cons q ps)
  show ?case
  proof (cases "p = q")
    case True
    with holds_self [OF Cons.prems(1), of q] show ?thesis by (simp add: holds_fold)
  next
    case False
    with Cons.prems(2) have "p \<in> set ps" by simp
    from Cons.IH [OF fitted_fit [OF Cons.prems(1)] this] show ?thesis by simp
  qed
qed


lemma round_even_ge: "\<lfloor>x\<rfloor> \<le> round_even x"
  by (simp add: round_even_def Let_def)

lemma round_even_nonneg: "0 \<le> x \<Longrightarrow> 0 \<le> round_even x"
  using round_even_ge [of x] by (simp add: order_trans [of 0 "\<lfloor>x\<rfloor>"])

lemma bit_length_0 [simp]: "bit_length 0 = 0"
  by (simp add: bit_length.simps)

lemma bit_length_Suc_0 [simp]: "bit_length (Suc 0) = 1"
  by (subst bit_length.simps) simp

lemma bit_length_Bit0 [simp]: "bit_length (numeral (Num.Bit0 k)) = 1 + bit_length (numeral k)"
  by (subst bit_length.simps) (simp add: numeral_Bit0_div_2)

lemma bit_length_Bit1 [simp]: "bit_length (numeral (Num.Bit1 k)) = 1 + bit_length (numeral k)"
  by (subst bit_length.simps) (simp add: numeral_Bit1_div_2)

lemma bit_length_lower: "0 < n \<Longrightarrow> 2 ^ (bit_length n - 1) \<le> n"
proof (induction n rule: bit_length.induct)
  case (1 n)
  show ?case
  proof (cases "n div 2 = 0")
    case True
    with "1.prems" have "n = 1" by presburger
    then show ?thesis by simp
  next
    case False
    with "1.IH" "1.prems" have ih: "2 ^ (bit_length (n div 2) - 1) \<le> n div 2" by simp
    from False have "0 < bit_length (n div 2)" by (simp add: bit_length.simps [of "n div 2"])
    then have "2 ^ bit_length (n div 2) = (2::nat) * 2 ^ (bit_length (n div 2) - 1)"
      by (cases "bit_length (n div 2)") simp_all
    with ih have "2 ^ bit_length (n div 2) \<le> 2 * (n div 2)" by simp
    also have "\<dots> \<le> n" by simp
    finally show ?thesis using "1.prems" by (simp add: bit_length.simps [of n])
  qed
qed

text \<open>The rounded magnitude is not negative, and at least one unit for a magnitude of one unit.\<close>

lemma magnitude_nonneg:
  fixes y :: real
  assumes "0 \<le> y"
  shows "0 \<le> of_int (round_even (y / 2 ^ k)) * (2::real) ^ k"
proof -
  from assms have "0 \<le> y / 2 ^ k" by simp
  from round_even_nonneg [OF this] show ?thesis by simp
qed

lemma magnitude_pos:
  fixes y :: real
  assumes "1 \<le> y"
  shows "0 < of_int (round_even (y / 2 ^ (bit_length (nat \<lfloor>y\<rfloor>) - 24)))
             * (2::real) ^ (bit_length (nat \<lfloor>y\<rfloor>) - 24)"
proof -
  define n where "n = nat \<lfloor>y\<rfloor>"
  define k where "k = bit_length n - 24"
  from assms have n: "0 < n" "real n \<le> y" by (simp_all add: n_def)
  have "k \<le> bit_length n - 1" by (simp add: k_def)
  then have "(2::nat) ^ k \<le> 2 ^ (bit_length n - 1)" by (rule power_increasing) simp
  also from bit_length_lower [OF n(1)] have "\<dots> \<le> n" .
  finally have "(2::nat) ^ k \<le> n" .
  have "(2::real) ^ k = real ((2::nat) ^ k)" by simp
  also from \<open>(2::nat) ^ k \<le> n\<close> have "\<dots> \<le> real n" by (rule of_nat_mono)
  also note n(2)
  finally have "(2::real) ^ k \<le> y" .
  then have "1 \<le> y / 2 ^ k" by (simp add: le_divide_eq)
  then have "1 \<le> \<lfloor>y / 2 ^ k\<rfloor>" by simp
  from this round_even_ge [of "y / 2 ^ k"] have "1 \<le> round_even (y / 2 ^ k)"
    by (rule order_trans)
  then have "0 < (of_int (round_even (y / 2 ^ k)) :: real)" by simp
  then show ?thesis unfolding k_def n_def by simp
qed

lemma float_round_nonpos: "x \<le> 0 \<Longrightarrow> nonpos (float_round x)"
proof -
  assume x: "x \<le> 0"
  define y where "y = \<bar>x\<bar> * 2 ^ 149"
  define k where "k = bit_length (nat \<lfloor>y\<rfloor>) - 24"
  define m where "m = of_int (round_even (y / 2 ^ k)) * (2::real) ^ k"
  have "0 \<le> y" by (simp add: y_def)
  from magnitude_nonneg [OF this] have m0: "0 \<le> m" by (simp add: m_def)
  have fr: "float_round x = (if 2 ^ 277 \<le> m then (if x < 0 then NInf else PInf)
                             else Fin (sgn x * m / 2 ^ 149))"
    by (simp add: float_round_def Let_def y_def k_def m_def)
  show ?thesis
  proof (cases "x = 0")
    case True
    then have "y = 0" by (simp add: y_def)
    then have "m = 0" by (simp add: m_def round_even_def)
    then have "float_round x = Fin 0" unfolding fr by simp
    then show ?thesis by (simp add: nonpos_def)
  next
    case False
    with x have neg: "x < 0" by simp
    then have "sgn x = - 1" by simp
    with m0 have "sgn x * m / 2 ^ 149 \<le> 0" by (simp add: divide_nonneg_nonneg)
    then have v: "sgn x * m / 2 ^ 149 \<le> 0" .
    show ?thesis
    proof (cases "2 ^ 277 \<le> m")
      case True
      with neg show ?thesis by (simp add: fr nonpos_def)
    next
      case False
      then have "float_round x = Fin (sgn x * m / 2 ^ 149)" unfolding fr by simp
      with v show ?thesis unfolding nonpos_def by blast
    qed
  qed
qed

lemma float_round_nonneg: "0 \<le> x \<Longrightarrow> nonneg (float_round x)"
proof -
  assume x: "0 \<le> x"
  define y where "y = \<bar>x\<bar> * 2 ^ 149"
  define k where "k = bit_length (nat \<lfloor>y\<rfloor>) - 24"
  define m where "m = of_int (round_even (y / 2 ^ k)) * (2::real) ^ k"
  have "0 \<le> y" by (simp add: y_def)
  from magnitude_nonneg [OF this] have m0: "0 \<le> m" by (simp add: m_def)
  have fr: "float_round x = (if 2 ^ 277 \<le> m then (if x < 0 then NInf else PInf)
                             else Fin (sgn x * m / 2 ^ 149))"
    by (simp add: float_round_def Let_def y_def k_def m_def)
  from x have "0 \<le> sgn x" by (simp add: sgn_if)
  with m0 have v: "0 \<le> sgn x * m / 2 ^ 149" by simp
  show ?thesis
  proof (cases "2 ^ 277 \<le> m")
    case True
    with x show ?thesis by (simp add: fr nonneg_def)
  next
    case False
    then have "float_round x = Fin (sgn x * m / 2 ^ 149)" unfolding fr by simp
    with v show ?thesis unfolding nonneg_def by blast
  qed
qed

text \<open>A difference of at least one unit is not rounded to zero.\<close>

lemma float_round_neg:
  assumes "x < 0" and "1 \<le> \<bar>x\<bar> * 2 ^ 149"
  shows "float_round x = NInf \<or> (\<exists>v. float_round x = Fin v \<and> v < 0)"
proof -
  define y where "y = \<bar>x\<bar> * 2 ^ 149"
  define k where "k = bit_length (nat \<lfloor>y\<rfloor>) - 24"
  define m where "m = of_int (round_even (y / 2 ^ k)) * (2::real) ^ k"
  from assms(2) have "1 \<le> y" by (simp add: y_def)
  from magnitude_pos [OF this] have m0: "0 < m" by (simp add: m_def k_def)
  have fr: "float_round x = (if 2 ^ 277 \<le> m then (if x < 0 then NInf else PInf)
                             else Fin (sgn x * m / 2 ^ 149))"
    by (simp add: float_round_def Let_def y_def k_def m_def)
  from assms(1) have "sgn x = - 1" by simp
  with m0 have v: "sgn x * m / 2 ^ 149 < 0" by simp
  show ?thesis
  proof (cases "2 ^ 277 \<le> m")
    case True
    with assms(1) show ?thesis by (simp add: fr)
  next
    case False
    then have "float_round x = Fin (sgn x * m / 2 ^ 149)" unfolding fr by simp
    with v show ?thesis by blast
  qed
qed

lemma float_round_pos:
  assumes "0 < x" and "1 \<le> \<bar>x\<bar> * 2 ^ 149"
  shows "float_round x = PInf \<or> (\<exists>v. float_round x = Fin v \<and> 0 < v)"
proof -
  define y where "y = \<bar>x\<bar> * 2 ^ 149"
  define k where "k = bit_length (nat \<lfloor>y\<rfloor>) - 24"
  define m where "m = of_int (round_even (y / 2 ^ k)) * (2::real) ^ k"
  from assms(2) have "1 \<le> y" by (simp add: y_def)
  from magnitude_pos [OF this] have m0: "0 < m" by (simp add: m_def k_def)
  have fr: "float_round x = (if 2 ^ 277 \<le> m then (if x < 0 then NInf else PInf)
                             else Fin (sgn x * m / 2 ^ 149))"
    by (simp add: float_round_def Let_def y_def k_def m_def)
  from assms(1) have "sgn x = 1" by simp
  with m0 have v: "0 < sgn x * m / 2 ^ 149" by simp
  show ?thesis
  proof (cases "2 ^ 277 \<le> m")
    case True
    with assms(1) show ?thesis by (simp add: fr)
  next
    case False
    then have "float_round x = Fin (sgn x * m / 2 ^ 149)" unfolding fr by simp
    with v show ?thesis by blast
  qed
qed

text \<open>A \<open>float\<close> value is a whole number of units.\<close>

lemma is_float_units: "is_float x \<Longrightarrow> \<exists>j::int. x * 2 ^ 149 = of_int j"
proof -
  assume f: "is_float x"
  define y where "y = \<bar>x\<bar> * 2 ^ 149"
  define k where "k = bit_length (nat \<lfloor>y\<rfloor>) - 24"
  define r where "r = round_even (y / 2 ^ k)"
  have fr: "float_round x = (if 2 ^ 277 \<le> of_int r * (2::real) ^ k
                             then (if x < 0 then NInf else PInf)
                             else Fin (sgn x * (of_int r * 2 ^ k) / 2 ^ 149))"
    by (simp add: float_round_def Let_def y_def k_def r_def)
  from f have "x = sgn x * (of_int r * 2 ^ k) / 2 ^ 149"
    unfolding is_float_def fr by (simp split: if_splits)
  then have x: "x * 2 ^ 149 = sgn x * (of_int r * 2 ^ k)" by simp
  have "sgn x = of_int (if x < 0 then - 1 else if x = 0 then 0 else 1)" by (simp add: sgn_if)
  then have "sgn x * (of_int r * 2 ^ k)
             = of_int ((if x < 0 then - 1 else if x = 0 then 0 else 1) * (r * 2 ^ k))"
    by simp
  with x show ?thesis by metis
qed

lemma float_gap:
  assumes "is_float a" "is_float b" "a < b"
  shows "1 \<le> \<bar>a - b\<bar> * 2 ^ 149"
proof -
  from is_float_units [OF assms(1)] obtain i :: int where i: "a * 2 ^ 149 = of_int i" by blast
  from is_float_units [OF assms(2)] obtain j :: int where j: "b * 2 ^ 149 = of_int j" by blast
  from assms(3) have "a * 2 ^ 149 < b * 2 ^ 149" by simp
  then have "(of_int i :: real) < of_int j" unfolding i j .
  then have "i < j" by simp
  then have "1 \<le> j - i" by simp
  then have "(1::real) \<le> of_int (j - i)" by (simp only: of_int_1_le_iff)
  also have "\<dots> = of_int j - of_int i" by simp
  also have "\<dots> = b * 2 ^ 149 - a * 2 ^ 149" by (simp only: i j)
  also have "\<dots> = (b - a) * 2 ^ 149" by (simp add: algebra_simps)
  also from assms(3) have "\<dots> = \<bar>a - b\<bar> * 2 ^ 149" by simp
  finally show ?thesis .
qed

text \<open>The comparisons on values that are not positive and values that are not negative.\<close>

lemma nonpos_fmax: "nonpos a \<Longrightarrow> nonpos b \<Longrightarrow> nonpos (fmax a b)"
  by (auto simp: nonpos_def fmax_def)

lemma nonneg_fmin: "nonneg a \<Longrightarrow> nonneg b \<Longrightarrow> nonneg (fmin a b)"
  by (auto simp: nonneg_def fmin_def)

lemma nonpos_nonneg_order: "nonpos a \<Longrightarrow> nonneg b \<Longrightarrow> \<not> fless b a \<and> \<not> fless b (Fin 0)"
  by (auto simp: nonpos_def nonneg_def)

lemma nonpos_fle: "nonpos a \<Longrightarrow> fle a (Fin 0)"
  by (auto simp: nonpos_def fle_def)

lemma fround_nonpos: "nonpos a \<Longrightarrow> nonpos (fround a)"
proof (cases a)
  case (Fin v)
  assume "nonpos a"
  with Fin have "v \<le> 0" by (simp add: nonpos_def)
  from float_round_nonpos [OF this] Fin show ?thesis by (simp add: fround_def)
qed (simp_all add: fround_def)

lemma fround_nonneg: "nonneg a \<Longrightarrow> nonneg (fround a)"
proof (cases a)
  case (Fin v)
  assume "nonneg a"
  with Fin have "0 \<le> v" by (simp add: nonneg_def)
  from float_round_nonneg [OF this] Fin show ?thesis by (simp add: fround_def)
qed (simp_all add: fround_def)

lemma fdiv_pos:
  assumes "0 < d"
  shows "nonpos a \<Longrightarrow> nonpos (fdiv a (Fin d))" and "nonneg a \<Longrightarrow> nonneg (fdiv a (Fin d))"
  using assms by (auto simp: nonpos_def nonneg_def inf_of_sign_def divide_nonpos_pos)

lemma fdiv_neg:
  assumes "d < 0"
  shows "nonpos a \<Longrightarrow> nonneg (fdiv a (Fin d))" and "nonneg a \<Longrightarrow> nonpos (fdiv a (Fin d))"
  using assms
  by (auto simp: nonpos_def nonneg_def inf_of_sign_def divide_nonpos_neg divide_nonneg_neg)

text \<open>One axis of the slab test for an origin between the bounds.\<close>

lemma axis_from_inside:
  assumes w: "betweenBounds lo hi orig dir"
    and f: "is_float lo" "is_float hi" "is_float orig"
  shows "\<exists>t1 t2. ordered (fdiv_r z (fsub_r (Fin lo) (Fin orig)) (Fin dir))
                          (fdiv_r z (fsub_r (Fin hi) (Fin orig)) (Fin dir)) = (t1, t2)
                 \<and> nonpos t1 \<and> nonneg t2"
proof -
  define a where "a = fsub_r (Fin lo) (Fin orig)"
  define b where "b = fsub_r (Fin hi) (Fin orig)"
  from w have le: "lo - orig \<le> 0" "0 \<le> hi - orig" by (simp_all add: betweenBounds_def)
  have a_eq: "a = float_round (lo - orig)" and b_eq: "b = float_round (hi - orig)"
    by (simp_all add: a_def b_def fsub_r_def fsub_def fround_def)
  from float_round_nonpos [OF le(1)] have na: "nonpos a" by (simp add: a_eq)
  from float_round_nonneg [OF le(2)] have nb: "nonneg b" by (simp add: b_eq)
  consider (pos) "0 < dir" | (neg) "dir < 0" | (zero) "dir = 0" by linarith
  then have "\<exists>t1 t2. ordered (fdiv_r z a (Fin dir)) (fdiv_r z b (Fin dir)) = (t1, t2)
                 \<and> nonpos t1 \<and> nonneg t2"
  proof cases
    case pos
    from pos have x: "nonpos (fdiv_r z a (Fin dir))"
      by (simp add: fdiv_r_def fround_nonpos fdiv_pos(1) [OF pos na])
    from pos have y: "nonneg (fdiv_r z b (Fin dir))"
      by (simp add: fdiv_r_def fround_nonneg fdiv_pos(2) [OF pos nb])
    from nonpos_nonneg_order [OF x y] x y show ?thesis by (simp add: ordered_def)
  next
    case neg
    from neg have x: "nonneg (fdiv_r z a (Fin dir))"
      by (simp add: fdiv_r_def fround_nonneg fdiv_neg(1) [OF neg na])
    from neg have y: "nonpos (fdiv_r z b (Fin dir))"
      by (simp add: fdiv_r_def fround_nonpos fdiv_neg(2) [OF neg nb])
    show ?thesis
    proof (cases "fless (fdiv_r z b (Fin dir)) (fdiv_r z a (Fin dir))")
      case True
      with x y show ?thesis by (simp add: ordered_def)
    next
      case False
      with x y have "fdiv_r z a (Fin dir) = Fin 0" "fdiv_r z b (Fin dir) = Fin 0"
        by (auto simp: nonpos_def nonneg_def)
      then show ?thesis by (simp add: ordered_def nonpos_def nonneg_def)
    qed
  next
    case zero
    with w have lt: "lo < orig" "orig < hi" by (simp_all add: betweenBounds_def)
    from float_gap [OF f(1) f(3) lt(1)] lt(1)
    have "a = NInf \<or> (\<exists>v. a = Fin v \<and> v < 0)"
      unfolding a_eq by (intro float_round_neg) simp_all
    then have qa: "fdiv a (Fin 0) = NInf" by (auto simp: inf_of_sign_def)
    from float_gap [OF f(3) f(2) lt(2)] lt(2)
    have "1 \<le> \<bar>hi - orig\<bar> * 2 ^ 149" by (simp add: abs_minus_commute)
    with lt(2) have "b = PInf \<or> (\<exists>v. b = Fin v \<and> 0 < v)"
      unfolding b_eq by (intro float_round_pos) simp_all
    then have qb: "fdiv b (Fin 0) = PInf" by (auto simp: inf_of_sign_def)
    from zero qa qb show ?thesis
      by (cases z) (simp_all add: fdiv_r_def ordered_def nonpos_def nonneg_def)
  qed
  then show ?thesis unfolding a_def b_def .
qed

text \<open>The bounds of a box fitted to \<open>float\<close> points are \<open>float\<close> values.\<close>

lemma floatBox_fit: "floatBox bx \<Longrightarrow> float3 q \<Longrightarrow> floatBox (AABB_fit bx (fin3 q))"
proof (cases q)
  case (fields x y z)
  assume fb: "floatBox bx" and fq: "float3 q"
  from fq have q: "is_float x" "is_float y" "is_float z" by (simp_all add: float3_def fields)
  from fb show ?thesis unfolding floatBox_def [of bx]
  proof
    assume "bx = AABB_new"
    then have "AABB_fit bx (fin3 q) = box x x y y z z" by (simp add: fields fit_new)
    with q show ?thesis unfolding floatBox_def by blast
  next
    assume "\<exists>a A b B c C. bx = box a A b B c C
       \<and> is_float a \<and> is_float A \<and> is_float b \<and> is_float B \<and> is_float c \<and> is_float C"
    then obtain a A b B c C where bx: "bx = box a A b B c C"
      and fl: "is_float a" "is_float A" "is_float b" "is_float B" "is_float c" "is_float C"
      by blast
    have "AABB_fit bx (fin3 q) =
        box (min a x) (max A x) (min b y) (max B y) (min c z) (max C z)"
      by (simp add: bx fields fit_box)
    moreover from fl q have "is_float (min a x)" "is_float (max A x)" "is_float (min b y)"
      "is_float (max B y)" "is_float (min c z)" "is_float (max C z)"
      by (simp_all add: min_def max_def)
    ultimately show ?thesis unfolding floatBox_def by blast
  qed
qed

lemma floatBox_fold:
  "floatBox bx \<Longrightarrow> \<forall>p\<in>set ps. float3 p \<Longrightarrow> floatBox (foldl AABB_fit bx (map fin3 ps))"
  by (induction ps arbitrary: bx) (simp_all add: floatBox_fit)

lemma box_inject:
  "box a A b B c C = box a' A' b' B' c' C'
   \<longleftrightarrow> a = a' \<and> A = A' \<and> b = b' \<and> B = B' \<and> c = c' \<and> C = C'"
  by (auto simp: box_def)

lemma box_not_new: "box a A b B c C \<noteq> AABB_new"
  by (simp add: box_def AABB_new_def vsplat_def)

lemma inside_hit:
  assumes fb: "floatBox bx" and fo: "float3 orig" and ins: "startsInside bx orig dir"
  shows "\<exists>t. AABB_intersect negZero bx \<lparr>ray_o = fin3 orig, ray_d = fin3 dir\<rparr> = Some t
             \<and> fle t (Fin 0)"
proof -
  obtain ox oy oz where o: "orig = (ox, oy, oz)" by (cases orig)
  obtain dx dy dz where d: "dir = (dx, dy, dz)" by (cases dir)
  obtain zx zy zz where z: "negZero = (zx, zy, zz)" by (cases negZero)
  from ins obtain a A b B c C where bx: "bx = box a A b B c C"
    and w: "betweenBounds a A ox dx" "betweenBounds b B oy dy" "betweenBounds c C oz dz"
    unfolding startsInside_def o d by auto
  from fb have fl: "is_float a" "is_float A" "is_float b" "is_float B" "is_float c"
    "is_float C"
    unfolding floatBox_def bx by (auto simp: box_inject box_not_new)
  from fo have fo': "is_float ox" "is_float oy" "is_float oz" by (simp_all add: float3_def o)
  from axis_from_inside [OF w(1) fl(1,2) fo'(1), of zx] obtain x1 x2 where
    x: "ordered (fdiv_r zx (fsub_r (Fin a) (Fin ox)) (Fin dx))
                (fdiv_r zx (fsub_r (Fin A) (Fin ox)) (Fin dx)) = (x1, x2)"
    "nonpos x1" "nonneg x2" by blast
  from axis_from_inside [OF w(2) fl(3,4) fo'(2), of zy] obtain y1 y2 where
    y: "ordered (fdiv_r zy (fsub_r (Fin b) (Fin oy)) (Fin dy))
                (fdiv_r zy (fsub_r (Fin B) (Fin oy)) (Fin dy)) = (y1, y2)"
    "nonpos y1" "nonneg y2" by blast
  from axis_from_inside [OF w(3) fl(5,6) fo'(3), of zz] obtain z1 z2 where
    zs: "ordered (fdiv_r zz (fsub_r (Fin c) (Fin oz)) (Fin dz))
                 (fdiv_r zz (fsub_r (Fin C) (Fin oz)) (Fin dz)) = (z1, z2)"
    "nonpos z1" "nonneg z2" by blast
  have s: "slabs negZero bx \<lparr>ray_o = fin3 orig, ray_d = fin3 dir\<rparr>
           = (fmax (fmax x1 y1) z1, fmin (fmin x2 y2) z2)"
    by (simp add: slabs_def z bx box_def o d fin3_def x(1) y(1) zs(1))
  have n1: "nonpos (fmax (fmax x1 y1) z1)"
    by (intro nonpos_fmax x y zs)
  have n2: "nonneg (fmin (fmin x2 y2) z2)"
    by (intro nonneg_fmin x y zs)
  from nonpos_nonneg_order [OF n1 n2]
  have "AABB_intersect negZero bx \<lparr>ray_o = fin3 orig, ray_d = fin3 dir\<rparr>
        = Some (fmax (fmax x1 y1) z1)"
    by (simp add: AABB_intersect_def s)
  with nonpos_fle [OF n1] show ?thesis by blast
qed

lemma holds_inside: "holds bx p \<Longrightarrow> nonzero3 dir \<Longrightarrow> startsInside bx p dir"
  unfolding holds_def startsInside_def nonzero3_def betweenBounds_def
  by (cases dir) auto

text \<open>
  C7, as the source has it, with the rounding of every difference and quotient. Fit any
  points with \<open>float\<close> coordinates into a new box. A ray whose origin, with \<open>float\<close>
  coordinates, lies in the box (strictly between the bounds on an axis where its direction
  is zero) is a hit, and the value returned is not positive. A ray that starts at one of
  the fitted points with a direction without zero component is such a ray. For every box
  and ray, the test returns \<open>t1\<close> exactly when \<open>t1 > t2\<close> is false and \<open>t1\<close> and \<open>t2\<close> are not
  both negative.
\<close>

theorem ray_from_inside_is_hit:
  assumes "\<forall>p\<in>set ps. float3 p" and "float3 orig"
  shows "(startsInside (foldl AABB_fit AABB_new (map fin3 ps)) orig dir \<longrightarrow>
            (\<exists>t. AABB_intersect negZero (foldl AABB_fit AABB_new (map fin3 ps))
                    \<lparr>ray_o = fin3 orig, ray_d = fin3 dir\<rparr> = Some t \<and> fle t (Fin 0)))
       \<and> (orig \<in> set ps \<and> nonzero3 dir \<longrightarrow>
            startsInside (foldl AABB_fit AABB_new (map fin3 ps)) orig dir)
       \<and> AABB_intersect z b ray =
           (if fless (snd (slabs z b ray)) (fst (slabs z b ray))
               \<or> (fless (fst (slabs z b ray)) (Fin 0) \<and> fless (snd (slabs z b ray)) (Fin 0))
            then None else Some (fst (slabs z b ray)))"
proof (intro conjI impI)
  have "floatBox AABB_new" by (simp add: floatBox_def)
  from floatBox_fold [OF this assms(1)]
  have fb: "floatBox (foldl AABB_fit AABB_new (map fin3 ps))" .
  assume "startsInside (foldl AABB_fit AABB_new (map fin3 ps)) orig dir"
  from inside_hit [OF fb assms(2) this]
  show "\<exists>t. AABB_intersect negZero (foldl AABB_fit AABB_new (map fin3 ps))
                    \<lparr>ray_o = fin3 orig, ray_d = fin3 dir\<rparr> = Some t \<and> fle t (Fin 0)" .
next
  assume a: "orig \<in> set ps \<and> nonzero3 dir"
  have "fitted AABB_new" by (simp add: fitted_def)
  from fitted_point_held [OF this] a
  have "holds (foldl AABB_fit AABB_new (map fin3 ps)) orig" by blast
  with a show "startsInside (foldl AABB_fit AABB_new (map fin3 ps)) orig dir"
    by (simp add: holds_inside)
next
  show "AABB_intersect z b ray =
           (if fless (snd (slabs z b ray)) (fst (slabs z b ray))
               \<or> (fless (fst (slabs z b ray)) (Fin 0) \<and> fless (snd (slabs z b ray)) (Fin 0))
            then None else Some (fst (slabs z b ray)))"
    by (cases "slabs z b ray") (simp add: AABB_intersect_def)
qed

lemmas round_defs = float_round_def round_even_def Let_def

lemma small_floats:
  "is_float 0" "is_float 1" "is_float 2" "is_float 3" "is_float (- 2)"
  "is_float (14680073 / 2097152)" "is_float (6291459 / 2097152)"
  by (simp_all add: is_float_def round_defs)

lemma rounded_values:
  "float_round (- 1) = Fin (- 1)" "float_round 1 = Fin 1" "float_round 2 = Fin 2"
  "float_round 3 = Fin 3" "float_round (- (1 / 2)) = Fin (- (1 / 2))"
  "float_round (18874377 / 2097152) = Fin (2359297 / 262144)"
  "float_round (18874376 / 6291459) = Fin (12582911 / 4194304)" "float_round 0 = Fin 0"
  by (simp_all add: round_defs)

lemmas slab_defs = AABB_intersect_def slabs_def box_def fin3_def fsub_r_def fdiv_r_def
  fsub_def fround_def ordered_def fmax_def fmin_def inf_of_sign_def positive_zeros_def

lemma two_points_box: "foldl AABB_fit AABB_new (map fin3 two_points) = box 0 2 0 3 0 3"
  by (simp add: two_points_def fit_new fit_box)

lemma one_point_box:
  "foldl AABB_fit AABB_new (map fin3 one_point)
   = box (14680073 / 2097152) (14680073 / 2097152) 3 3 3 3"
  by (simp add: one_point_def fit_new)

lemma inner_ray_value:
  "AABB_intersect positive_zeros (box 0 2 0 3 0 3) inner_ray = Some (Fin (- 1 / 2))"
  by (simp add: inner_ray_def slab_defs rounded_values)

lemma outer_ray_value:
  "AABB_intersect positive_zeros (box (14680073 / 2097152) (14680073 / 2097152) 3 3 3 3)
     outer_ray = None"
  by (simp add: outer_ray_def slab_defs rounded_values)

lemma y_ray_value: "AABB_intersect positive_zeros (box 0 2 0 3 0 3) y_ray = Some NaN"
  by (simp add: y_ray_def slab_defs rounded_values)

lemma xz_ray_value: "AABB_intersect (False, True, False) (box 0 2 0 3 0 3) xz_ray = None"
  by (simp add: xz_ray_def slab_defs rounded_values)

theorem ray_from_inside_is_hit_witness:
  "float3 (0, 0, 0) \<and> float3 (2, 3, 3) \<and> float3 (1, 1, 1)
   \<and> startsInside (foldl AABB_fit AABB_new (map fin3 two_points)) (1, 1, 1) (1, 2, 2)
   \<and> (\<exists>t. AABB_intersect positive_zeros (foldl AABB_fit AABB_new (map fin3 two_points))
             inner_ray = Some t \<and> fle t (Fin 0))"
proof -
  have f: "float3 (0, 0, 0)" "float3 (2, 3, 3)" "float3 (1, 1, 1)"
    by (simp_all add: float3_def small_floats)
  then have h1: "\<forall>p\<in>set two_points. float3 p" by (simp add: two_points_def)
  have h2: "startsInside (foldl AABB_fit AABB_new (map fin3 two_points)) (1, 1, 1) (1, 2, 2)"
    unfolding startsInside_def two_points_box
    by (rule exI [of _ 0], rule exI [of _ 2], rule exI [of _ 0], rule exI [of _ 3],
        rule exI [of _ 0], rule exI [of _ 3]) (simp add: betweenBounds_def)
  from ray_from_inside_is_hit [OF h1 f(3), of "(1, 2, 2)" positive_zeros] h2
  have "\<exists>t. AABB_intersect positive_zeros (foldl AABB_fit AABB_new (map fin3 two_points))
             inner_ray = Some t \<and> fle t (Fin 0)"
    unfolding inner_ray_def by blast
  with f h2 show ?thesis by blast
qed

text \<open>
  The claim fails in three ways. The ray from \<open>(1, 1, 1)\<close> reaches the fitted point
  \<open>(2, 3, 3)\<close> at \<open>t = 1\<close> and starts inside the box: it is a hit, and the value returned is
  the entry \<open>-1/2\<close> behind the origin. The ray from \<open>(-2, 0, 0)\<close> passes at \<open>t = 3\<close> through
  the only point of a box, but the rounded quotient of the \<open>x\<close> axis is \<open>3 - 2^-22\<close> against
  3 on the two other axes, so the slab intervals do not overlap and no hit is returned.
  A ray that starts at the fitted corner \<open>(0, 0, 0)\<close> along \<open>y\<close> is a hit whose value is
  NaN (from \<open>0 / 0\<close> on the \<open>x\<close> axis), and one along \<open>(1, -0.0, 1)\<close> is not a hit.
\<close>

theorem ray_through_fitted_point_counterexample:
  "rayAt (1, 1, 1) (1, 2, 2) 1 \<in> set two_points
   \<and> AABB_intersect positive_zeros (foldl AABB_fit AABB_new (map fin3 two_points)) inner_ray
       = Some (Fin (- 1 / 2))
   \<and> fless (Fin (- 1 / 2)) (Fin 0)
   \<and> float3 (14680073 / 2097152, 3, 3) \<and> float3 (- 2, 0, 0)
   \<and> float3 (6291459 / 2097152, 1, 1)
   \<and> rayAt (- 2, 0, 0) (6291459 / 2097152, 1, 1) 3 \<in> set one_point
   \<and> AABB_intersect positive_zeros (foldl AABB_fit AABB_new (map fin3 one_point)) outer_ray
       = None
   \<and> (0, 0, 0) \<in> set two_points
   \<and> AABB_intersect positive_zeros (foldl AABB_fit AABB_new (map fin3 two_points)) y_ray
       = Some NaN
   \<and> AABB_intersect (False, True, False) (foldl AABB_fit AABB_new (map fin3 two_points))
        xz_ray = None"
proof -
  have "rayAt (1, 1, 1) (1, 2, 2) 1 \<in> set two_points" "(0, 0, 0) \<in> set two_points"
    "rayAt (- 2, 0, 0) (6291459 / 2097152, 1, 1) 3 \<in> set one_point"
    by (simp_all add: rayAt_def two_points_def one_point_def)
  moreover have "float3 (14680073 / 2097152, 3, 3)" "float3 (- 2, 0, 0)"
    "float3 (6291459 / 2097152, 1, 1)"
    by (simp_all add: float3_def small_floats)
  ultimately show ?thesis
    by (simp add: two_points_box one_point_box inner_ray_value outer_ray_value y_ray_value
        xz_ray_value)
qed

subsection \<open>The factor of an explicit connection inside a path\<close>

lemma pi_f_nonzero: "pi_f \<noteq> 0"
  by (simp add: pi_f_def)

lemmas vec_defs = vsub_def vadd_def vmul_def vscale_def vdivs_def vsplat_def vdot_def vlength_def
  vnormalize_def vneg_def v4xyz_def fsub_def fmax_def

lemmas scene_defs = textured_scene_def plain_material_def textured_material_def
  DefaultMaterialData_def getMaterial_def explicit_path_def path_vertex_def Vertex_zero_def

lemmas texture_defs = sampleTexture_def rgb_strip_def Image_empty_def wrapTexel_def
  fl_of_nat_def size_t_of_int_def rgb_def rgb_offset_def valid_def

lemma code_factor:
  "evaluateExplicit textured_scene (explicit_path ! 0) (explicit_path ! 1) (explicit_path ! 2)
     (explicit_path ! 3) = Inr (Vec3 (Fin (1 / (4 * pi_f * pi_f))) (Fin 0) (Fin 0))"
  by (simp add: evaluateExplicit_def bindF_def bsdf_def PI_def pi_f_nonzero Let_def
      vec_defs scene_defs texture_defs)














subsection \<open>The node array after construction\<close>

lemma halfArea_new: "halfArea AABB_new = PInf"
  by (simp add: halfArea_def AABB_getSize_def AABB_new_def vsplat_def v3_at_def fsub_def
      inf_of_sign_def Let_def)

lemma fadd_NaN_right [simp]: "fadd a NaN = NaN"
  by (cases a) simp_all

lemma evaluateSplit_loop:
  "foldl (evaluateSplitStep ts cs first ax pos) (AABB_new, AABB_new, 0) [0..<n] = (lb, rb, nl)
   \<Longrightarrow> nl \<le> n \<and> (nl = 0 \<longrightarrow> lb = AABB_new) \<and> (nl = n \<longrightarrow> rb = AABB_new)"
proof (induction n arbitrary: lb rb nl)
  case 0
  then show ?case by simp
next
  case (Suc n)
  obtain lb0 rb0 nl0 where
    prev: "foldl (evaluateSplitStep ts cs first ax pos) (AABB_new, AABB_new, 0) [0..<n]
             = (lb0, rb0, nl0)"
    by (cases "foldl (evaluateSplitStep ts cs first ax pos) (AABB_new, AABB_new, 0) [0..<n]")
      auto
  from Suc.IH [OF prev]
  have ih: "nl0 \<le> n" "nl0 = 0 \<longrightarrow> lb0 = AABB_new" "nl0 = n \<longrightarrow> rb0 = AABB_new" by simp_all
  from Suc.prems prev
  have "evaluateSplitStep ts cs first ax pos (lb0, rb0, nl0) n = (lb, rb, nl)" by simp
  with ih show ?case
    by (auto simp: evaluateSplitStep_def split: if_splits)
qed

lemma evaluateSplit_good:
  assumes "fless (fadd (leftCost (evaluateSplit ts cs first num ax pos))
                       (rightCost (evaluateSplit ts cs first num ax pos))) bestCost"
  shows "good num (evaluateSplit ts cs first num ax pos)"
proof -
  obtain lb rb nl where
    l: "foldl (evaluateSplitStep ts cs first ax pos) (AABB_new, AABB_new, 0) [0..<num]
          = (lb, rb, nl)"
    by (cases "foldl (evaluateSplitStep ts cs first ax pos) (AABB_new, AABB_new, 0) [0..<num]")
      auto
  note inv = evaluateSplit_loop [OF l]
  have e: "evaluateSplit ts cs first num ax pos =
            \<lparr>axis = ax, splitPosition = pos, leftBBox = lb, rightBBox = rb,
             numLeft = nl, numRight = num - nl,
             leftCost = fmul (fl_of_nat nl) (halfArea lb),
             rightCost = fmul (fl_of_nat (num - nl)) (halfArea rb)\<rparr>"
    by (simp add: evaluateSplit_def l)
  have "nl \<noteq> 0"
  proof
    assume z: "nl = 0"
    with inv have "lb = AABB_new" by simp
    with z have "leftCost (evaluateSplit ts cs first num ax pos) = NaN"
      by (simp add: e halfArea_new fl_of_nat_def inf_of_sign_def)
    with assms show False by simp
  qed
  moreover have "nl \<noteq> num"
  proof
    assume z: "nl = num"
    with inv have "rb = AABB_new" by simp
    with z have "rightCost (evaluateSplit ts cs first num ax pos) = NaN"
      by (simp add: e halfArea_new fl_of_nat_def inf_of_sign_def)
    with assms show False by simp
  qed
  ultimately show ?thesis using inv by (simp add: good_def e)
qed

lemma search_inv:
  "bs = None \<or> (\<exists>info. bs = Some info \<and> good num info) \<Longrightarrow>
   snd (foldl (searchStep gs gm ts cs first num) (bc, bs) xs) = Some info \<Longrightarrow>
   good num info"
proof (induction xs arbitrary: bc bs)
  case Nil
  then show ?case by auto
next
  case (Cons x xs)
  obtain ax k where x: "x = (ax, k)" by (cases x)
  obtain bc' bs' where st: "searchStep gs gm ts cs first num (bc, bs) x = (bc', bs')"
    by (cases "searchStep gs gm ts cs first num (bc, bs) x") auto
  have "bs' = None \<or> (\<exists>info. bs' = Some info \<and> good num info)"
    using st Cons.prems(1) unfolding x
    by (auto simp: searchStep_def Let_def split: if_splits intro: evaluateSplit_good)
  from Cons.IH [OF this] Cons.prems(2) st show ?case by simp
qed

lemma trySplit_good:
  "trySplitAndPartition gs gm first num ts cs bestCost = (Some info, ts', cs') \<Longrightarrow> good num info"
proof -
  assume a: "trySplitAndPartition gs gm first num ts cs bestCost = (Some info, ts', cs')"
  then have "snd (foldl (searchStep gs gm ts cs first num) (bestCost, None) candidates) = Some info"
    by (auto simp: trySplitAndPartition_def split: option.splits prod.splits)
  with search_inv [of None num gs gm ts cs first bestCost candidates info] show ?thesis by simp
qed


lemma nodeOK_mono:
  "nodeOK ns j \<Longrightarrow> length ns \<le> length ns' \<Longrightarrow> ns' ! j = ns ! j \<Longrightarrow> nodeOK ns' j"
  by (auto simp: nodeOK_def)

lemma frame_refl: "\<forall>j\<in>K. j < length ns \<longrightarrow> nodeOK ns j \<Longrightarrow> frame ns K ns"
  by (auto simp: frame_def)

lemma frame_trans:
  assumes ab: "frame A K B" and bc: "frame B K' C"
  shows "frame A (K \<union> K') C"
  unfolding frame_def
proof (intro conjI allI impI)
  from ab bc show "length A \<le> length C" by (simp add: frame_def)
next
  fix j assume j: "j < length A" "j \<notin> K \<union> K'"
  with ab have "B ! j = A ! j" "j < length B" by (auto simp: frame_def)
  moreover from this(2) j bc have "C ! j = B ! j" by (auto simp: frame_def)
  ultimately show "C ! j = A ! j" by simp
next
  fix j assume j: "j < length C" "j \<in> K \<union> K' \<or> length A \<le> j"
  show "nodeOK C j"
  proof (cases "j \<in> K' \<or> length B \<le> j")
    case True
    with bc j(1) show ?thesis by (auto simp: frame_def)
  next
    case False
    then have jb: "j < length B" "j \<notin> K'" by auto
    with bc have same: "C ! j = B ! j" and len: "length B \<le> length C"
      by (auto simp: frame_def)
    from j(2) jb have "j \<in> K \<or> length A \<le> j" by auto
    with ab jb(1) have "nodeOK B j" by (auto simp: frame_def)
    from nodeOK_mono [OF this len same] show ?thesis .
  qed
qed

lemma frame_keep: "frame A K B \<Longrightarrow> j < length A \<Longrightarrow> j \<notin> K \<Longrightarrow> B ! j = A ! j"
  by (simp add: frame_def)

lemma frame_length: "frame A K B \<Longrightarrow> length A \<le> length B"
  by (simp add: frame_def)


lemma uint32_of_small: "n < 2 ^ 32 \<Longrightarrow> uint32_of n = n"
  by (simp add: uint32_of_def)

lemma split_frame:
  "(\<And>m. m < M \<Longrightarrow> uint32_of m = m) \<Longrightarrow>
   nodeIndexOf b parent childIdx < length (nodes b) \<Longrightarrow>
   isLeaf (nodes b ! nodeIndexOf b parent childIdx) \<Longrightarrow>
   numTriangles (nodes b ! nodeIndexOf b parent childIdx) \<le> fuel \<Longrightarrow>
   (\<forall>p. parent = Some p \<longrightarrow> p < nodeIndexOf b parent childIdx) \<Longrightarrow>
   3 * length (nodes b) + 4 * numTriangles (nodes b ! nodeIndexOf b parent childIdx)
     \<le> 3 * M + 4 \<Longrightarrow>
   \<exists>b' cs'. split (Suc fuel) parent childIdx cost (b, cs) = Some (b', cs')
       \<and> frame (nodes b) {nodeIndexOf b parent childIdx} (nodes b')
       \<and> 3 * length (nodes b') + 4
           \<le> 3 * length (nodes b) + 4 * numTriangles (nodes b ! nodeIndexOf b parent childIdx)"
proof (induction fuel arbitrary: b parent childIdx cost cs)
  case 0
  then show ?case by (simp add: isLeaf_def)
next
  case (Suc f)
  note u = Suc.prems(1)
  define k where "k = nodeIndexOf b parent childIdx"
  define node where "node = nodes b ! k"
  define n where "n = numTriangles node"
  define L where "L = length (nodes b)"
  from Suc.prems have kL: "k < L" and leaf: "isLeaf node" and nf: "n \<le> Suc f"
    and par: "\<forall>p. parent = Some p \<longrightarrow> p < k" and budget: "3 * L + 4 * n \<le> 3 * M + 4"
    by (simp_all add: k_def node_def n_def L_def)
  from leaf have n1: "1 \<le> n" by (simp add: isLeaf_def n_def)
  have k_eq: "(case parent of Some p \<Rightarrow> uint32_of (idx (nodes b ! p) + childIdx) | None \<Rightarrow> 0) = k"
    by (simp add: k_def nodeIndexOf_def)
  from leaf kL have ok_k: "\<forall>j\<in>{k}. j < length (nodes b) \<longrightarrow> nodeOK (nodes b) j"
    by (simp add: nodeOK_def node_def)
  have same: "\<And>ts' cs'. \<exists>b' cs''. Some (b\<lparr>triangles := ts'\<rparr>, cs') = Some (b', cs'')
       \<and> frame (nodes b) {k} (nodes b') \<and> 3 * length (nodes b') + 4 \<le> 3 * L + 4 * n"
    using frame_refl [OF ok_k] n1 by (simp add: L_def)
  show ?case unfolding k_def [symmetric] node_def [symmetric] n_def [symmetric] L_def [symmetric]
  proof (cases "n \<le> MaxNumTrianglesInLeaf")
    case True
    then have "split (Suc (Suc f)) parent childIdx cost (b, cs) = Some (b, cs)"
      by (simp add: k_eq Let_def n_def node_def)
    with frame_refl [OF ok_k] n1
    show "\<exists>b' cs'. split (Suc (Suc f)) parent childIdx cost (b, cs) = Some (b', cs')
       \<and> frame (nodes b) {k} (nodes b') \<and> 3 * length (nodes b') + 4 \<le> 3 * L + 4 * n"
      by (simp add: L_def)
  next
    case False
    note big = False
    then have n5: "5 \<le> n" by (simp add: MaxNumTrianglesInLeaf_def)
    with budget have LM: "L + 3 < M" and nM: "n < M" by arith+
    define gs where "gs = (case parent of
                     Some p \<Rightarrow> AABB4_getSize (childBounds (nodes b ! p)) childIdx
                   | None \<Rightarrow> AABB_getSize (rootBounds b))"
    define gm where "gm = (case parent of
                     Some p \<Rightarrow> AABB4_getMin (childBounds (nodes b ! p)) childIdx
                   | None \<Rightarrow> AABB_getMin (rootBounds b))"
    obtain o1 ts1 cs1 where
      r1: "trySplitAndPartition gs gm (idx node) n (triangles b) cs cost = (o1, ts1, cs1)"
      by (cases "trySplitAndPartition gs gm (idx node) n (triangles b) cs cost") auto
    show "\<exists>b' cs'. split (Suc (Suc f)) parent childIdx cost (b, cs) = Some (b', cs')
       \<and> frame (nodes b) {k} (nodes b') \<and> 3 * length (nodes b') + 4 \<le> 3 * L + 4 * n"
    proof (cases o1)
      case None
      with big r1 have "split (Suc (Suc f)) parent childIdx cost (b, cs)
                        = Some (b\<lparr>triangles := ts1\<rparr>, cs1)"
        by (simp add: k_eq Let_def n_def [symmetric] node_def [symmetric]
            gs_def [symmetric] gm_def [symmetric])
      with same [of ts1 cs1] show ?thesis by simp
    next
      case (Some initial)
      note o1 = Some
      from trySplit_good [OF r1 [unfolded o1]] have gi: "good n initial" .
      with nM have "numLeft initial < M" "numRight initial < M" by (simp_all add: good_def)
      then have ui: "uint32_of (numLeft initial) = numLeft initial"
        "uint32_of (numRight initial) = numRight initial" by (simp_all add: u)
      define first3 where "first3 = uint32_of (idx node + numLeft initial)"
      obtain o2 ts2 cs2 where
        r2: "trySplitAndPartition (AABB_getSize (leftBBox initial)) (AABB_getMin (leftBBox initial))
               (idx node) (numLeft initial) ts1 cs1 cost = (o2, ts2, cs2)"
        by (cases "trySplitAndPartition (AABB_getSize (leftBBox initial))
               (AABB_getMin (leftBBox initial)) (idx node) (numLeft initial) ts1 cs1 cost") auto
      show ?thesis
      proof (cases o2)
        case None
        with big r1 o1 r2 have "split (Suc (Suc f)) parent childIdx cost (b, cs)
                        = Some (b\<lparr>triangles := ts2\<rparr>, cs2)"
          by (simp add: k_eq Let_def n_def [symmetric] node_def [symmetric]
              gs_def [symmetric] gm_def [symmetric] ui)
        with same [of ts2 cs2] show ?thesis by simp
      next
        case (Some left)
        note o2 = Some
        from trySplit_good [OF r2 [unfolded o2]] have gl: "good (numLeft initial) left" .
        obtain o3 ts3 cs3 where
          r3: "trySplitAndPartition (AABB_getSize (rightBBox initial))
                 (AABB_getMin (rightBBox initial)) first3
                 (numRight initial) ts2 cs2 cost = (o3, ts3, cs3)"
          by (cases "trySplitAndPartition (AABB_getSize (rightBBox initial))
                 (AABB_getMin (rightBBox initial)) first3
                 (numRight initial) ts2 cs2 cost") auto
        show ?thesis
        proof (cases o3)
          case None
          with big r1 o1 r2 o2 r3 have "split (Suc (Suc f)) parent childIdx cost (b, cs)
                        = Some (b\<lparr>triangles := ts3\<rparr>, cs3)"
            by (simp add: k_eq Let_def n_def [symmetric] node_def [symmetric]
                gs_def [symmetric] gm_def [symmetric] ui first3_def [symmetric])
          with same [of ts3 cs3] show ?thesis by simp
        next
          case (Some right)
          note o3 = Some
          from trySplit_good [OF r3 [unfolded o3]] have gr: "good (numRight initial) right" .
          define total where "total = fadd (fadd (fadd (leftCost left) (rightCost left))
                                                  (leftCost right)) (rightCost right)"
          show ?thesis
          proof (cases "fless cost total")
            case True
            with big r1 o1 r2 o2 r3 o3 have "split (Suc (Suc f)) parent childIdx cost (b, cs)
                        = Some (b\<lparr>triangles := ts3\<rparr>, cs3)"
              by (simp add: k_eq Let_def n_def [symmetric] node_def [symmetric]
                  gs_def [symmetric] gm_def [symmetric] total_def [symmetric] ui
                  first3_def [symmetric])
            with same [of ts3 cs3] show ?thesis by simp
          next
            case False
            note worth = False
            define n0 where "n0 = numLeft left"
            define n1 where "n1 = numRight left"
            define n2 where "n2 = numLeft right"
            define n3 where "n3 = numRight right"
            from gi gl gr nf have cnt:
              "0 < n0" "0 < n1" "0 < n2" "0 < n3" "n0 \<le> f" "n1 \<le> f" "n2 \<le> f" "n3 \<le> f"
              and total_n: "n0 + n1 + n2 + n3 = n"
              by (simp_all add: good_def n0_def n1_def n2_def n3_def)
            from total_n nM have "n0 < M" "n1 < M" "n2 < M" "n3 < M" by simp_all
            then have un: "uint32_of (numLeft left) = n0" "uint32_of (numRight left) = n1"
              "uint32_of (numLeft right) = n2" "uint32_of (numRight right) = n3"
              by (simp_all add: u n0_def n1_def n2_def n3_def)
            from LM have uL: "uint32_of (length (nodes b)) = L" by (simp add: u L_def)
            define i0 where "i0 = idx node"
            have f3: "uint32_of (i0 + numLeft initial) = first3"
              by (simp add: first3_def i0_def)
            define i1 where "i1 = uint32_of (i0 + n0)"
            define i2 where "i2 = uint32_of (i1 + n1)"
            define i3 where "i3 = uint32_of (i2 + n2)"
            define A0 where "A0 = (nodes b)[k :=
                                     \<lparr>childBounds = AABB4_of (leftBBox left) (rightBBox left)
                                                      (leftBBox right) (rightBBox right),
                                      idx = L, numTriangles = 0\<rparr>]
                                  @ [leafNode i0 n0, leafNode i1 n1, leafNode i2 n2,
                                     leafNode i3 n3]"
            define b0 where "b0 = b\<lparr>triangles := ts3, nodes := A0\<rparr>"
            have unfold: "split (Suc (Suc f)) parent childIdx cost (b, cs) =
                (case split (Suc f) (Some k) 0 (leftCost left) (b0, cs3) of
                   None \<Rightarrow> None
                 | Some st1 \<Rightarrow>
                    (case split (Suc f) (Some k) 1 (rightCost left) st1 of
                       None \<Rightarrow> None
                     | Some st2 \<Rightarrow>
                        (case split (Suc f) (Some k) 2 (leftCost right) st2 of
                           None \<Rightarrow> None
                         | Some st3 \<Rightarrow> split (Suc f) (Some k) 3 (rightCost right) st3)))"
              using big r1 o1 r2 o2 r3 o3 worth
              apply (subst split.simps(2))
              apply (simp add: k_eq Let_def n_def [symmetric] node_def [symmetric]
                  gs_def [symmetric] gm_def [symmetric] total_def [symmetric] ui un uL
                  f3 i0_def [symmetric] i1_def [symmetric] i2_def [symmetric]
                  i3_def [symmetric] A0_def [symmetric] b0_def [symmetric]
                  del: split.simps)
              done
            have lenA0: "length A0 = L + 4" by (simp add: A0_def L_def)
            have A0k: "A0 ! k = \<lparr>childBounds = AABB4_of (leftBBox left) (rightBBox left)
                                                      (leftBBox right) (rightBBox right),
                                      idx = L, numTriangles = 0\<rparr>"
              using kL by (simp add: A0_def L_def nth_append)
            have A0old: "A0 ! j = nodes b ! j" if "j < L" "j \<noteq> k" for j
              using that by (simp add: A0_def L_def nth_append)
            have A0n: "numTriangles (A0 ! L) = n0" "numTriangles (A0 ! (L + 1)) = n1"
              "numTriangles (A0 ! Suc L) = n1" "numTriangles (A0 ! Suc (Suc L)) = n2"
              "numTriangles (A0 ! Suc (Suc (Suc L))) = n3"
              "numTriangles (A0 ! (L + 2)) = n2" "numTriangles (A0 ! (L + 3)) = n3"
              by (simp_all add: A0_def L_def nth_append leafNode_def)
            have child: "isLeaf (A0 ! (L + i)) \<and> numTriangles (A0 ! (L + i)) \<le> f"
              if "i < 4" for i
            proof -
              from that have "i = 0 \<or> i = 1 \<or> i = 2 \<or> i = 3" by arith
              with cnt show ?thesis
                by (auto simp: A0_def L_def nth_append isLeaf_def leafNode_def)
            qed
            have step: "\<exists>b' c'. split (Suc f) (Some k) i c (bi, ci) = Some (b', c')
                    \<and> frame A0 (K \<union> {L + i}) (nodes b')
                    \<and> 3 * length (nodes b') + 4
                        \<le> 3 * length (nodes bi) + 4 * numTriangles (A0 ! (L + i))"
              if i: "i < 4" and fr: "frame A0 K (nodes bi)" and kK: "k \<notin> K" and iK: "L + i \<notin> K"
                and bud: "3 * length (nodes bi) + 4 * numTriangles (A0 ! (L + i)) \<le> 3 * M + 4"
              for i and bi :: BVH and ci K c
            proof -
              from frame_keep [OF fr _ kK] kL lenA0 have bk: "nodes bi ! k = A0 ! k" by simp
              from frame_keep [OF fr _ iK] i lenA0 have bc: "nodes bi ! (L + i) = A0 ! (L + i)"
                by simp
              from i LM have "L + i < M" by simp
              then have ni: "nodeIndexOf bi (Some k) i = L + i"
                by (simp add: nodeIndexOf_def bk A0k u)
              from frame_length [OF fr] lenA0 i have p1: "nodeIndexOf bi (Some k) i < length (nodes bi)"
                unfolding ni by simp
              from child [OF i] have p2: "isLeaf (nodes bi ! nodeIndexOf bi (Some k) i)"
                and p3: "numTriangles (nodes bi ! nodeIndexOf bi (Some k) i) \<le> f"
                unfolding ni bc by simp_all
              from kL have p4: "\<forall>p. Some k = Some p \<longrightarrow> p < nodeIndexOf bi (Some k) i"
                unfolding ni by simp
              from bud have p5: "3 * length (nodes bi)
                  + 4 * numTriangles (nodes bi ! nodeIndexOf bi (Some k) i) \<le> 3 * M + 4"
                unfolding ni bc .
              from Suc.IH [OF u p1 p2 p3 p4 p5, of c ci]
              obtain b' c' where "split (Suc f) (Some k) i c (bi, ci) = Some (b', c')"
                and "frame (nodes bi) {L + i} (nodes b')"
                and "3 * length (nodes b') + 4
                        \<le> 3 * length (nodes bi) + 4 * numTriangles (A0 ! (L + i))"
                unfolding ni bc by blast
              with frame_trans [OF fr this(2)]
              show ?thesis by blast
            qed
            have fr0: "frame A0 {} (nodes b0)" by (simp add: b0_def frame_refl)
            have len0: "length (nodes b0) = L + 4" by (simp add: b0_def lenA0)
            have "\<exists>b' c'. split (Suc f) (Some k) 0 (leftCost left) (b0, cs3) = Some (b', c')
                    \<and> frame A0 ({} \<union> {L + 0}) (nodes b')
                    \<and> 3 * length (nodes b') + 4
                        \<le> 3 * length (nodes b0) + 4 * numTriangles (A0 ! (L + 0))"
              using cnt total_n budget by (intro step fr0) (simp_all add: len0 A0n)
            then obtain b1 c1 where
              s1: "split (Suc f) (Some k) 0 (leftCost left) (b0, cs3) = Some (b1, c1)"
              and f1: "frame A0 {L} (nodes b1)"
              and l1: "3 * length (nodes b1) + 4 \<le> 3 * (L + 4) + 4 * n0"
              by (auto simp: len0 A0n)
            have "\<exists>b' c'. split (Suc f) (Some k) 1 (rightCost left) (b1, c1) = Some (b', c')
                    \<and> frame A0 ({L} \<union> {L + 1}) (nodes b')
                    \<and> 3 * length (nodes b') + 4
                        \<le> 3 * length (nodes b1) + 4 * numTriangles (A0 ! (L + 1))"
              using kL cnt total_n budget l1 by (intro step f1) (simp_all add: A0n)
            then obtain b2 c2 where
              s2: "split (Suc f) (Some k) 1 (rightCost left) (b1, c1) = Some (b2, c2)"
              and f2: "frame A0 ({L} \<union> {L + 1}) (nodes b2)"
              and l2: "3 * length (nodes b2) + 4 \<le> 3 * length (nodes b1) + 4 * n1"
              by (auto simp: A0n)
            have "\<exists>b' c'. split (Suc f) (Some k) 2 (leftCost right) (b2, c2) = Some (b', c')
                    \<and> frame A0 (({L} \<union> {L + 1}) \<union> {L + 2}) (nodes b')
                    \<and> 3 * length (nodes b') + 4
                        \<le> 3 * length (nodes b2) + 4 * numTriangles (A0 ! (L + 2))"
              using kL cnt total_n budget l1 l2 by (intro step f2) (simp_all add: A0n)
            then obtain b3 c3 where
              s3: "split (Suc f) (Some k) 2 (leftCost right) (b2, c2) = Some (b3, c3)"
              and f3: "frame A0 ({L} \<union> {L + 1} \<union> {L + 2}) (nodes b3)"
              and l3: "3 * length (nodes b3) + 4 \<le> 3 * length (nodes b2) + 4 * n2"
              by (auto simp: A0n)
            have "\<exists>b' c'. split (Suc f) (Some k) 3 (rightCost right) (b3, c3) = Some (b', c')
                    \<and> frame A0 (({L} \<union> {L + 1} \<union> {L + 2}) \<union> {L + 3}) (nodes b')
                    \<and> 3 * length (nodes b') + 4
                        \<le> 3 * length (nodes b3) + 4 * numTriangles (A0 ! (L + 3))"
              using kL cnt total_n budget l1 l2 l3 by (intro step f3) (simp_all add: A0n)
            then obtain b4 c4 where
              s4: "split (Suc f) (Some k) 3 (rightCost right) (b3, c3) = Some (b4, c4)"
              and f4: "frame A0 ({L} \<union> {L + 1} \<union> {L + 2} \<union> {L + 3}) (nodes b4)"
              and l4: "3 * length (nodes b4) + 4 \<le> 3 * length (nodes b3) + 4 * n3"
              by (auto simp: A0n)
            from unfold s1 s2 s3 s4
            have res: "split (Suc (Suc f)) parent childIdx cost (b, cs) = Some (b4, c4)" by simp
            from l1 l2 l3 l4 total_n
            have bound: "3 * length (nodes b4) + 4 \<le> 3 * L + 4 * n" by arith
            have "frame (nodes b) {k} (nodes b4)"
              unfolding frame_def
            proof (intro conjI allI impI)
              from frame_length [OF f4] lenA0 show "length (nodes b) \<le> length (nodes b4)"
                by (simp add: L_def)
            next
              fix j assume j: "j < length (nodes b)" "j \<notin> {k}"
              then have "j < length A0" "j \<notin> {L} \<union> {L + 1} \<union> {L + 2} \<union> {L + 3}"
                by (simp_all add: lenA0 L_def)
              from frame_keep [OF f4 this] A0old [of j] j
              show "nodes b4 ! j = nodes b ! j" by (simp add: L_def)
            next
              fix j assume j: "j < length (nodes b4)" "j \<in> {k} \<or> length (nodes b) \<le> j"
              show "nodeOK (nodes b4) j"
              proof (cases "j = k")
                case True
                from kL have "k < length A0" "k \<notin> {L} \<union> {L + 1} \<union> {L + 2} \<union> {L + 3}"
                  by (simp_all add: lenA0)
                from frame_keep [OF f4 this] have "nodes b4 ! k = A0 ! k" .
                with kL frame_length [OF f4] lenA0 True show ?thesis
                  by (simp add: nodeOK_def A0k)
              next
                case False
                with j(2) have "L \<le> j" by (simp add: L_def)
                then have "j \<in> {L} \<union> {L + 1} \<union> {L + 2} \<union> {L + 3} \<or> length A0 \<le> j"
                  unfolding lenA0 by auto
                with f4 j(1) show ?thesis unfolding frame_def by blast
              qed
            qed
            with res bound show ?thesis by blast
          qed
        qed
      qed
    qed
  qed
qed


text \<open>
  C2, as the source has it. The construction over a slice with at least one and at most
  \<open>3 * 2^30\<close> triangles returns (the recursion of \<open>split\<close> ends within the depth given, and
  no 32-bit counter wraps around), and in the resulting array every node is a leaf or has
  its four children at \<open>idx, \<dots>, idx + 3\<close>, after itself and inside the array.
\<close>

theorem construction_invariant:
  assumes "0 < cnt" and "cnt \<le> 3 * 2 ^ 30" and "start + cnt \<le> length mts"
  shows "\<exists>b. BVH_new mts start cnt = Inr (Some b) \<and> 0 < length (nodes b)
           \<and> (\<forall>j<length (nodes b). nodeOK (nodes b) j)"
proof -
  define M :: nat where "M = 2 ^ 32"
  have u: "\<And>m. m < M \<Longrightarrow> uint32_of m = m" by (simp add: M_def uint32_of_def)
  from assms(2) have cM: "cnt < M" and bud: "3 * 1 + 4 * cnt \<le> 3 * M + 4"
    by (simp_all add: M_def)
  obtain b0 cs0 where init: "BVH_init mts start cnt = (b0, cs0)"
    by (cases "BVH_init mts start cnt") auto
  then have n0: "nodes b0 = [leafNode 0 cnt]"
    using u [OF cM] by (auto simp: BVH_init_def Let_def)
  have i0: "nodeIndexOf b0 None 0 = 0" by (simp add: nodeIndexOf_def)
  have p1: "nodeIndexOf b0 None 0 < length (nodes b0)" by (simp add: i0 n0)
  have p2: "isLeaf (nodes b0 ! nodeIndexOf b0 None 0)"
    using assms(1) by (simp add: i0 n0 isLeaf_def leafNode_def)
  have p3: "numTriangles (nodes b0 ! nodeIndexOf b0 None 0) \<le> cnt"
    by (simp add: i0 n0 leafNode_def)
  have p4: "\<forall>p. None = Some p \<longrightarrow> p < nodeIndexOf b0 None 0" by simp
  have p5: "3 * length (nodes b0) + 4 * numTriangles (nodes b0 ! nodeIndexOf b0 None 0)
              \<le> 3 * M + 4"
    using bud by (simp add: i0 n0 leafNode_def)
  from split_frame [OF u p1 p2 p3 p4 p5]
  obtain b' cs' where
    s: "split (Suc cnt) None 0
          (fmul (fl_of_nat (numTriangles (nodes b0 ! 0))) (halfArea (rootBounds b0))) (b0, cs0)
        = Some (b', cs')"
    and fr: "frame (nodes b0) {0} (nodes b')"
    unfolding i0 by blast
  from assms(3) init s have "BVH_new mts start cnt = Inr (Some b')"
    by (simp add: BVH_new_def)
  moreover from fr have len: "length (nodes b0) \<le> length (nodes b')"
    by (simp add: frame_def)
  then have "0 < length (nodes b')" by (cases "nodes b'") (simp_all add: n0)
  moreover have "\<forall>j<length (nodes b'). nodeOK (nodes b') j"
  proof (intro allI impI)
    fix j assume j: "j < length (nodes b')"
    have "j \<in> {0} \<or> length (nodes b0) \<le> j" by (cases j) (simp_all add: n0)
    with fr j show "nodeOK (nodes b') j" unfolding frame_def by blast
  qed
  ultimately show ?thesis by blast
qed

theorem construction_invariant_witness:
  "(0 :: nat) < 8 \<and> (8 :: nat) \<le> 3 * 2 ^ 30 \<and> 0 + 8 \<le> length eight_clusters
   \<and> (\<exists>b. BVH_new eight_clusters 0 8 = Inr (Some b) \<and> 0 < length (nodes b))"
proof -
  have h1: "(0 :: nat) < 8" by simp
  have h2: "(8 :: nat) \<le> 3 * 2 ^ 30" by simp
  have h3: "0 + 8 \<le> length eight_clusters" by (simp add: eight_clusters_def)
  from construction_invariant [OF h1 h2 h3] h1 h2 h3 show ?thesis by blast
qed

lemma five_init:
  "BVH_init five_copies 0 5 =
     (\<lparr>triangles = map (\<lambda>i. \<lparr>positions = tri_positions flat_triangle, t_idx = i\<rparr>) [0, 1, 2, 3, 4],
       nodes = [leafNode 0 5], rootBounds = box 0 6 0 6 0 0\<rparr>,
      replicate 5 (Vec3 (Fin 2) (Fin 2) (Fin 0)))"
proof -
  have u5: "uint32_of 5 = 5" by (simp add: uint32_of_def)
  show ?thesis
    unfolding BVH_init_def u5
    by (simp add: five_copies_def flat_triangle_def Let_def upt_rec_numeral
        AABB_fit_def AABB_new_def vsplat_def box_def Triangle_center_def vadd_def vdivs_def
        numeral_nat)
qed


lemma five_cost: "fmul (fl_of_nat 5) (halfArea (box 0 6 0 6 0 0)) = Fin 180"
  by (simp add: halfArea_def AABB_getSize_def box_def v3_at_def fsub_def fl_of_nat_def Let_def)

lemma five_search:
  "snd (foldl (searchStep (AABB_getSize (box 0 6 0 6 0 0)) (AABB_getMin (box 0 6 0 6 0 0))
                 (map (\<lambda>i. \<lparr>positions = tri_positions flat_triangle, t_idx = i\<rparr>) [0, 1, 2, 3, 4])
                 (replicate 5 (Vec3 (Fin 2) (Fin 2) (Fin 0))) 0 5)
              (Fin 180, None) candidates) = None"
  by (simp add: candidates_def NumSplits_def searchStep_def evaluateSplit_def
      evaluateSplitStep_def AABB_getSize_def AABB_getMin_def box_def v3_at_def fsub_def
      fl_of_nat_def Let_def upt_rec_numeral numeral_nat flat_triangle_def AABB_fit_def
      AABB_new_def vsplat_def halfArea_def inf_of_sign_def)


text \<open>
  Five copies of one triangle have the same centre, so every candidate plane leaves one
  side empty, its cost is NaN and no candidate beats the cost of the node: the root stays
  a leaf with five triangles, more than \<open>MaxNumTrianglesInLeaf\<close>.
\<close>

theorem five_copies_one_leaf:
  "map_sum id (map_option (\<lambda>b. map numTriangles (nodes b))) (BVH_new five_copies 0 5)
     = Inr (Some [5])
   \<and> isLeaf (leafNode 0 5) \<and> MaxNumTrianglesInLeaf < numTriangles (leafNode 0 5)"
proof -
  define ts where
    "ts = map (\<lambda>i. \<lparr>positions = tri_positions flat_triangle, t_idx = i\<rparr>) [0, 1, 2, 3, 4]"
  define cs where "cs = replicate 5 (Vec3 (Fin 2) (Fin 2) (Fin 0))"
  have len: "0 + 5 \<le> length five_copies" by (simp add: five_copies_def)
  have init: "BVH_init five_copies 0 5 =
     (\<lparr>triangles = ts, nodes = [leafNode 0 5], rootBounds = box 0 6 0 6 0 0\<rparr>, cs)"
    by (simp only: five_init ts_def cs_def)
  have t: "trySplitAndPartition (AABB_getSize (box 0 6 0 6 0 0)) (AABB_getMin (box 0 6 0 6 0 0))
             0 5 ts cs (Fin 180) = (None, ts, cs)"
    unfolding ts_def cs_def
    by (simp only: trySplitAndPartition_def five_search option.case)
  have "split (Suc 5) None 0 (Fin 180)
          (\<lparr>triangles = ts, nodes = [leafNode 0 5], rootBounds = box 0 6 0 6 0 0\<rparr>, cs)
        = Some (\<lparr>triangles = ts, nodes = [leafNode 0 5], rootBounds = box 0 6 0 6 0 0\<rparr>, cs)"
    apply (subst split.simps(2))
    apply (simp add: t Let_def leafNode_def MaxNumTrianglesInLeaf_def del: split.simps)
    done
  with len have "BVH_new five_copies 0 5 =
          Inr (Some \<lparr>triangles = ts, nodes = [leafNode 0 5], rootBounds = box 0 6 0 6 0 0\<rparr>)"
    by (simp add: BVH_new_def init five_cost leafNode_def del: split.simps)
  then show ?thesis
    by (simp add: leafNode_def isLeaf_def MaxNumTrianglesInLeaf_def)
qed

lemma eight_init:
  "BVH_init eight_clusters 0 8 =
     (\<lparr>triangles = eight_triangles, nodes = [leafNode 0 8],
       rootBounds = box 0 42 0 3 0 3\<rparr>, eight_centers)"
proof -
  have u8: "uint32_of 8 = 8" by (simp add: uint32_of_def)
  show ?thesis
    unfolding BVH_init_def u8
    by (simp add: eight_clusters_def cluster_triangle_def eight_triangles_def
        eight_centers_def Let_def upt_rec_numeral AABB_fit_def AABB_new_def vsplat_def box_def
        Triangle_center_def vadd_def vdivs_def numeral_nat)
qed

lemmas search_defs = candidates_def NumSplits_def searchStep_def evaluateSplit_def
      evaluateSplitStep_def AABB_getSize_def AABB_getMin_def box_def v3_at_def fsub_def
      fl_of_nat_def Let_def upt_rec_numeral numeral_nat cluster_triangle_def AABB_fit_def
      AABB_new_def vsplat_def halfArea_def inf_of_sign_def eight_triangles_def eight_centers_def

lemmas partition_defs = partitionStep_def swap_def eight_triangles_def eight_centers_def v3_at_def
  cluster_triangle_def

lemma eight_partition1:
  "foldl (partitionStep 0 0 (Fin 21)) (eight_triangles, eight_centers, 0) [0, 1, 2, 3, 4, 5, 6, 7]
   = (eight_triangles, eight_centers, 4)"
  by (simp add: partition_defs)

lemma eight_partition2:
  "foldl (partitionStep 0 0 (Fin 6)) (eight_triangles, eight_centers, 0) [0, 1, 2, 3]
   = (eight_triangles, eight_centers, 2)"
  by (simp add: partition_defs)

lemma eight_partition3:
  "foldl (partitionStep 4 0 (Fin 30)) (eight_triangles, eight_centers, 0) [0, 1, 2, 3]
   = (eight_triangles, eight_centers, 2)"
  by (simp add: partition_defs)

lemma eight_search1:
  "snd (foldl (searchStep (AABB_getSize (box 0 42 0 3 0 3)) (AABB_getMin (box 0 42 0 3 0 3))
                 eight_triangles eight_centers 0 8) (Fin 2088, None) candidates)
   = Some \<lparr>axis = 0, splitPosition = Fin 21, leftBBox = box 0 18 0 3 0 3,
            rightBBox = box 24 42 0 3 0 3, numLeft = 4, numRight = 4,
            leftCost = Fin 468, rightCost = Fin 468\<rparr>"
  by (simp add: search_defs)

lemma eight_search2:
  "snd (foldl (searchStep (AABB_getSize (box 0 18 0 3 0 3)) (AABB_getMin (box 0 18 0 3 0 3))
                 eight_triangles eight_centers 0 4) (Fin 2088, None) candidates)
   = Some \<lparr>axis = 0, splitPosition = Fin 6, leftBBox = box 0 6 0 3 0 3,
            rightBBox = box 12 18 0 3 0 3, numLeft = 2, numRight = 2,
            leftCost = Fin 90, rightCost = Fin 90\<rparr>"
  by (simp add: search_defs)

lemma eight_search3:
  "snd (foldl (searchStep (AABB_getSize (box 24 42 0 3 0 3)) (AABB_getMin (box 24 42 0 3 0 3))
                 eight_triangles eight_centers 4 4) (Fin 2088, None) candidates)
   = Some \<lparr>axis = 0, splitPosition = Fin 30, leftBBox = box 24 30 0 3 0 3,
            rightBBox = box 36 42 0 3 0 3, numLeft = 2, numRight = 2,
            leftCost = Fin 90, rightCost = Fin 90\<rparr>"
  by (simp add: search_defs)

lemma eight_cost: "fmul (fl_of_nat 8) (halfArea (box 0 42 0 3 0 3)) = Fin 2088"
  by (simp add: halfArea_def AABB_getSize_def box_def v3_at_def fsub_def fl_of_nat_def Let_def)

lemma eight_try1:
  "trySplitAndPartition (AABB_getSize (box 0 42 0 3 0 3)) (AABB_getMin (box 0 42 0 3 0 3))
     0 8 eight_triangles eight_centers (Fin 2088)
   = (Some \<lparr>axis = 0, splitPosition = Fin 21, leftBBox = box 0 18 0 3 0 3,
            rightBBox = box 24 42 0 3 0 3, numLeft = 4, numRight = 4,
            leftCost = Fin 468, rightCost = Fin 468\<rparr>, eight_triangles, eight_centers)"
proof -
  have u: "[0..<8] = [0, 1, 2, 3, 4, 5, 6, 7]" by (simp add: eval_nat_numeral)
  show ?thesis
    by (simp only: trySplitAndPartition_def eight_search1 option.case SplitInfo.select_convs
        u eight_partition1 prod.case)
qed

lemma eight_try2:
  "trySplitAndPartition (AABB_getSize (box 0 18 0 3 0 3)) (AABB_getMin (box 0 18 0 3 0 3))
     0 4 eight_triangles eight_centers (Fin 2088)
   = (Some \<lparr>axis = 0, splitPosition = Fin 6, leftBBox = box 0 6 0 3 0 3,
            rightBBox = box 12 18 0 3 0 3, numLeft = 2, numRight = 2,
            leftCost = Fin 90, rightCost = Fin 90\<rparr>, eight_triangles, eight_centers)"
proof -
  have u: "[0..<4] = [0, 1, 2, 3]" by (simp add: eval_nat_numeral)
  show ?thesis
    by (simp only: trySplitAndPartition_def eight_search2 option.case SplitInfo.select_convs
        u eight_partition2 prod.case)
qed

lemma eight_try3:
  "trySplitAndPartition (AABB_getSize (box 24 42 0 3 0 3)) (AABB_getMin (box 24 42 0 3 0 3))
     4 4 eight_triangles eight_centers (Fin 2088)
   = (Some \<lparr>axis = 0, splitPosition = Fin 30, leftBBox = box 24 30 0 3 0 3,
            rightBBox = box 36 42 0 3 0 3, numLeft = 2, numRight = 2,
            leftCost = Fin 90, rightCost = Fin 90\<rparr>, eight_triangles, eight_centers)"
proof -
  have u: "[0..<4] = [0, 1, 2, 3]" by (simp add: eval_nat_numeral)
  show ?thesis
    by (simp only: trySplitAndPartition_def eight_search3 option.case SplitInfo.select_convs
        u eight_partition3 prod.case)
qed

lemma split_small:
  "0 < f \<Longrightarrow>
   numTriangles (nodes b ! uint32_of (idx (nodes b ! p) + i)) \<le> MaxNumTrianglesInLeaf
   \<Longrightarrow> split f (Some p) i c (b, cs) = Some (b, cs)"
  by (cases f) (simp_all add: Let_def)

text \<open>
  On the eight triangles the root is split at \<open>x = 21\<close>, its halves at \<open>x = 6\<close> and
  \<open>x = 30\<close>: the root becomes an internal node with its four children at indices 1 to 4,
  each a leaf with two triangles.
\<close>

lemma eight_clusters_split:
  "map_sum id (map_option (\<lambda>b. map (\<lambda>n. (idx n, numTriangles n)) (nodes b)))
     (BVH_new eight_clusters 0 8)
   = Inr (Some [(1, 0), (0, 2), (2, 2), (4, 2), (6, 2)])"
proof -
  have len: "0 + 8 \<le> length eight_clusters" by (simp add: eight_clusters_def)
  define b0 where
    "b0 = \<lparr>triangles = eight_triangles, nodes = [leafNode 0 8],
           rootBounds = box 0 42 0 3 0 3\<rparr>"
  define ns where
    "ns = [\<lparr>childBounds = AABB4_of (box 0 6 0 3 0 3) (box 12 18 0 3 0 3)
                            (box 24 30 0 3 0 3) (box 36 42 0 3 0 3),
            idx = 1, numTriangles = 0\<rparr>,
           leafNode 0 2, leafNode 2 2, leafNode 4 2, leafNode 6 2]"
  define b1 where "b1 = b0\<lparr>triangles := eight_triangles, nodes := ns\<rparr>"
  have root: "split (Suc 8) None 0 (Fin 2088) (b0, eight_centers) = Some (b1, eight_centers)"
    apply (subst split.simps(2))
    apply (simp add: Let_def b0_def b1_def ns_def leafNode_def MaxNumTrianglesInLeaf_def
        uint32_of_def eight_try1 eight_try2 eight_try3 split_small del: split.simps)
    done
  have nine: "(9 :: nat) = Suc 8" by simp
  have root9: "split 9 None 0 (Fin 2088)
                 (\<lparr>triangles = eight_triangles,
                   nodes = [\<lparr>childBounds = AABB4_new, idx = 0, numTriangles = 8\<rparr>],
                   rootBounds = box 0 42 0 3 0 3\<rparr>, eight_centers) = Some (b1, eight_centers)"
    using root by (simp only: b0_def leafNode_def nine)
  from len have "BVH_new eight_clusters 0 8 = Inr (Some b1)"
    by (simp add: BVH_new_def eight_init eight_cost leafNode_def root9 del: split.simps)
  then show ?thesis by (simp add: b1_def ns_def leafNode_def)
qed

end
